(* ===== verification/Prelude.thy ===== *)
theory Prelude
  imports Main "HOL-Library.Word" "HOL-Library.Multiset"
begin

text \<open>
  Shared vocabulary of the development: the C integer types, the result type of
  code whose memory accesses are checked by the model, and the generic lemmas on
  words, lists and faults that the component theories use.

  The C code is modelled for the platform the repository supports (64 bit, little
  endian). \<open>uint8_t\<close>, \<open>uint16_t\<close>, \<open>uint32_t\<close> and \<open>uint64_t\<close> are words, so their
  arithmetic wraps; \<open>int\<close> is \<^typ>\<open>int\<close>; \<open>size_t\<close> is \<^typ>\<open>nat\<close>, with the
  wrap-around modulo \<open>2 ^ 64\<close> written out where a sum or product is formed from
  values the code does not bound.
\<close>

unbundle bit_operations_syntax

type_synonym u8 = "8 word"
type_synonym u16 = "16 word"
type_synonym u32 = "32 word"
type_synonym u64 = "64 word"

section \<open>Faults\<close>

text \<open>
  Code whose memory safety is a theorem returns \<open>c_fault + 'a\<close>: \<open>Inl\<close> is an
  access outside its object or at a misaligned address, a \<open>memcpy\<close> between overlapping blocks, a use of a null pointer,
  a failed \<open>assert\<close>, a call of \<open>abort\<close> or a write past the end of a fixed-size local stack.
  \<open>OutOfFuel\<close> stands for a loop that did not end within the number of turns the model grants it; a theorem that
  the result is not \<open>Inl\<close> shows that the loop ends.
\<close>

datatype c_fault =
  OutOfBounds | Misaligned | OverlappingCopy | NullDeref | AssertFailed | Aborted | StackOverflow | OutOfFuel

type_synonym 'a cres = "c_fault + 'a"

fun cbind :: "'a cres \<Rightarrow> ('a \<Rightarrow> 'b cres) \<Rightarrow> 'b cres" where
  "cbind (Inl e) f = Inl e"
| "cbind (Inr x) f = f x"

lemma cbind_cong [fundef_cong]:
  "m = m' \<Longrightarrow> (\<And>x. m' = Inr x \<Longrightarrow> f x = g x) \<Longrightarrow> cbind m f = cbind m' g"
  by (cases m') auto

lemma cbind_eq_Inr_iff: "cbind m f = Inr y \<longleftrightarrow> (\<exists>x. m = Inr x \<and> f x = Inr y)"
  by (cases m) auto

lemma cbind_eq_InrE [elim!]:
  assumes "cbind m f = Inr y"
  obtains x where "m = Inr x" "f x = Inr y"
  using assms by (cases m) auto

text \<open>Reads and writes of an array cell, and of a block of consecutive cells.\<close>

definition rd :: "'a list \<Rightarrow> nat \<Rightarrow> 'a cres" where
  "rd xs i = (if i < length xs then Inr (xs ! i) else Inl OutOfBounds)"

definition wr :: "'a list \<Rightarrow> nat \<Rightarrow> 'a \<Rightarrow> 'a list cres" where
  "wr xs i v = (if i < length xs then Inr (xs[i := v]) else Inl OutOfBounds)"

definition rd_block :: "'a list \<Rightarrow> nat \<Rightarrow> nat \<Rightarrow> 'a list cres" where
  "rd_block xs off n =
     (if off + n \<le> length xs then Inr (take n (drop off xs)) else Inl OutOfBounds)"

definition wr_block :: "'a list \<Rightarrow> nat \<Rightarrow> 'a list \<Rightarrow> 'a list cres" where
  "wr_block xs off ys =
     (if off + length ys \<le> length xs
      then Inr (take off xs @ ys @ drop (off + length ys) xs) else Inl OutOfBounds)"

lemma rd_in [simp]: "i < length xs \<Longrightarrow> rd xs i = Inr (xs ! i)"
  by (simp add: rd_def)

lemma wr_in [simp]: "i < length xs \<Longrightarrow> wr xs i v = Inr (xs[i := v])"
  by (simp add: wr_def)

lemma rd_block_in [simp]: "off + n \<le> length xs \<Longrightarrow> rd_block xs off n = Inr (take n (drop off xs))"
  by (simp add: rd_block_def)

lemma wr_block_in [simp]:
  "off + length ys \<le> length xs \<Longrightarrow>
     wr_block xs off ys = Inr (take off xs @ ys @ drop (off + length ys) xs)"
  by (simp add: wr_block_def)

section \<open>Sizes\<close>

text \<open>Unsigned 64 bit arithmetic on \<open>size_t\<close> values.\<close>

definition sz_add :: "nat \<Rightarrow> nat \<Rightarrow> nat" where
  "sz_add a b = (a + b) mod 2 ^ 64"

definition sz_mul :: "nat \<Rightarrow> nat \<Rightarrow> nat" where
  "sz_mul a b = (a * b) mod 2 ^ 64"

lemma sz_add_small [simp]: "a + b < 2 ^ 64 \<Longrightarrow> sz_add a b = a + b"
  by (simp add: sz_add_def)

lemma sz_mul_small [simp]: "a * b < 2 ^ 64 \<Longrightarrow> sz_mul a b = a * b"
  by (simp add: sz_mul_def)

section \<open>Words\<close>

text \<open>Bitwise reasoning on words of a numeral width: all bits, position by position.\<close>

lemma word_bits_eqI:
  fixes v w :: "'a::len word"
  shows "(\<And>n. n < LENGTH('a) \<Longrightarrow> bit v n \<longleftrightarrow> bit w n) \<Longrightarrow> v = w"
  by (rule bit_word_eqI)

lemma unat_word_less_pow: "unat (w :: 'a::len word) < 2 ^ LENGTH('a)"
  by (rule unsigned_less)

lemma u8_unat_lt [simp]: "unat (b :: u8) < 256"
  using unsigned_less [of b] by simp

lemma u16_unat_lt [simp]: "unat (b :: u16) < 65536"
  using unsigned_less [of b] by simp

lemma u32_unat_lt [simp]: "unat (b :: u32) < 4294967296"
  using unsigned_less [of b] by simp

lemma u8_eqI:
  fixes v w :: u8
  assumes "bit v 0 = bit w 0" "bit v 1 = bit w 1" "bit v 2 = bit w 2" "bit v 3 = bit w 3"
    "bit v 4 = bit w 4" "bit v 5 = bit w 5" "bit v 6 = bit w 6" "bit v 7 = bit w 7"
  shows "v = w"
proof (rule word_bits_eqI)
  fix n assume "n < LENGTH(8)"
  then have "n < 8" by simp
  then have "n = 0 \<or> n = 1 \<or> n = 2 \<or> n = 3 \<or> n = 4 \<or> n = 5 \<or> n = 6 \<or> n = 7" by arith
  with assms show "bit v n = bit w n" by auto
qed

lemma bit_u8_ge [simp]: "8 \<le> n \<Longrightarrow> \<not> bit (b :: u8) n"
proof
  assume "8 \<le> n" "bit b n"
  then show False using bit_imp_le_length [of b n] by simp
qed

lemma unat_shr: "unat (drop_bit n w) = unat w div 2 ^ n"
  unfolding unat_drop_bit_eq by (rule drop_bit_eq_div)

lemma unat_low_bits: "unat (take_bit n w) = unat w mod 2 ^ n"
  unfolding unsigned_take_bit_eq by (rule take_bit_eq_mod)

lemma uint_shr: "uint (drop_bit n w) = uint w div 2 ^ n"
  by (simp only: uint_nat unat_shr zdiv_int of_nat_power of_nat_numeral)

lemma uint_low_bits: "uint (take_bit n w) = uint w mod 2 ^ n"
  unfolding unsigned_take_bit_eq by (rule take_bit_eq_mod)

lemma bit_le_unat:
  fixes a :: "'a::len word"
  assumes "bit a n"
  shows "2 ^ n \<le> unat a"
proof -
  have "odd (unat a div 2 ^ n)"
    using assms bit_imp_le_length [OF assms] by (simp add: bit_unsigned_iff flip: bit_iff_odd)
  then have "unat a div 2 ^ n \<noteq> 0" by (auto intro: ccontr)
  then show ?thesis by (auto simp: div_eq_0_iff)
qed

lemma not_bit_unat_less:
  fixes a :: "'a::len word"
  assumes "unat a < 2 ^ Suc n" and "\<not> bit a n"
  shows "unat a < 2 ^ n"
proof (rule ccontr)
  assume "\<not> unat a < 2 ^ n"
  then have "unat a div 2 ^ n = 1" using assms(1) by (simp add: div_nat_eqI)
  then have "bit (unat a) n" by (simp add: bit_iff_odd)
  moreover have "n < LENGTH('a)"
    using \<open>\<not> unat a < 2 ^ n\<close> unsigned_less [of a]
    by (meson linorder_not_less order_less_le_trans power_increasing one_le_numeral)
  ultimately show False using assms(2) by (simp add: bit_unsigned_iff)
qed

end
