(* ===== verification/Cutils_Bits.thy ===== *)
theory Cutils_Bits
  imports Prelude
begin

text \<open>
  The inline helpers of \<^verbatim>\<open>cutils.h\<close>: minimum and maximum, leading and trailing zero
  counts, unaligned little-endian loads and stores, byte swapping, UTF-16 surrogates
  and hexadecimal digits. A byte pointer is the list of the bytes it may access;
  a load or store that needs more bytes than that is a fault.
\<close>

section \<open>Minimum and maximum\<close>

definition max_int :: "int \<Rightarrow> int \<Rightarrow> int" where
  "max_int a b = (if a > b then a else b)"

definition min_int :: "int \<Rightarrow> int \<Rightarrow> int" where
  "min_int a b = (if a < b then a else b)"

definition max_uint32 :: "u32 \<Rightarrow> u32 \<Rightarrow> u32" where
  "max_uint32 a b = (if a > b then a else b)"

definition min_uint32 :: "u32 \<Rightarrow> u32 \<Rightarrow> u32" where
  "min_uint32 a b = (if a < b then a else b)"

definition max_int64 :: "int \<Rightarrow> int \<Rightarrow> int" where
  "max_int64 a b = (if a > b then a else b)"

definition min_int64 :: "int \<Rightarrow> int \<Rightarrow> int" where
  "min_int64 a b = (if a < b then a else b)"

lemma max_int_eq [simp]: "max_int a b = max a b"
  by (simp add: max_int_def max_def)

lemma min_int_eq [simp]: "min_int a b = min a b"
  by (simp add: min_int_def min_def)

section \<open>Zero counts\<close>

text \<open>
  \<open>__builtin_clz\<close> and \<open>__builtin_ctz\<close>: the number of zero bits above the most, below the
  least significant one bit. Both are undefined at 0; the model then returns the width.
\<close>

fun clz_below :: "nat \<Rightarrow> 'a::len word \<Rightarrow> nat" where
  "clz_below 0 a = 0"
| "clz_below (Suc n) a = (if bit a n then 0 else Suc (clz_below n a))"

fun ctz_from :: "nat \<Rightarrow> nat \<Rightarrow> 'a::len word \<Rightarrow> nat" where
  "ctz_from 0 k a = 0"
| "ctz_from (Suc n) k a = (if bit a k then 0 else Suc (ctz_from n (Suc k) a))"

definition clz32 :: "u32 \<Rightarrow> nat" where
  "clz32 a = clz_below 32 a"

definition clz64 :: "u64 \<Rightarrow> nat" where
  "clz64 a = clz_below 64 a"

definition ctz32 :: "u32 \<Rightarrow> nat" where
  "ctz32 a = ctz_from 32 0 a"

definition ctz64 :: "u64 \<Rightarrow> nat" where
  "ctz64 a = ctz_from 64 0 a"

section \<open>Little-endian loads and stores\<close>

definition u16_bytes :: "u16 \<Rightarrow> u8 list" where
  "u16_bytes v = [ucast v, ucast (drop_bit 8 v)]"

definition u32_bytes :: "u32 \<Rightarrow> u8 list" where
  "u32_bytes v = [ucast v, ucast (drop_bit 8 v), ucast (drop_bit 16 v), ucast (drop_bit 24 v)]"

definition u64_bytes :: "u64 \<Rightarrow> u8 list" where
  "u64_bytes v =
     [ucast v, ucast (drop_bit 8 v), ucast (drop_bit 16 v), ucast (drop_bit 24 v),
      ucast (drop_bit 32 v), ucast (drop_bit 40 v), ucast (drop_bit 48 v), ucast (drop_bit 56 v)]"

fun le_word :: "u8 list \<Rightarrow> 'a::len word" where
  "le_word [] = 0"
| "le_word (b # bs) = ucast b OR push_bit 8 (le_word bs)"

definition get_u64 :: "u8 list \<Rightarrow> u64 cres" where
  "get_u64 tab = (if length tab < 8 then Inl OutOfBounds else Inr (le_word (take 8 tab)))"

definition get_i64 :: "u8 list \<Rightarrow> int cres" where
  "get_i64 tab = cbind (get_u64 tab) (\<lambda>v. Inr (sint v))"

definition put_u64 :: "u8 list \<Rightarrow> u64 \<Rightarrow> u8 list cres" where
  "put_u64 tab val =
     (if length tab < 8 then Inl OutOfBounds else Inr (u64_bytes val @ drop 8 tab))"

definition get_u32 :: "u8 list \<Rightarrow> u32 cres" where
  "get_u32 tab = (if length tab < 4 then Inl OutOfBounds else Inr (le_word (take 4 tab)))"

definition get_i32 :: "u8 list \<Rightarrow> int cres" where
  "get_i32 tab = cbind (get_u32 tab) (\<lambda>v. Inr (sint v))"

definition put_u32 :: "u8 list \<Rightarrow> u32 \<Rightarrow> u8 list cres" where
  "put_u32 tab val =
     (if length tab < 4 then Inl OutOfBounds else Inr (u32_bytes val @ drop 4 tab))"

definition get_u16 :: "u8 list \<Rightarrow> u32 cres" where
  "get_u16 tab =
     (if length tab < 2 then Inl OutOfBounds else Inr (ucast (le_word (take 2 tab) :: u16)))"

definition get_i16 :: "u8 list \<Rightarrow> int cres" where
  "get_i16 tab =
     (if length tab < 2 then Inl OutOfBounds else Inr (sint (le_word (take 2 tab) :: u16)))"

definition put_u16 :: "u8 list \<Rightarrow> u16 \<Rightarrow> u8 list cres" where
  "put_u16 tab val =
     (if length tab < 2 then Inl OutOfBounds else Inr (u16_bytes val @ drop 2 tab))"

definition get_u8 :: "u8 list \<Rightarrow> u32 cres" where
  "get_u8 tab = cbind (rd tab 0) (\<lambda>b. Inr (ucast b))"

definition get_i8 :: "u8 list \<Rightarrow> int cres" where
  "get_i8 tab = cbind (rd tab 0) (\<lambda>b. Inr (sint b))"

definition put_u8 :: "u8 list \<Rightarrow> u8 \<Rightarrow> u8 list cres" where
  "put_u8 tab val = wr tab 0 val"

section \<open>Byte swapping\<close>

definition bswap16 :: "u16 \<Rightarrow> u16" where
  "bswap16 x = drop_bit 8 x OR push_bit 8 x"

definition bswap32 :: "u32 \<Rightarrow> u32" where
  "bswap32 v =
     drop_bit 24 (v AND 0xff000000) OR drop_bit 8 (v AND 0x00ff0000) OR
     push_bit 8 (v AND 0x0000ff00) OR push_bit 24 (v AND 0x000000ff)"

definition bswap64 :: "u64 \<Rightarrow> u64" where
  "bswap64 v =
     drop_bit (7 * 8) (v AND push_bit (7 * 8) 0xff) OR
     drop_bit (5 * 8) (v AND push_bit (6 * 8) 0xff) OR
     drop_bit (3 * 8) (v AND push_bit (5 * 8) 0xff) OR
     drop_bit (1 * 8) (v AND push_bit (4 * 8) 0xff) OR
     push_bit (1 * 8) (v AND push_bit (3 * 8) 0xff) OR
     push_bit (3 * 8) (v AND push_bit (2 * 8) 0xff) OR
     push_bit (5 * 8) (v AND push_bit (1 * 8) 0xff) OR
     push_bit (7 * 8) (v AND push_bit (0 * 8) 0xff)"

section \<open>Surrogates and hexadecimal digits\<close>

definition is_surrogate :: "u32 \<Rightarrow> bool" where
  "is_surrogate c \<longleftrightarrow> drop_bit 11 c = drop_bit 11 0xD800"

definition is_hi_surrogate :: "u32 \<Rightarrow> bool" where
  "is_hi_surrogate c \<longleftrightarrow> drop_bit 10 c = drop_bit 10 0xD800"

definition is_lo_surrogate :: "u32 \<Rightarrow> bool" where
  "is_lo_surrogate c \<longleftrightarrow> drop_bit 10 c = drop_bit 10 0xDC00"

definition get_hi_surrogate :: "u32 \<Rightarrow> u32" where
  "get_hi_surrogate c = drop_bit 10 c - drop_bit 10 0x10000 + 0xD800"

definition get_lo_surrogate :: "u32 \<Rightarrow> u32" where
  "get_lo_surrogate c = (c AND 0x3FF) OR 0xDC00"

definition from_surrogate :: "u32 \<Rightarrow> u32 \<Rightarrow> u32" where
  "from_surrogate hi lo = 0x10000 + 0x400 * (hi - 0xD800) + (lo - 0xDC00)"

definition from_hex :: "int \<Rightarrow> int" where
  "from_hex c =
     (if c \<ge> 0x30 \<and> c \<le> 0x39 then c - 0x30
      else if c \<ge> 0x41 \<and> c \<le> 0x46 then c - 0x41 + 10
      else if c \<ge> 0x61 \<and> c \<le> 0x66 then c - 0x61 + 10
      else -1)"

section \<open>Facts\<close>

lemma bit_le_word: "bit (le_word bs :: 'a::len word) n \<longleftrightarrow> n < LENGTH('a) \<and> n div 8 < length bs \<and> bit (bs ! (n div 8)) (n mod 8)"
proof (induction bs arbitrary: n)
  case Nil
  then show ?case by simp
next
  case (Cons b bs)
  show ?case
  proof (cases "n < 8")
    case True
    then show ?thesis by (auto simp: bit_simps)
  next
    case False
    then obtain m where m: "n = m + 8" by (metis add.commute le_Suc_ex linorder_not_less)
    then have "n div 8 = Suc (m div 8)" by simp
    with m show ?thesis by (auto simp: bit_simps Cons.IH)
  qed
qed

lemma le_word_split:
  fixes v :: "'a::len word"
  assumes "LENGTH('a) \<le> 8 * k"
  shows "le_word (map (\<lambda>i. ucast (drop_bit (8 * i) v) :: u8) [0..<k]) = v"
proof (rule word_bits_eqI)
  fix n assume n: "n < LENGTH('a)"
  then have "n div 8 < k" using assms by auto
  moreover have "8 * (n div 8) + n mod 8 = n" by simp
  ultimately show "bit (le_word (map (\<lambda>i. ucast (drop_bit (8 * i) v) :: u8) [0..<k]) :: 'a word) n = bit v n"
    using n by (simp add: bit_le_word bit_simps)
qed

lemma u16_bytes_map: "u16_bytes v = map (\<lambda>i. ucast (drop_bit (8 * i) v)) [0..<2]"
  by (simp add: u16_bytes_def upt_conv_Cons)

lemma u32_bytes_map: "u32_bytes v = map (\<lambda>i. ucast (drop_bit (8 * i) v)) [0..<4]"
  by (simp add: u32_bytes_def upt_conv_Cons)

lemma u64_bytes_map: "u64_bytes v = map (\<lambda>i. ucast (drop_bit (8 * i) v)) [0..<8]"
  by (simp add: u64_bytes_def upt_conv_Cons)

lemma le_word_u16_bytes [simp]: "le_word (u16_bytes v) = v"
  unfolding u16_bytes_map by (rule le_word_split) simp

lemma le_word_u32_bytes [simp]: "le_word (u32_bytes v) = v"
  unfolding u32_bytes_map by (rule le_word_split) simp

lemma le_word_u64_bytes [simp]: "le_word (u64_bytes v) = v"
  unfolding u64_bytes_map by (rule le_word_split) simp

lemma bswap16_bytes: "u16_bytes (bswap16 v) = rev (u16_bytes v)"
  unfolding u16_bytes_def bswap16_def
  by (simp, intro conjI; rule u8_eqI; simp add: bit_simps)

lemma bswap32_bytes: "u32_bytes (bswap32 v) = rev (u32_bytes v)"
  unfolding u32_bytes_def bswap32_def
  by (simp, intro conjI; rule u8_eqI; simp add: bit_simps)

lemma bswap64_bytes: "u64_bytes (bswap64 v) = rev (u64_bytes v)"
  unfolding u64_bytes_def bswap64_def
  by (simp, intro conjI; rule u8_eqI; simp add: bit_simps)

lemma clz_below_bounds:
  fixes a :: "'a::len word"
  assumes "unat a < 2 ^ n" and "a \<noteq> 0"
  shows "clz_below n a < n \<and> 2 ^ (n - 1 - clz_below n a) \<le> unat a \<and> unat a < 2 ^ (n - clz_below n a)"
  using assms
proof (induction n)
  case 0
  then show ?case by (simp add: unat_eq_0)
next
  case (Suc n)
  show ?case
  proof (cases "bit a n")
    case True
    then show ?thesis using Suc.prems bit_le_unat [OF True] by simp
  next
    case False
    then have "unat a < 2 ^ n" using Suc.prems(1) not_bit_unat_less by blast
    with Suc False show ?thesis by simp
  qed
qed

lemma ctz_from_bounds:
  fixes a :: "'a::len word"
  assumes "\<exists>i. k \<le> i \<and> i < k + n \<and> bit a i"
  shows "ctz_from n k a < n \<and> bit a (k + ctz_from n k a) \<and> (\<forall>i. k \<le> i \<and> i < k + ctz_from n k a \<longrightarrow> \<not> bit a i)"
  using assms
proof (induction n arbitrary: k)
  case 0
  then show ?case by auto
next
  case (Suc n)
  show ?case
  proof (cases "bit a k")
    case True
    then show ?thesis by auto
  next
    case False
    then have "\<exists>i. Suc k \<le> i \<and> i < Suc k + n \<and> bit a i"
      using Suc.prems by (metis Suc_leI add_Suc_right add_Suc_shift le_neq_implies_less)
    from Suc.IH [OF this] False show ?thesis
      by (auto simp: Suc_le_eq) (metis le_neq_implies_less)
  qed
qed

lemma is_hi_surrogate_iff: "is_hi_surrogate c \<longleftrightarrow> 0xD800 \<le> c \<and> c \<le> 0xDBFF"
  by (simp add: is_hi_surrogate_def word_le_nat_alt word_unat_eq_iff unat_shr) arith

lemma is_lo_surrogate_iff: "is_lo_surrogate c \<longleftrightarrow> 0xDC00 \<le> c \<and> c \<le> 0xDFFF"
  by (simp add: is_lo_surrogate_def word_le_nat_alt word_unat_eq_iff unat_shr) arith

lemma is_surrogate_iff: "is_surrogate c \<longleftrightarrow> 0xD800 \<le> c \<and> c \<le> 0xDFFF"
  by (simp add: is_surrogate_def word_le_nat_alt word_unat_eq_iff unat_shr) arith

lemma get_lo_surrogate_plus: "get_lo_surrogate c = take_bit 10 c + 0xDC00"
proof -
  have "c AND 0x3FF = take_bit 10 c" by (simp add: take_bit_eq_mask mask_eq_exp_minus_1)
  moreover have "take_bit 10 c AND 0xDC00 = 0"
    by (simp add: take_bit_eq_mask mask_eq_exp_minus_1 and.assoc)
  ultimately show ?thesis by (simp add: get_lo_surrogate_def disjunctive_add_eq_or)
qed

lemma unat_surrogates:
  assumes "0x10000 \<le> c" "c \<le> 0x10FFFF"
  shows "unat (get_hi_surrogate c) = unat c div 1024 - 64 + 0xD800"
    "unat (get_lo_surrogate c) = unat c mod 1024 + 0xDC00"
proof -
  have c: "0x10000 \<le> unat c" "unat c \<le> 0x10FFFF" using assms by (simp_all add: word_le_nat_alt)
  have d: "unat (drop_bit 10 c) = unat c div 1024" by (simp add: unat_shr)
  have "unat (drop_bit 10 c - 64) = unat c div 1024 - 64"
    using c by (subst unat_sub) (simp_all add: word_le_nat_alt d)
  then show "unat (get_hi_surrogate c) = unat c div 1024 - 64 + 0xD800"
    using c by (simp add: get_hi_surrogate_def unat_word_ariths d)
  have "unat (take_bit 10 c) = unat c mod 1024" by (simp add: unat_low_bits)
  then show "unat (get_lo_surrogate c) = unat c mod 1024 + 0xDC00"
   by (simp add: get_lo_surrogate_plus unat_word_ariths)
qed

lemma unat_from_surrogate:
  assumes "is_hi_surrogate h" "is_lo_surrogate l"
  shows "unat (from_surrogate h l) = 0x10000 + 0x400 * (unat h - 0xD800) + (unat l - 0xDC00)"
proof -
  have h: "0xD800 \<le> unat h" "unat h \<le> 0xDBFF" and l: "0xDC00 \<le> unat l" "unat l \<le> 0xDFFF"
    using assms by (simp_all add: is_hi_surrogate_iff is_lo_surrogate_iff word_le_nat_alt)
  then have d: "unat (h - 0xD800) = unat h - 0xD800" "unat (l - 0xDC00) = unat l - 0xDC00"
    by (simp_all add: unat_sub word_le_nat_alt)
  show ?thesis using h l unfolding from_surrogate_def unat_word_ariths d by simp
qed

lemma surrogate_roundtrip:
  assumes "0x10000 \<le> c" "c \<le> 0x10FFFF"
  shows "is_hi_surrogate (get_hi_surrogate c)" "is_lo_surrogate (get_lo_surrogate c)"
    "from_surrogate (get_hi_surrogate c) (get_lo_surrogate c) = c"
proof -
  have c: "0x10000 \<le> unat c" "unat c \<le> 0x10FFFF" using assms by (simp_all add: word_le_nat_alt)
  show h: "is_hi_surrogate (get_hi_surrogate c)"
    using c by (simp add: is_hi_surrogate_iff word_le_nat_alt unat_surrogates(1) [OF assms]) arith
  show l: "is_lo_surrogate (get_lo_surrogate c)"
    using c by (simp add: is_lo_surrogate_iff word_le_nat_alt unat_surrogates(2) [OF assms])
  have "64 \<le> unat c div 1024" using c(1) by arith
  moreover have "1024 * (unat c div 1024) + unat c mod 1024 = unat c" by simp
  ultimately have "0x10000 + 0x400 * (unat c div 1024 - 64) + unat c mod 1024 = unat c" by linarith
  then show "from_surrogate (get_hi_surrogate c) (get_lo_surrogate c) = c"
    by (simp add: word_unat_eq_iff unat_from_surrogate [OF h l] unat_surrogates [OF assms])
qed

end
