(* ===== verification/Cutils_Str.thy ===== *)
theory Cutils_Str
  imports Prelude "HOL-Library.Sublist"
begin

text \<open>
  The C string helpers of \<^verbatim>\<open>cutils.c\<close>. A \<open>char *\<close> is the list of the bytes from the
  pointer to the end of its object; a string is a list that holds a zero byte, and a scan
  that runs off the list is a fault. \<open>pstrcpy\<close> and \<open>pstrcat\<close> return the new contents of
  the destination.
\<close>

section \<open>Definitions\<close>

fun c_strlen :: "u8 list \<Rightarrow> nat cres" where
  "c_strlen [] = Inl OutOfBounds"
| "c_strlen (c # cs) = (if c = 0 then Inr 0 else cbind (c_strlen cs) (\<lambda>n. Inr (Suc n)))"

fun pstrcpy_loop :: "u8 list \<Rightarrow> nat \<Rightarrow> int \<Rightarrow> u8 list \<Rightarrow> u8 list cres" where
  "pstrcpy_loop buf q buf_size [] = Inl OutOfBounds"
| "pstrcpy_loop buf q buf_size (c # str) =
     (if c = 0 \<or> int q \<ge> buf_size - 1 then wr buf q 0
      else cbind (wr buf q c) (\<lambda>buf'. pstrcpy_loop buf' (Suc q) buf_size str))"

definition pstrcpy :: "u8 list \<Rightarrow> int \<Rightarrow> u8 list \<Rightarrow> u8 list cres" where
  "pstrcpy buf buf_size str =
     (if buf_size \<le> 0 then Inr buf else pstrcpy_loop buf 0 buf_size str)"

definition pstrcat :: "u8 list \<Rightarrow> int \<Rightarrow> u8 list \<Rightarrow> u8 list cres" where
  "pstrcat buf buf_size s =
     cbind (c_strlen buf) (\<lambda>len.
       if int len < buf_size
       then cbind (pstrcpy (drop len buf) (buf_size - int len) s) (\<lambda>b. Inr (take len buf @ b))
       else Inr buf)"

text \<open>\<open>strstart\<close> returns 0 as \<open>None\<close> and 1 as \<open>Some\<close> of the bytes at \<open>*ptr\<close>.\<close>

fun strstart :: "u8 list \<Rightarrow> u8 list \<Rightarrow> u8 list option cres" where
  "strstart p [] = Inl OutOfBounds"
| "strstart p (q # val) =
     (if q = 0 then Inr (Some p)
      else case p of
        [] \<Rightarrow> Inl OutOfBounds
      | c # p' \<Rightarrow> if c \<noteq> q then Inr None else strstart p' val)"

definition has_suffix :: "u8 list \<Rightarrow> u8 list \<Rightarrow> bool cres" where
  "has_suffix str sfx =
     cbind (c_strlen str) (\<lambda>len. cbind (c_strlen sfx) (\<lambda>slen.
       if len \<ge> slen
       then cbind (rd_block str (len - slen) slen) (\<lambda>a.
              cbind (rd_block sfx 0 slen) (\<lambda>b. Inr (a = b)))
       else Inr False))"

section \<open>Strings\<close>

text \<open>\<open>c_string s m\<close>: the memory \<open>m\<close> starts with the string \<open>s\<close> and its terminator.\<close>

definition c_string :: "u8 list \<Rightarrow> u8 list \<Rightarrow> bool" where
  "c_string s m \<longleftrightarrow> 0 \<notin> set s \<and> (\<exists>r. m = s @ 0 # r)"

lemma c_strlen_append [simp]: "0 \<notin> set s \<Longrightarrow> c_strlen (s @ 0 # r) = Inr (length s)"
  by (induction s) auto

lemma c_strlen_string: "c_string s m \<Longrightarrow> c_strlen m = Inr (length s)"
  by (auto simp: c_string_def)

lemma pstrcpy_loop_append:
  assumes "0 \<notin> set s" and "int q < n" and "n \<le> int (length buf)"
  shows "pstrcpy_loop buf q n (s @ 0 # r) =
    (let t = take (nat (n - 1) - q) s
     in Inr (take q buf @ t @ 0 # drop (Suc (q + length t)) buf))"
  using assms
proof (induction s arbitrary: buf q)
  case Nil
  then show ?case by (simp add: upd_conv_take_nth_drop)
next
  case (Cons c s)
  show ?case
  proof (cases "int q \<ge> n - 1")
    case True
    then show ?thesis using Cons.prems by (auto simp: upd_conv_take_nth_drop)
  next
    case False
    then have q: "q < length buf" and k: "nat (n - 1) - q = Suc (nat (n - 1) - Suc q)"
      using Cons.prems by auto
    have "pstrcpy_loop buf q n ((c # s) @ 0 # r) = pstrcpy_loop (buf[q := c]) (Suc q) n (s @ 0 # r)"
      using False Cons.prems q by simp
    also have "\<dots> = (let t = take (nat (n - 1) - Suc q) s
       in Inr (take (Suc q) (buf[q := c]) @ t @ 0 # drop (Suc (Suc q + length t)) (buf[q := c])))"
      using Cons.prems False by (intro Cons.IH) auto
    finally show ?thesis
      using q k by (simp add: Let_def take_Suc_conv_app_nth)
  qed
qed

lemma pstrcpy_string:
  assumes "c_string s m" and "0 < n" and "n \<le> int (length buf)"
  shows "pstrcpy buf n m =
    Inr (take (nat n - 1) s @ 0 # drop (Suc (length (take (nat n - 1) s))) buf)"
  using assms pstrcpy_loop_append [of s 0 n buf]
  by (auto simp: pstrcpy_def c_string_def Let_def nat_diff_distrib)

lemma strstart_append:
  "0 \<notin> set v \<Longrightarrow> 0 \<notin> set s \<Longrightarrow>
   strstart (s @ 0 # r) (v @ 0 # r') =
     Inr (if take (length v) s = v then Some (drop (length v) s @ 0 # r) else None)"
proof (induction v arbitrary: s)
  case Nil
  then show ?case by simp
next
  case (Cons q v)
  then show ?case by (cases s) auto
qed

lemma drop_patch:
  assumes "length d + length t < N"
  shows "drop N (d @ t @ x # drop (Suc (length t)) (drop (length d) xs)) = drop N xs"
proof -
  obtain j where N: "N = length d + (length t + Suc j)"
    using less_imp_Suc_add [OF assms] by (auto simp: add.assoc)
  show ?thesis unfolding N by (simp add: ac_simps)
qed

section \<open>Properties\<close>

text \<open>
  C8. Appending a string with \<open>pstrcat\<close> to a destination of \<open>n\<close> bytes never faults, keeps
  the destination a terminated string that holds as many bytes of the concatenation as fit
  beside the terminator, and leaves every byte from \<open>n\<close> on alone.
\<close>

theorem pstrcat_truncates:
  assumes d: "c_string d buf" and s: "c_string s m"
    and n: "int (length d) < n" "n \<le> int (length buf)"
  shows "\<exists>buf'. pstrcat buf n m = Inr buf' \<and> length buf' = length buf \<and>
    c_string (take (nat n - 1) (d @ s)) buf' \<and> drop (nat n) buf' = drop (nat n) buf"
proof -
  let ?t = "take (nat (n - int (length d)) - 1) s"
  let ?b = "drop (length d) buf"
  let ?buf' = "d @ ?t @ 0 # drop (Suc (length ?t)) ?b"
  from d obtain r where buf: "buf = d @ 0 # r" and d0: "0 \<notin> set d"
    by (auto simp: c_string_def)
  have "pstrcpy ?b (n - int (length d)) m = Inr (?t @ 0 # drop (Suc (length ?t)) ?b)"
    using s n by (intro pstrcpy_string) auto
  then have "pstrcat buf n m = Inr ?buf'"
    using n d by (simp add: pstrcat_def c_strlen_string buf)
  moreover have t: "length ?t < nat n - length d" using n by (auto simp: min_def)
  have "length ?buf' = length buf" using n t by auto
  moreover have "take (nat n - 1) (d @ s) = d @ ?t"
  proof -
    have "nat n - 1 - length d = nat (n - int (length d)) - 1" using n by linarith
    moreover have "take (nat n - 1) d = d" using n by simp
    ultimately show ?thesis by simp
  qed
  then have "c_string (take (nat n - 1) (d @ s)) ?buf'"
    using d0 s by (auto simp: c_string_def dest: in_set_takeD)
  moreover have "drop (nat n) ?buf' = drop (nat n) buf"
    using t by (intro drop_patch) linarith
  ultimately show ?thesis by blast
qed

theorem pstrcat_truncates_witness:
  "\<exists>buf'. pstrcat [1, 0, 9, 9] 3 [5, 6, 7, 0] = Inr buf' \<and> length buf' = length [1, 0, 9, 9 :: u8] \<and>
    c_string (take (nat 3 - 1) ([1] @ [5, 6, 7])) buf' \<and> drop (nat 3) buf' = drop (nat 3) [1, 0, 9, 9]"
  by (rule pstrcat_truncates) (auto simp: c_string_def)

text \<open>
  C9. \<open>strstart\<close> accepts exactly when the second string is a prefix of the first, and then
  leaves the pointer at the rest; \<open>has_suffix\<close> accepts exactly when it is a suffix. Neither
  reads outside the two strings.
\<close>

theorem strstart_has_suffix_iff:
  assumes s: "c_string s m" and v: "c_string v m'"
  shows "strstart m m' = Inr (if prefix v s then Some (drop (length v) m) else None) \<and>
         has_suffix m m' = Inr (suffix v s)"
proof
  from s v obtain r r' where m: "m = s @ 0 # r" "m' = v @ 0 # r'" and 0: "0 \<notin> set s" "0 \<notin> set v"
    by (auto simp: c_string_def)
  have "take (length v) s = v \<longleftrightarrow> prefix v s"
    by (metis append_eq_conv_conj append_take_drop_id prefix_def)
  moreover have "prefix v s \<Longrightarrow> length v \<le> length s" by (rule prefix_length_le)
  ultimately show "strstart m m' = Inr (if prefix v s then Some (drop (length v) m) else None)"
    using strstart_append [OF 0(2) 0(1)] by (auto simp: m)
  have "length v \<le> length s \<and> drop (length s - length v) s = v \<longleftrightarrow> suffix v s"
    by (metis append_take_drop_id diff_diff_cancel length_drop suffixI suffix_length_le suffix_take
        append_same_eq suffix_def append_eq_append_conv)
  then show "has_suffix m m' = Inr (suffix v s)"
    using 0 by (auto simp: has_suffix_def m)
qed

theorem strstart_has_suffix_iff_witness:
  "strstart [1, 2, 3, 0] [1, 0] = Inr (if prefix [1] [1, 2, 3 :: u8] then Some (drop (length [1 :: u8]) [1, 2, 3, 0]) else None) \<and>
   has_suffix [1, 2, 3, 0] [1, 0] = Inr (suffix [1] [1, 2, 3 :: u8])"
  by (rule strstart_has_suffix_iff) (auto simp: c_string_def)

end
