(* ===== verification/Dynbuf.thy ===== *)
theory Dynbuf
  imports Cutils_Bits Cutils_Str
begin

text \<open>
  The dynamic buffer of \<^verbatim>\<open>cutils.c\<close>. A \<open>dynbuf\<close> holds the allocated block (its length is the
  real size of the block, the empty list is \<open>NULL\<close>), the fields of the C structure and the
  reallocation callback (the fields carry the prefix \<open>db_\<close>). Every operation that touches the block goes through a checked access, so
  an \<open>Inr\<close> result means that no byte outside the block is read or written.

  The callback is a function of the old block and the requested size. One buffer never asks
  twice with the same old block size, so such a function covers allocators that fail at any
  chosen call of the life of a buffer. \<open>None\<close> for \<open>realloc_func\<close> is the null pointer left by
  \<open>dbuf_free\<close>.
\<close>

section \<open>Definitions\<close>

type_synonym realloc_fn = "u8 list \<Rightarrow> nat \<Rightarrow> u8 list option"

record dynbuf =
  db_buf :: "u8 list"
  db_size :: nat
  db_allocated_size :: nat
  db_error :: bool
  db_realloc_func :: "realloc_fn option"

text \<open>
  \<open>realloc\<close> of the C library with at most \<open>limit\<close> bytes available for a block; the bytes past the
  old contents hold \<open>fill\<close>. A request for 0 bytes frees the block.
\<close>

definition libc_realloc :: "nat \<Rightarrow> u8 \<Rightarrow> realloc_fn" where
  "libc_realloc limit fill ptr n =
     (if n = 0 \<or> n > min limit (2 ^ 63 - 1) then None
      else Some (take n ptr @ replicate (n - length ptr) fill))"

definition dbuf_default_realloc :: "nat \<Rightarrow> u8 \<Rightarrow> realloc_fn" where
  "dbuf_default_realloc limit fill ptr n = libc_realloc limit fill ptr n"

definition dbuf_zero :: dynbuf where
  "dbuf_zero = \<lparr>db_buf = [], db_size = 0, db_allocated_size = 0, db_error = False, db_realloc_func = None\<rparr>"

definition dbuf_init2 :: "nat \<Rightarrow> u8 \<Rightarrow> realloc_fn option \<Rightarrow> dynbuf" where
  "dbuf_init2 limit fill f =
     dbuf_zero\<lparr>db_realloc_func :=
       (case f of None \<Rightarrow> Some (dbuf_default_realloc limit fill) | Some g \<Rightarrow> Some g)\<rparr>"

definition dbuf_init :: "nat \<Rightarrow> u8 \<Rightarrow> dynbuf" where
  "dbuf_init limit fill = dbuf_init2 limit fill None"

definition dbuf_realloc :: "dynbuf \<Rightarrow> nat \<Rightarrow> (dynbuf \<times> int) cres" where
  "dbuf_realloc s new_size =
     (if new_size > db_allocated_size s then
        if db_error s then Inr (s, -1)
        else
          let n = sz_mul (db_allocated_size s) 3 div 2;
              new_size = (if n > new_size then n else new_size)
          in case db_realloc_func s of
               None \<Rightarrow> Inl NullDeref
             | Some f \<Rightarrow>
                 (case f (db_buf s) new_size of
                    None \<Rightarrow> Inr (s\<lparr>db_error := True\<rparr>, -1)
                  | Some new_buf \<Rightarrow> Inr (s\<lparr>db_buf := new_buf, db_allocated_size := new_size\<rparr>, 0))
      else Inr (s, 0))"

definition dbuf_write :: "dynbuf \<Rightarrow> nat \<Rightarrow> u8 list \<Rightarrow> (dynbuf \<times> int) cres" where
  "dbuf_write s offset data =
     (let e = sz_add offset (length data) in
      cbind (dbuf_realloc s e) (\<lambda>(s, r).
        if r \<noteq> 0 then Inr (s, -1)
        else cbind (wr_block (db_buf s) offset data) (\<lambda>b.
          let s = s\<lparr>db_buf := b\<rparr>
          in Inr (if e > db_size s then s\<lparr>db_size := e\<rparr> else s, 0))))"

text \<open>The growth step that \<open>dbuf_put\<close> and \<open>dbuf_put_self\<close> open with.\<close>

definition dbuf_grow :: "dynbuf \<Rightarrow> nat \<Rightarrow> (dynbuf \<times> int) cres" where
  "dbuf_grow s len =
     (if sz_add (db_size s) len > db_allocated_size s then dbuf_realloc s (sz_add (db_size s) len)
      else Inr (s, 0))"

definition dbuf_put :: "dynbuf \<Rightarrow> u8 list \<Rightarrow> (dynbuf \<times> int) cres" where
  "dbuf_put s data =
     cbind (dbuf_grow s (length data)) (\<lambda>(s, r).
       if r \<noteq> 0 then Inr (s, -1)
       else cbind (wr_block (db_buf s) (db_size s) data) (\<lambda>b.
         Inr (s\<lparr>db_buf := b, db_size := sz_add (db_size s) (length data)\<rparr>, 0)))"

definition dbuf_put_self :: "dynbuf \<Rightarrow> nat \<Rightarrow> nat \<Rightarrow> (dynbuf \<times> int) cres" where
  "dbuf_put_self s offset len =
     cbind (dbuf_grow s len) (\<lambda>(s, r).
       if r \<noteq> 0 then Inr (s, -1)
       else cbind (rd_block (db_buf s) offset len) (\<lambda>data.
         if offset < db_size s + len \<and> db_size s < offset + len then Inl OverlappingCopy
         else cbind (wr_block (db_buf s) (db_size s) data) (\<lambda>b.
           Inr (s\<lparr>db_buf := b, db_size := sz_add (db_size s) len\<rparr>, 0))))"

definition dbuf_putc :: "dynbuf \<Rightarrow> u8 \<Rightarrow> (dynbuf \<times> int) cres" where
  "dbuf_putc s c = dbuf_put s [c]"

definition dbuf_putstr :: "dynbuf \<Rightarrow> u8 list \<Rightarrow> (dynbuf \<times> int) cres" where
  "dbuf_putstr s str = cbind (c_strlen str) (\<lambda>n. dbuf_put s (take n str))"

definition dbuf_put_u16 :: "dynbuf \<Rightarrow> u16 \<Rightarrow> (dynbuf \<times> int) cres" where
  "dbuf_put_u16 s val = dbuf_put s (u16_bytes val)"

definition dbuf_put_u32 :: "dynbuf \<Rightarrow> u32 \<Rightarrow> (dynbuf \<times> int) cres" where
  "dbuf_put_u32 s val = dbuf_put s (u32_bytes val)"

definition dbuf_put_u64 :: "dynbuf \<Rightarrow> u64 \<Rightarrow> (dynbuf \<times> int) cres" where
  "dbuf_put_u64 s val = dbuf_put s (u64_bytes val)"

text \<open>
  \<open>vsnprintf\<close> into the block at \<open>off\<close> with room for \<open>n\<close> bytes, where \<open>out\<close> is the complete
  formatted text: as much of it as fits, then a terminator.
\<close>

definition vsnprintf_at :: "u8 list \<Rightarrow> nat \<Rightarrow> nat \<Rightarrow> u8 list \<Rightarrow> u8 list cres" where
  "vsnprintf_at b off n out = (if n = 0 then Inr b else wr_block b off (take (n - 1) out @ [0]))"

definition dbuf_printf :: "dynbuf \<Rightarrow> u8 list \<Rightarrow> (dynbuf \<times> int) cres" where
  "dbuf_printf s out =
     cbind (vsnprintf_at (replicate 128 0) 0 128 out) (\<lambda>tmp.
       if length out < 128 then dbuf_put s (take (length out) tmp)
       else cbind (dbuf_realloc s (sz_add (sz_add (db_size s) (length out)) 1)) (\<lambda>(s, r).
         if r \<noteq> 0 then Inr (s, -1)
         else cbind (vsnprintf_at (db_buf s) (db_size s) (db_allocated_size s - db_size s) out) (\<lambda>b.
           Inr (s\<lparr>db_buf := b, db_size := sz_add (db_size s) (length out)\<rparr>, 0))))"

definition dbuf_free :: "dynbuf \<Rightarrow> dynbuf cres" where
  "dbuf_free s = (if db_buf s \<noteq> [] \<and> db_realloc_func s = None then Inl NullDeref else Inr dbuf_zero)"

definition dbuf_error :: "dynbuf \<Rightarrow> bool" where
  "dbuf_error s = db_error s"

definition dbuf_set_error :: "dynbuf \<Rightarrow> dynbuf" where
  "dbuf_set_error s = s\<lparr>db_error := True\<rparr>"

section \<open>The allocation contract\<close>

text \<open>
  What the buffer relies on of its callback, as documented for \<open>realloc\<close>: a block of exactly the
  requested size, at most the largest object of the platform, that starts with the old contents.
\<close>

definition realloc_law :: "realloc_fn \<Rightarrow> bool" where
  "realloc_law f \<longleftrightarrow>
     (\<forall>old n new. f old n = Some new \<longrightarrow>
        length new = n \<and> n < 2 ^ 63 \<and> (length old \<le> n \<longrightarrow> take (length old) new = old))"

lemma realloc_lawD:
  assumes "realloc_law f" "f old n = Some new"
  shows "length new = n" "n < 2 ^ 63" "length old \<le> n \<Longrightarrow> take (length old) new = old"
  using assms by (auto simp: realloc_law_def)

lemma libc_realloc_law: "realloc_law (dbuf_default_realloc limit fill)"
  by (auto simp: realloc_law_def dbuf_default_realloc_def libc_realloc_def split: if_splits)

section \<open>Invariant and contents\<close>

definition dbuf_inv :: "dynbuf \<Rightarrow> bool" where
  "dbuf_inv s \<longleftrightarrow>
     db_size s \<le> db_allocated_size s \<and> length (db_buf s) = db_allocated_size s \<and> db_allocated_size s < 2 ^ 63 \<and>
     (\<exists>f. db_realloc_func s = Some f \<and> realloc_law f)"

definition dbuf_contents :: "dynbuf \<Rightarrow> u8 list" where
  "dbuf_contents s = take (db_size s) (db_buf s)"

lemma length_dbuf_contents [simp]: "dbuf_inv s \<Longrightarrow> length (dbuf_contents s) = db_size s"
  by (simp add: dbuf_inv_def dbuf_contents_def)

lemma dbuf_init_inv:
  "(\<And>g. f = Some g \<Longrightarrow> realloc_law g) \<Longrightarrow>
     dbuf_inv (dbuf_init2 limit fill f) \<and> dbuf_contents (dbuf_init2 limit fill f) = [] \<and>
     \<not> db_error (dbuf_init2 limit fill f)"
  by (cases f) (auto simp: dbuf_init2_def dbuf_zero_def dbuf_inv_def dbuf_contents_def libc_realloc_law)

text \<open>
  \<open>dbuf_realloc\<close>: room for the request and the same contents, or -1 with the error flag set
  and nothing else changed. Growth is geometric unless \<open>allocated_size * 3\<close> wraps.
\<close>

lemma dbuf_realloc_cases:
  assumes "dbuf_inv s"
  obtains (ok) s' where "dbuf_realloc s n = Inr (s', 0)" "dbuf_inv s'" "n \<le> db_allocated_size s'"
      "db_size s' = db_size s" "dbuf_contents s' = dbuf_contents s" "db_error s' = db_error s"
      "take (db_allocated_size s) (db_buf s') = db_buf s" "db_allocated_size s \<le> db_allocated_size s'"
      "s' \<noteq> s \<Longrightarrow> sz_mul (db_allocated_size s) 3 div 2 \<le> db_allocated_size s'"
      "db_realloc_func s' = db_realloc_func s"
  | (fail) "dbuf_realloc s n = Inr (s\<lparr>db_error := True\<rparr>, -1)" "db_allocated_size s < n"
proof (cases "n > db_allocated_size s \<and> \<not> db_error s")
  case False
  then show ?thesis
  proof (cases "n > db_allocated_size s")
    case True
    with False have e: "db_error s" by simp
    then have "dbuf_realloc s n = Inr (s\<lparr>db_error := True\<rparr>, -1)" using True by (simp add: dbuf_realloc_def)
    then show ?thesis using True by (rule fail)
  next
    case le: False
    show ?thesis using assms le by (intro ok [of s]) (auto simp: dbuf_realloc_def dbuf_inv_def)
  qed
next
  case True
  define m where "m = (if sz_mul (db_allocated_size s) 3 div 2 > n then sz_mul (db_allocated_size s) 3 div 2 else n)"
  from assms obtain f where f: "db_realloc_func s = Some f" "realloc_law f" by (auto simp: dbuf_inv_def)
  show ?thesis
  proof (cases "f (db_buf s) m")
    case None
    then have "dbuf_realloc s n = Inr (s\<lparr>db_error := True\<rparr>, -1)"
      using True f by (simp add: dbuf_realloc_def m_def [symmetric] Let_def)
    then show ?thesis using True by (intro fail) auto
  next
    case (Some b)
    have m: "n \<le> m" "db_allocated_size s \<le> m" "sz_mul (db_allocated_size s) 3 div 2 \<le> m"
      using True by (auto simp: m_def)
    note b = realloc_lawD [OF f(2) Some]
    have p: "take (db_allocated_size s) b = db_buf s" using b(3) m assms by (auto simp: dbuf_inv_def)
    have "take (db_size s) b = take (db_size s) (take (db_allocated_size s) b)"
      using assms by (simp add: dbuf_inv_def)
    then have c: "take (db_size s) b = take (db_size s) (db_buf s)" using p by simp
    have "dbuf_realloc s n = Inr (s\<lparr>db_buf := b, db_allocated_size := m\<rparr>, 0)"
      using True f Some by (simp add: dbuf_realloc_def m_def [symmetric] Let_def)
    then show ?thesis
      using assms b m p c f
      by (intro ok [of "s\<lparr>db_buf := b, db_allocated_size := m\<rparr>"]) (auto simp: dbuf_inv_def dbuf_contents_def)
  qed
qed

section \<open>The operations\<close>

text \<open>
  \<open>dbuf_result s c res\<close>: the operation did not fault and either returned 0 with contents \<open>c\<close>
  and the error flag as it was, or returned -1 having changed nothing but the error flag.
\<close>

definition dbuf_result :: "dynbuf \<Rightarrow> u8 list \<Rightarrow> (dynbuf \<times> int) cres \<Rightarrow> bool" where
  "dbuf_result s c res \<longleftrightarrow>
     (\<exists>s' r. res = Inr (s', r) \<and> dbuf_inv s' \<and>
        (r = 0 \<and> dbuf_contents s' = c \<and> db_error s' = db_error s \<or>
         r = -1 \<and> s' = s\<lparr>db_error := True\<rparr>))"

lemma dbuf_resultI:
  "dbuf_inv s' \<Longrightarrow> dbuf_contents s' = c \<Longrightarrow> db_error s' = db_error s \<Longrightarrow> dbuf_result s c (Inr (s', 0))"
  "dbuf_inv s \<Longrightarrow> dbuf_result s c (Inr (s\<lparr>db_error := True\<rparr>, -1))"
  by (auto simp: dbuf_result_def dbuf_inv_def)

lemma dbuf_result_cong:
  "dbuf_result s c res \<Longrightarrow> db_error s = db_error s0 \<Longrightarrow> s\<lparr>db_error := True\<rparr> = s0\<lparr>db_error := True\<rparr> \<Longrightarrow> dbuf_result s0 c res"
  by (auto simp: dbuf_result_def)

lemma dbuf_grow_cases:
  assumes "dbuf_inv s" "len < 2 ^ 63"
  obtains (ok) s' where "dbuf_grow s len = Inr (s', 0)" "dbuf_inv s'" "db_size s + len \<le> db_allocated_size s'"
      "db_size s' = db_size s" "dbuf_contents s' = dbuf_contents s" "db_error s' = db_error s"
  | (fail) "dbuf_grow s len = Inr (s\<lparr>db_error := True\<rparr>, -1)"
proof -
  have "sz_add (db_size s) len = db_size s + len"
    using assms by (intro sz_add_small) (auto simp: dbuf_inv_def)
  then have g: "dbuf_grow s len = dbuf_realloc s (db_size s + len)"
    by (simp add: dbuf_grow_def dbuf_realloc_def)
  show ?thesis
  proof (cases rule: dbuf_realloc_cases [OF assms(1), of "db_size s + len"])
    case (1 s')
    then show ?thesis using that(1) [of s'] g by simp
  next
    case 2
    then show ?thesis using that(2) g by simp
  qed
qed

text \<open>Storing a block at or before the end of the contents.\<close>

lemma dbuf_store:
  assumes "dbuf_inv s" "off \<le> db_size s" "off + length d \<le> db_allocated_size s"
    "n = max (db_size s) (off + length d)"
  shows "\<exists>b. wr_block (db_buf s) off d = Inr b \<and> dbuf_inv (s\<lparr>db_buf := b, db_size := n\<rparr>) \<and>
    dbuf_contents (s\<lparr>db_buf := b, db_size := n\<rparr>) =
      take off (dbuf_contents s) @ d @ drop (off + length d) (dbuf_contents s)"
proof -
  have l: "length (db_buf s) = db_allocated_size s" "db_size s \<le> db_allocated_size s"
    using assms by (auto simp: dbuf_inv_def)
  define b where "b = take off (db_buf s) @ d @ drop (off + length d) (db_buf s)"
  have n: "n - off - length d = db_size s - (off + length d)" "off \<le> n" "length d \<le> n - off" "n \<le> db_allocated_size s"
    using assms l by (auto simp: max_def)
  have "take n b = take off (take (db_size s) (db_buf s)) @ d @ drop (off + length d) (take (db_size s) (db_buf s))"
    using assms(2) n l by (simp add: b_def drop_take)
  moreover have "length b = db_allocated_size s" using assms l by (simp add: b_def)
  moreover have "wr_block (db_buf s) off d = Inr b" using assms l by (simp add: b_def)
  ultimately show ?thesis using assms(1) n by (auto simp: dbuf_inv_def dbuf_contents_def)
qed

lemma dbuf_put_result:
  assumes "dbuf_inv s" "length data < 2 ^ 63"
  shows "dbuf_result s (dbuf_contents s @ data) (dbuf_put s data)"
proof (rule dbuf_grow_cases [OF assms])
  fix s' assume g: "dbuf_grow s (length data) = Inr (s', 0)" "dbuf_inv s'"
    "db_size s + length data \<le> db_allocated_size s'" "db_size s' = db_size s"
    "dbuf_contents s' = dbuf_contents s" "db_error s' = db_error s"
  have n: "sz_add (db_size s') (length data) = db_size s' + length data"
    using g assms by (intro sz_add_small) (auto simp: dbuf_inv_def)
  from g obtain b where "wr_block (db_buf s') (db_size s') data = Inr b"
    "dbuf_inv (s'\<lparr>db_buf := b, db_size := db_size s' + length data\<rparr>)"
    "dbuf_contents (s'\<lparr>db_buf := b, db_size := db_size s' + length data\<rparr>) = dbuf_contents s @ data"
    using dbuf_store [of s' "db_size s'" data "db_size s' + length data"] assms(1) by auto
  then show ?thesis using g n by (auto simp: dbuf_put_def intro!: dbuf_resultI)
next
  assume "dbuf_grow s (length data) = Inr (s\<lparr>db_error := True\<rparr>, -1)"
  then show ?thesis using assms by (simp add: dbuf_put_def dbuf_resultI)
qed

lemma dbuf_put_self_result:
  assumes "dbuf_inv s" "off + len \<le> db_size s"
  shows "dbuf_result s (dbuf_contents s @ take len (drop off (dbuf_contents s))) (dbuf_put_self s off len)"
proof -
  have l: "len < 2 ^ 63" using assms by (auto simp: dbuf_inv_def)
  show ?thesis
  proof (rule dbuf_grow_cases [OF assms(1) l])
    fix s' assume g: "dbuf_grow s len = Inr (s', 0)" "dbuf_inv s'"
      "db_size s + len \<le> db_allocated_size s'" "db_size s' = db_size s"
      "dbuf_contents s' = dbuf_contents s" "db_error s' = db_error s"
    define d where "d = take len (drop off (db_buf s'))"
    have n: "sz_add (db_size s') len = db_size s' + len"
      using g assms by (intro sz_add_small) (auto simp: dbuf_inv_def)
    have dl: "length d = len" using g assms by (auto simp: d_def dbuf_inv_def)
    have d: "d = take len (drop off (dbuf_contents s))"
      unfolding g(5) [symmetric] using assms g(4) by (simp add: d_def dbuf_contents_def drop_take min_def)
    have r: "rd_block (db_buf s') off len = Inr d" using g assms by (auto simp: d_def dbuf_inv_def)
    from g dl obtain b where "wr_block (db_buf s') (db_size s') d = Inr b"
      "dbuf_inv (s'\<lparr>db_buf := b, db_size := db_size s' + len\<rparr>)"
      "dbuf_contents (s'\<lparr>db_buf := b, db_size := db_size s' + len\<rparr>) = dbuf_contents s @ d"
      using dbuf_store [of s' "db_size s'" d "db_size s' + len"] assms(1) by auto
    then show ?thesis
      using g n r assms by (auto simp: dbuf_put_self_def d [symmetric] intro!: dbuf_resultI)
  next
    assume "dbuf_grow s len = Inr (s\<lparr>db_error := True\<rparr>, -1)"
    then show ?thesis using assms by (simp add: dbuf_put_self_def dbuf_resultI)
  qed
qed

lemma dbuf_write_result:
  assumes "dbuf_inv s" "off \<le> db_size s" "length data < 2 ^ 63"
  shows "dbuf_result s (take off (dbuf_contents s) @ data @ drop (off + length data) (dbuf_contents s))
    (dbuf_write s off data)"
proof -
  have n: "sz_add off (length data) = off + length data"
    using assms by (intro sz_add_small) (auto simp: dbuf_inv_def)
  show ?thesis
  proof (rule dbuf_realloc_cases [OF assms(1), of "off + length data"])
    fix s' assume g: "dbuf_realloc s (off + length data) = Inr (s', 0)" "dbuf_inv s'"
      "off + length data \<le> db_allocated_size s'" "db_size s' = db_size s"
      "dbuf_contents s' = dbuf_contents s" "db_error s' = db_error s"
    from g assms obtain b where b: "wr_block (db_buf s') off data = Inr b"
      "dbuf_inv (s'\<lparr>db_buf := b, db_size := max (db_size s') (off + length data)\<rparr>)"
      "dbuf_contents (s'\<lparr>db_buf := b, db_size := max (db_size s') (off + length data)\<rparr>) =
        take off (dbuf_contents s) @ data @ drop (off + length data) (dbuf_contents s)"
      using dbuf_store [of s' off data "max (db_size s') (off + length data)"] by auto
    have "dbuf_write s off data = Inr (s'\<lparr>db_buf := b, db_size := max (db_size s') (off + length data)\<rparr>, 0)"
      using g b(1) n by (auto simp: dbuf_write_def max_def Let_def)
    then show ?thesis using b g(6) by (auto intro!: dbuf_resultI)
  next
    assume "dbuf_realloc s (off + length data) = Inr (s\<lparr>db_error := True\<rparr>, -1)"
    then show ?thesis using assms n by (simp add: dbuf_write_def Let_def dbuf_resultI)
  qed
qed

lemma dbuf_realloc_printf:
  assumes "dbuf_inv s" "length out < 2 ^ 63" "\<not> length out < 128"
  shows "dbuf_result s (dbuf_contents s @ out) (dbuf_printf s out)"
proof -
  have tmp: "\<exists>t. vsnprintf_at (replicate 128 0) 0 128 out = Inr t"
    using assms(3) by (simp add: vsnprintf_at_def)
  have n: "sz_add (sz_add (db_size s) (length out)) 1 = db_size s + length out + 1"
    "sz_add (db_size s) (length out) = db_size s + length out"
    using assms by (auto simp: dbuf_inv_def sz_add_def)
  show ?thesis
  proof (cases rule: dbuf_realloc_cases [OF assms(1), of "db_size s + length out + 1"])
    case (1 s')
    then have room: "length out \<le> db_allocated_size s' - db_size s' - 1" "0 < db_allocated_size s' - db_size s'"
      by auto
    have "dbuf_inv s'" "db_size s' + length (out @ [0]) \<le> db_allocated_size s'" using 1 by auto
    then obtain b where b: "wr_block (db_buf s') (db_size s') (out @ [0]) = Inr b"
      "dbuf_inv (s'\<lparr>db_buf := b, db_size := db_size s' + length (out @ [0])\<rparr>)"
      "dbuf_contents (s'\<lparr>db_buf := b, db_size := db_size s' + length (out @ [0])\<rparr>) = dbuf_contents s' @ out @ [0]"
      using dbuf_store [of s' "db_size s'" "out @ [0]" "db_size s' + length (out @ [0])"] by auto
    let ?s = "s'\<lparr>db_buf := b, db_size := db_size s' + length out\<rparr>"
    have "dbuf_inv ?s" using b(2) by (auto simp: dbuf_inv_def)
    moreover have "dbuf_contents ?s = take (db_size s' + length out) (dbuf_contents s' @ out @ [0])"
      unfolding b(3) [symmetric] by (simp add: dbuf_contents_def min_def)
    then have "dbuf_contents ?s = dbuf_contents s @ out" using 1 assms(1) by simp
    moreover have "dbuf_printf s out = Inr (?s, 0)"
      using 1 tmp assms(3) room b(1) n by (auto simp: dbuf_printf_def vsnprintf_at_def)
    ultimately show ?thesis using 1 by (simp add: dbuf_resultI)
  next
    case 2
    then show ?thesis using tmp assms n by (auto simp: dbuf_printf_def dbuf_resultI)
  qed
qed

lemma dbuf_printf_result:
  assumes "dbuf_inv s" "length out < 2 ^ 63"
  shows "dbuf_result s (dbuf_contents s @ out) (dbuf_printf s out)"
proof (cases "length out < 128")
  case True
  have "vsnprintf_at (replicate 128 0) 0 128 out = Inr (out @ 0 # replicate (127 - length out) 0)"
    using True by (simp add: vsnprintf_at_def)
  then have "dbuf_printf s out = dbuf_put s out" using True by (simp add: dbuf_printf_def)
  then show ?thesis using dbuf_put_result [OF assms] by simp
qed (rule dbuf_realloc_printf [OF assms])

lemma dbuf_putstr_result:
  assumes "dbuf_inv s" "c_string str m" "length str < 2 ^ 63"
  shows "dbuf_result s (dbuf_contents s @ str) (dbuf_putstr s m)"
  using assms dbuf_put_result [of s str] by (auto simp: dbuf_putstr_def c_string_def)

section \<open>Writing a stream with one check at the end\<close>

text \<open>
  The clients of the buffer (the regular expression compiler, the Unicode normaliser, the
  bytecode writer) ignore the result of single writes and test \<open>dbuf_error\<close> once at the end.
  The interface they rely on: a write never faults, and if the error flag is clear after it then it
  was clear before and the bytes were appended. A failed write does not stop later, shorter
  ones from being stored, so nothing is promised about the contents once the flag is set.
\<close>

locale byte_sink =
  fixes put :: "'s \<Rightarrow> u8 list \<Rightarrow> ('s \<times> int) cres"
    and data :: "'s \<Rightarrow> u8 list"
    and err :: "'s \<Rightarrow> bool"
    and inv :: "'s \<Rightarrow> bool"
  assumes put_safe: "inv s \<Longrightarrow> length bs < 2 ^ 63 \<Longrightarrow> \<exists>s' r. put s bs = Inr (s', r) \<and> inv s'"
    and put_appends: "inv s \<Longrightarrow> length bs < 2 ^ 63 \<Longrightarrow> put s bs = Inr (s', r) \<Longrightarrow> \<not> err s' \<Longrightarrow>
      \<not> err s \<and> r = 0 \<and> data s' = data s @ bs"
begin

fun put_all :: "'s \<Rightarrow> u8 list list \<Rightarrow> 's cres" where
  "put_all s [] = Inr s"
| "put_all s (bs # bss) = cbind (put s bs) (\<lambda>(s', r). put_all s' bss)"

lemma put_all_stream:
  assumes "inv s" "\<forall>bs \<in> set bss. length bs < 2 ^ 63"
  shows "\<exists>s'. put_all s bss = Inr s' \<and> inv s' \<and> (\<not> err s' \<longrightarrow> \<not> err s \<and> data s' = data s @ concat bss)"
  using assms
proof (induction bss arbitrary: s)
  case (Cons bs bss)
  then obtain s1 r where p: "put s bs = Inr (s1, r)" "inv s1" using put_safe [of s bs] by auto
  with Cons obtain s' where s': "put_all s1 bss = Inr s'" "inv s'"
    "\<not> err s' \<longrightarrow> \<not> err s1 \<and> data s' = data s1 @ concat bss" by fastforce
  then have "\<not> err s' \<longrightarrow> \<not> err s \<and> data s' = data s @ bs @ concat bss"
    using put_appends [OF _ _ p(1)] Cons.prems by auto
  then show ?case using p s' by auto
qed auto

end

lemma dbuf_put_sink:
  assumes "dbuf_inv s" "length bs < 2 ^ 63"
  shows "\<exists>s' r. dbuf_put s bs = Inr (s', r) \<and> dbuf_inv s' \<and>
    (\<not> db_error s' \<longrightarrow> \<not> db_error s \<and> r = 0 \<and> dbuf_contents s' = dbuf_contents s @ bs)"
  using dbuf_put_result [OF assms] by (auto simp: dbuf_result_def)

interpretation dbuf: byte_sink dbuf_put dbuf_contents db_error dbuf_inv
proof
  fix s bs s' r
  assume "dbuf_inv s" "length bs < 2 ^ 63" and p: "dbuf_put s bs = Inr (s', r)" and "\<not> db_error s'"
  then show "\<not> db_error s \<and> r = 0 \<and> dbuf_contents s' = dbuf_contents s @ bs"
    using dbuf_put_sink [of s bs] by auto
qed (use dbuf_put_sink in blast)

text \<open>The stream of writes of a client, as a function of the code's model.\<close>

fun dbuf_put_all :: "dynbuf \<Rightarrow> u8 list list \<Rightarrow> dynbuf cres" where
  "dbuf_put_all s [] = Inr s"
| "dbuf_put_all s (bs # bss) = cbind (dbuf_put s bs) (\<lambda>(s', r). dbuf_put_all s' bss)"

lemma dbuf_put_all_sink: "dbuf_put_all s bss = dbuf.put_all s bss"
  by (induction s bss rule: dbuf_put_all.induct) (auto intro!: cbind_cong)

section \<open>Properties\<close>


definition dbuf_example :: dynbuf where
  "dbuf_example = \<lparr>db_buf = [1, 2, 3, 0], db_size = 3, db_allocated_size = 4, db_error = False,
     db_realloc_func = Some (dbuf_default_realloc 64 0)\<rparr>"

lemma dbuf_example_inv: "dbuf_inv dbuf_example"
  by (simp add: dbuf_inv_def dbuf_example_def libc_realloc_law)


text \<open>
  C5. A client that performs any number of writes without looking at their results and checks
  \<open>dbuf_error\<close> once at the end is sound: no write faults, and if the flag is clear the buffer
  holds the concatenation of everything written, in order.
\<close>

theorem dbuf_deferred_error_check:
  assumes "dbuf_inv s" "\<forall>bs \<in> set bss. length bs < 2 ^ 63"
  shows "\<exists>s'. dbuf_put_all s bss = Inr s' \<and> dbuf_inv s' \<and>
    (\<not> dbuf_error s' \<longrightarrow> \<not> dbuf_error s \<and> dbuf_contents s' = dbuf_contents s @ concat bss)"
  unfolding dbuf_put_all_sink dbuf_error_def by (rule dbuf.put_all_stream [OF assms])

theorem dbuf_deferred_error_check_witness:
  "\<exists>s'. dbuf_put_all (dbuf_init 64 0) [[1, 2], [3]] = Inr s' \<and> dbuf_inv s' \<and>
    (\<not> dbuf_error s' \<longrightarrow> dbuf_contents s' = [1, 2, 3])"
proof -
  have i: "dbuf_inv (dbuf_init 64 0)" "dbuf_contents (dbuf_init 64 0) = []"
    using dbuf_init_inv [of None 64 0] by (simp_all add: dbuf_init_def)
  have "\<forall>bs \<in> set [[1, 2], [3 :: u8]]. length bs < 2 ^ 63" by simp
  then obtain s' where "dbuf_put_all (dbuf_init 64 0) [[1, 2], [3]] = Inr s'" "dbuf_inv s'"
    "\<not> dbuf_error s' \<longrightarrow> dbuf_contents s' = [1, 2, 3]"
    using dbuf_deferred_error_check [OF i(1), of "[[1, 2], [3]]"] unfolding i(2) by auto
  then show ?thesis by blast
qed

lemma dbuf_free_twice:
  "dbuf_inv s \<Longrightarrow> dbuf_free s = Inr dbuf_zero \<and> dbuf_free dbuf_zero = Inr dbuf_zero"
  by (auto simp: dbuf_free_def dbuf_inv_def dbuf_zero_def)

end
