(* ===== verification/Rqsort.thy ===== *)
theory Rqsort
  imports Prelude
begin

text \<open>
  \<open>rqsort\<close> and \<open>heapsortx\<close> of \<^verbatim>\<open>cutils.c\<close> at the level of array elements: the array is a list, a
  pointer \<open>base + k * size\<close> is the index \<open>k\<close>, \<open>cmp\<close> is a pure function of two elements, and
  the swap that \<open>exchange_func\<close> selects is the exchange of two elements (the theory \<open>Exchange\<close>
  shows that it is, for every element size and alignment). Element accesses are checked. The
  local array \<open>stack[50]\<close> is a list of frames, and a push onto 50 frames is a \<open>StackOverflow\<close> fault.
\<close>

section \<open>Definitions\<close>

type_synonym 'a cmp_f = "'a \<Rightarrow> 'a \<Rightarrow> int"

definition cmp_at :: "'a cmp_f \<Rightarrow> 'a list \<Rightarrow> nat \<Rightarrow> nat \<Rightarrow> int cres" where
  "cmp_at cmp xs i j = (if i < length xs \<and> j < length xs then Inr (cmp (xs ! i) (xs ! j)) else Inl OutOfBounds)"

definition exch :: "'a list \<Rightarrow> nat \<Rightarrow> nat \<Rightarrow> 'a list cres" where
  "exch xs i j = (if i < length xs \<and> j < length xs then Inr (xs[i := xs ! j, j := xs ! i]) else Inl OutOfBounds)"

text \<open>\<open>swap_block(a, b, k)\<close>, element by element in ascending order.\<close>

fun exch_block :: "'a list \<Rightarrow> nat \<Rightarrow> nat \<Rightarrow> nat \<Rightarrow> 'a list cres" where
  "exch_block xs a b 0 = Inr xs"
| "exch_block xs a b (Suc k) = cbind (exch xs a b) (\<lambda>xs. exch_block xs (Suc a) (Suc b) k)"

text \<open>
  The inner loop of \<open>heapsortx\<close>, on the heap of \<open>n\<close> elements at \<open>base\<close>. \<open>sift_child\<close> is the choice
  of the child in the loop body.
\<close>

definition sift_child :: "'a cmp_f \<Rightarrow> 'a list \<Rightarrow> nat \<Rightarrow> nat \<Rightarrow> nat \<Rightarrow> nat cres" where
  "sift_child cmp xs base n c =
     (if c < n - 1
      then cbind (cmp_at cmp xs (base + c) (base + c + 1)) (\<lambda>d. Inr (if d \<le> 0 then c + 1 else c))
      else Inr c)"

lemma sift_child_range: "sift_child cmp xs base n c = Inr c' \<Longrightarrow> c' = c \<or> c' = c + 1 \<and> c + 1 < n"
  by (auto simp: sift_child_def split: if_splits)

function sift_down :: "'a cmp_f \<Rightarrow> 'a list \<Rightarrow> nat \<Rightarrow> nat \<Rightarrow> nat \<Rightarrow> 'a list cres" where
  "sift_down cmp xs base n r =
     (let c = r * 2 + 1 in
      if c < n then
        cbind (sift_child cmp xs base n c) (\<lambda>c.
        cbind (cmp_at cmp xs (base + r) (base + c)) (\<lambda>d.
          if d > 0 then Inr xs
          else cbind (exch xs (base + r) (base + c)) (\<lambda>xs. sift_down cmp xs base n c)))
      else Inr xs)"
  by pat_completeness auto
termination
  by (relation "measure (\<lambda>(cmp, xs, base, n, r). n - r)") (auto dest!: sift_child_range)

fun heapify :: "'a cmp_f \<Rightarrow> 'a list \<Rightarrow> nat \<Rightarrow> nat \<Rightarrow> nat \<Rightarrow> 'a list cres" where
  "heapify cmp xs base n 0 = Inr xs"
| "heapify cmp xs base n (Suc i) = cbind (sift_down cmp xs base n i) (\<lambda>xs. heapify cmp xs base n i)"

fun heap_extract :: "'a cmp_f \<Rightarrow> 'a list \<Rightarrow> nat \<Rightarrow> nat \<Rightarrow> 'a list cres" where
  "heap_extract cmp xs base 0 = Inr xs"
| "heap_extract cmp xs base (Suc i) =
     cbind (exch xs base (base + Suc i)) (\<lambda>xs.
     cbind (sift_down cmp xs base (Suc i) 0) (\<lambda>xs. heap_extract cmp xs base i))"

definition heapsortx :: "'a cmp_f \<Rightarrow> 'a list \<Rightarrow> nat \<Rightarrow> nat \<Rightarrow> 'a list cres" where
  "heapsortx cmp xs base nmemb =
     (if nmemb > 1
      then cbind (heapify cmp xs base nmemb (nmemb div 2)) (\<lambda>xs. heap_extract cmp xs base (nmemb - 1))
      else Inr xs)"

definition med3 :: "'a cmp_f \<Rightarrow> 'a list \<Rightarrow> nat \<Rightarrow> nat \<Rightarrow> nat \<Rightarrow> nat cres" where
  "med3 cmp xs a b c =
     cbind (cmp_at cmp xs a b) (\<lambda>ab.
       if ab < 0
       then cbind (cmp_at cmp xs b c) (\<lambda>bc.
              if bc < 0 then Inr b else cbind (cmp_at cmp xs a c) (\<lambda>ac. Inr (if ac < 0 then c else a)))
       else cbind (cmp_at cmp xs b c) (\<lambda>bc.
              if bc > 0 then Inr b else cbind (cmp_at cmp xs a c) (\<lambda>ac. Inr (if ac < 0 then a else c))))"

text \<open>
  The two scans of the partition loop; positions are relative to \<open>ptr\<close>, so that \<open>pi = ptr + i\<close>,
  \<open>plt = ptr + lt\<close> and \<open>pgt = ptr + gt\<close>.
\<close>

function scan_up :: "'a cmp_f \<Rightarrow> 'a list \<Rightarrow> nat \<Rightarrow> nat \<Rightarrow> nat \<Rightarrow> nat \<Rightarrow> ('a list \<times> nat \<times> nat) cres" where
  "scan_up cmp xs ptr i lt pj =
     (if i < pj then
        cbind (cmp_at cmp xs ptr (ptr + i)) (\<lambda>c.
          if c \<ge> 0 then
            if c = 0 then cbind (exch xs (ptr + lt) (ptr + i)) (\<lambda>xs. scan_up cmp xs ptr (i + 1) (lt + 1) pj)
            else scan_up cmp xs ptr (i + 1) lt pj
          else Inr (xs, i, lt))
      else Inr (xs, i, lt))"
  by pat_completeness auto
termination
  by (relation "measure (\<lambda>(cmp, xs, ptr, i, lt, pj). pj - i)") auto

fun scan_down :: "'a cmp_f \<Rightarrow> 'a list \<Rightarrow> nat \<Rightarrow> nat \<Rightarrow> nat \<Rightarrow> nat \<Rightarrow> ('a list \<times> nat \<times> nat) cres" where
  "scan_down cmp xs ptr i gt 0 = Inl OutOfBounds"
| "scan_down cmp xs ptr i gt (Suc pj) =
     (if i < pj then
        cbind (cmp_at cmp xs ptr (ptr + pj)) (\<lambda>c.
          if c \<le> 0 then
            if c = 0 then cbind (exch xs (ptr + (gt - 1)) (ptr + pj)) (\<lambda>xs. scan_down cmp xs ptr i (gt - 1) pj)
            else scan_down cmp xs ptr i gt pj
          else Inr (xs, gt, pj))
      else Inr (xs, gt, pj))"

declare sift_down.simps [simp del] scan_up.simps [simp del]

lemma scan_down_decreases:
  "scan_down cmp xs ptr i gt pj = Inr (xs', gt', pj') \<Longrightarrow> pj' < pj"
  by (induction pj arbitrary: xs gt) (force split: if_splits)+

function partition_loop :: "'a cmp_f \<Rightarrow> 'a list \<Rightarrow> nat \<Rightarrow> nat \<Rightarrow> nat \<Rightarrow> nat \<Rightarrow> nat
    \<Rightarrow> ('a list \<times> nat \<times> nat \<times> nat) cres" where
  "partition_loop cmp xs ptr i lt pj gt =
     cbind (scan_up cmp xs ptr i lt pj) (\<lambda>(xs, i, lt).
     cbind (scan_down cmp xs ptr i gt pj) (\<lambda>(xs, gt, pj).
       if i \<ge> pj then Inr (xs, i, lt, gt)
       else cbind (exch xs (ptr + i) (ptr + pj)) (\<lambda>xs. partition_loop cmp xs ptr (i + 1) lt pj gt)))"
  by pat_completeness auto
termination
  by (relation "measure (\<lambda>(cmp, xs, ptr, i, lt, pj, gt). pj)") (auto dest: scan_down_decreases)

declare partition_loop.simps [simp del]

text \<open>
  One turn of the quicksort loop on the segment of \<open>nmemb\<close> elements at \<open>ptr\<close>: the pivot is moved to
  the front, the segment is partitioned, and the elements equal to the pivot are moved from
  both ends to the middle. The result is the array and the bounds \<open>lt\<close> and \<open>gt\<close> of the middle part.
\<close>

definition rq_partition :: "'a cmp_f \<Rightarrow> 'a list \<Rightarrow> nat \<Rightarrow> nat \<Rightarrow> ('a list \<times> nat \<times> nat) cres" where
  "rq_partition cmp xs ptr nmemb =
     (let m4 = nmemb div 4 in
      cbind (med3 cmp xs (ptr + m4) (ptr + 2 * m4) (ptr + 3 * m4)) (\<lambda>m.
      cbind (exch xs ptr m) (\<lambda>xs.
      cbind (partition_loop cmp xs ptr 1 1 nmemb nmemb) (\<lambda>(xs, i, lt, gt).
        let span = min lt (i - lt) in
        cbind (exch_block xs ptr (ptr + i - span) span) (\<lambda>xs.
        let span = min (nmemb - gt) (gt - i) in
        cbind (exch_block xs (ptr + i) (ptr + nmemb - span) span) (\<lambda>xs.
        Inr (xs, i - lt, nmemb - (gt - i))))))))"

text \<open>A frame of the explicit stack: base, count and depth. The first frame of the list is the top.\<close>

type_synonym frame = "nat \<times> nat \<times> nat"

definition push_frame :: "frame \<Rightarrow> frame list \<Rightarrow> frame list cres" where
  "push_frame f stack = (if length stack < 50 then Inr (f # stack) else Inl StackOverflow)"

text \<open>
  Facts needed to see that the loops end: exchanges keep the length of the array, and the
  partition leaves at least the pivot out of the two outer parts.
\<close>

lemma exch_length [dest]: "exch xs i j = Inr ys \<Longrightarrow> length ys = length xs"
  by (auto simp: exch_def split: if_splits)

lemma scan_up_range:
  "scan_up cmp xs ptr i lt pj = Inr (xs', i', lt') \<Longrightarrow> lt \<le> i \<Longrightarrow> i \<le> pj \<Longrightarrow>
     i \<le> i' \<and> i' \<le> pj \<and> lt \<le> lt' \<and> lt' \<le> i'"
proof (induction "pj - i" arbitrary: xs i lt)
  case 0
  then show ?case by (simp add: scan_up.simps)
next
  case (Suc k)
  from Suc.prems Suc.hyps(2) Suc.hyps(1) [of "i + 1"] show ?case
    unfolding scan_up.simps [of cmp xs ptr i lt pj] by (fastforce split: if_splits)
qed

lemma scan_down_range:
  "scan_down cmp xs ptr i gt pj = Inr (xs', gt', pj') \<Longrightarrow> i \<le> pj \<Longrightarrow> 0 < pj \<Longrightarrow> pj \<le> gt \<Longrightarrow>
     gt' \<le> gt \<and> pj' \<le> gt' \<and> i \<le> gt'"
proof (induction pj arbitrary: xs gt)
  case (Suc pj)
  from Suc.prems Suc.IH show ?case by (fastforce split: if_splits)
qed simp

lemma partition_loop_range:
  "partition_loop cmp xs ptr i lt pj gt = Inr (xs', i', lt', gt') \<Longrightarrow>
     lt \<le> i \<Longrightarrow> i \<le> pj \<Longrightarrow> 0 < pj \<Longrightarrow> pj \<le> gt \<Longrightarrow> lt \<le> lt' \<and> lt' \<le> i' \<and> i' \<le> gt' \<and> gt' \<le> gt"
proof (induction pj arbitrary: xs i lt gt rule: less_induct)
  case (less pj)
  from less.prems(1) obtain xs1 i1 lt1 xs2 gt2 pj2 where
    u: "scan_up cmp xs ptr i lt pj = Inr (xs1, i1, lt1)" and
    d: "scan_down cmp xs1 ptr i1 gt pj = Inr (xs2, gt2, pj2)" and
    r: "(if i1 \<ge> pj2 then Inr (xs2, i1, lt1, gt2)
      else cbind (exch xs2 (ptr + i1) (ptr + pj2)) (\<lambda>xs. partition_loop cmp xs ptr (i1 + 1) lt1 pj2 gt2)) = Inr (xs', i', lt', gt')"
    unfolding partition_loop.simps [of cmp xs ptr i lt pj gt] by auto
  note ur = scan_up_range [OF u less.prems(2,3)]
  note dr = scan_down_range [OF d _ less.prems(4,5)] scan_down_decreases [OF d]
  show ?case
  proof (cases "i1 \<ge> pj2")
    case True
    then show ?thesis using r ur dr by auto
  next
    case False
    then obtain xs3 where "partition_loop cmp xs3 ptr (i1 + 1) lt1 pj2 gt2 = Inr (xs', i', lt', gt')"
      using r by auto
    from less.IH [OF dr(2) this] show ?thesis using False ur dr by auto
  qed
qed

lemma rq_partition_range:
  "rq_partition cmp xs ptr nmemb = Inr (xs', lt, gt) \<Longrightarrow> 0 < nmemb \<Longrightarrow> lt < gt \<and> gt \<le> nmemb"
  by (auto simp: rq_partition_def Let_def dest!: partition_loop_range)

text \<open>The inner loop, \<open>while (nmemb > 6)\<close>: the larger part is pushed and the smaller one is kept.\<close>

function rq_inner :: "'a cmp_f \<Rightarrow> 'a list \<Rightarrow> nat \<Rightarrow> nat \<Rightarrow> nat \<Rightarrow> frame list
    \<Rightarrow> ('a list \<times> nat \<times> nat \<times> frame list) cres" where
  "rq_inner cmp xs ptr nmemb depth stack =
     (if nmemb > 6 then
        let depth = Suc depth in
        if depth > 50
        then cbind (heapsortx cmp xs ptr nmemb) (\<lambda>xs. Inr (xs, ptr, 0, stack))
        else cbind (rq_partition cmp xs ptr nmemb) (\<lambda>(xs, lt, gt).
          if lt > nmemb - gt
          then cbind (push_frame (ptr, lt, depth) stack) (\<lambda>stack.
                 rq_inner cmp xs (ptr + gt) (nmemb - gt) depth stack)
          else cbind (push_frame (ptr + gt, nmemb - gt, depth) stack) (\<lambda>stack.
                 rq_inner cmp xs ptr lt depth stack))
      else Inr (xs, ptr, nmemb, stack))"
  by pat_completeness auto
termination
  by (relation "measure (\<lambda>(cmp, xs, ptr, nmemb, depth, stack). nmemb)") (auto dest!: rq_partition_range)

declare rq_inner.simps [simp del]

text \<open>Insertion sort of the \<open>nmemb\<close> elements at \<open>ptr\<close>; \<open>k\<close> is \<open>pj - ptr\<close>, then \<open>pi - ptr\<close>.\<close>

fun insert_elem :: "'a cmp_f \<Rightarrow> 'a list \<Rightarrow> nat \<Rightarrow> nat \<Rightarrow> 'a list cres" where
  "insert_elem cmp xs ptr 0 = Inr xs"
| "insert_elem cmp xs ptr (Suc k) =
     cbind (cmp_at cmp xs (ptr + k) (ptr + Suc k)) (\<lambda>c.
       if c > 0 then cbind (exch xs (ptr + Suc k) (ptr + k)) (\<lambda>xs. insert_elem cmp xs ptr k)
       else Inr xs)"

function insertion_loop :: "'a cmp_f \<Rightarrow> 'a list \<Rightarrow> nat \<Rightarrow> nat \<Rightarrow> nat \<Rightarrow> 'a list cres" where
  "insertion_loop cmp xs ptr k nmemb =
     (if k < nmemb
      then cbind (insert_elem cmp xs ptr k) (\<lambda>xs. insertion_loop cmp xs ptr (k + 1) nmemb)
      else Inr xs)"
  by pat_completeness auto
termination
  by (relation "measure (\<lambda>(cmp, xs, ptr, k, nmemb). nmemb - k)") auto

declare insertion_loop.simps [simp del]

text \<open>The weight of a stack, which every turn of the outer loop decreases.\<close>

definition stack_weight :: "frame list \<Rightarrow> nat" where
  "stack_weight stack = (\<Sum>(p, n, d) \<leftarrow> stack. 2 * n + 1)"

lemma stack_weight_simps [simp]:
  "stack_weight [] = 0" "stack_weight ((p, n, d) # stack) = 2 * n + 1 + stack_weight stack"
  by (simp_all add: stack_weight_def)

lemma push_frame_weight:
  "push_frame (p, n, d) stack = Inr stack' \<Longrightarrow> stack_weight stack' = 2 * n + 1 + stack_weight stack"
  by (auto simp: push_frame_def split: if_splits)

lemma rq_inner_weight:
  "rq_inner cmp xs ptr nmemb depth stack = Inr (xs', ptr', nmemb', stack') \<Longrightarrow>
     stack_weight stack' + 2 * nmemb' \<le> stack_weight stack + 2 * nmemb"
proof (induction nmemb arbitrary: xs ptr depth stack rule: less_induct)
  case (less n)
  consider "n \<le> 6" | "n > 6" "Suc depth > 50" | "n > 6" "Suc depth \<le> 50" by linarith
  then show ?case
  proof cases
    case 3
    from less.prems 3 obtain xs1 lt gt where p: "rq_partition cmp xs ptr n = Inr (xs1, lt, gt)"
      and r: "(if lt > n - gt
          then cbind (push_frame (ptr, lt, Suc depth) stack) (\<lambda>stack. rq_inner cmp xs1 (ptr + gt) (n - gt) (Suc depth) stack)
          else cbind (push_frame (ptr + gt, n - gt, Suc depth) stack) (\<lambda>stack. rq_inner cmp xs1 ptr lt (Suc depth) stack))
        = Inr (xs', ptr', nmemb', stack')"
      unfolding rq_inner.simps [of cmp xs ptr n] by (auto simp: Let_def)
    have pr: "lt < gt" "gt \<le> n" using rq_partition_range [OF p] 3 by auto
    show ?thesis
    proof (cases "lt > n - gt")
      case True
      then obtain st where "push_frame (ptr, lt, Suc depth) stack = Inr st"
        "rq_inner cmp xs1 (ptr + gt) (n - gt) (Suc depth) st = Inr (xs', ptr', nmemb', stack')" using r by auto
      then show ?thesis using pr 3 less.IH [of "n - gt" xs1 "ptr + gt" "Suc depth" st]
        by (auto dest!: push_frame_weight)
    next
      case False
      then obtain st where "push_frame (ptr + gt, n - gt, Suc depth) stack = Inr st"
        "rq_inner cmp xs1 ptr lt (Suc depth) st = Inr (xs', ptr', nmemb', stack')" using r by auto
      then show ?thesis using pr 3 less.IH [of lt xs1 ptr "Suc depth" st]
        by (auto dest!: push_frame_weight)
    qed
  qed (use less.prems in \<open>auto simp: rq_inner.simps [of cmp xs ptr n]\<close>)
qed

function rq_loop :: "'a cmp_f \<Rightarrow> 'a list \<Rightarrow> frame list \<Rightarrow> 'a list cres" where
  "rq_loop cmp xs [] = Inr xs"
| "rq_loop cmp xs ((ptr, nmemb, depth) # stack) =
     cbind (rq_inner cmp xs ptr nmemb depth stack) (\<lambda>(xs, ptr, nmemb, stack).
     cbind (insertion_loop cmp xs ptr 1 nmemb) (\<lambda>xs. rq_loop cmp xs stack))"
  by pat_completeness auto
termination
  by (relation "measure (\<lambda>(cmp, xs, stack). stack_weight stack)") (auto dest!: rq_inner_weight)

definition rqsort :: "'a cmp_f \<Rightarrow> 'a list \<Rightarrow> nat \<Rightarrow> nat \<Rightarrow> 'a list cres" where
  "rqsort cmp xs base nmemb = (if nmemb < 2 then Inr xs else rq_loop cmp xs [(base, nmemb, 0)])"

section \<open>Rearranging a segment\<close>

text \<open>\<open>seg_perm a b xs ys\<close>: \<open>ys\<close> arises from \<open>xs\<close> by exchanging elements at positions in \<open>a ..< b\<close>.\<close>

inductive seg_perm :: "nat \<Rightarrow> nat \<Rightarrow> 'a list \<Rightarrow> 'a list \<Rightarrow> bool" for a b xs where
  seg_perm_refl [simp, intro]: "seg_perm a b xs xs"
| seg_perm_step: "seg_perm a b xs ys \<Longrightarrow> a \<le> i \<Longrightarrow> i < b \<Longrightarrow> a \<le> j \<Longrightarrow> j < b \<Longrightarrow>
    i < length ys \<Longrightarrow> j < length ys \<Longrightarrow> seg_perm a b xs (ys[i := ys ! j, j := ys ! i])"

lemma seg_perm_trans [trans]: "seg_perm a b ys zs \<Longrightarrow> seg_perm a b xs ys \<Longrightarrow> seg_perm a b xs zs"
  by (induction rule: seg_perm.induct) (auto intro: seg_perm_step)

lemma seg_perm_mono: "seg_perm a b xs ys \<Longrightarrow> a' \<le> a \<Longrightarrow> b \<le> b' \<Longrightarrow> seg_perm a' b' xs ys"
  by (induction rule: seg_perm.induct) (auto intro: seg_perm_step)

lemma seg_perm_length: "seg_perm a b xs ys \<Longrightarrow> length ys = length xs"
  by (induction rule: seg_perm.induct) auto

lemma seg_perm_mset: "seg_perm a b xs ys \<Longrightarrow> mset ys = mset xs"
  by (induction rule: seg_perm.induct) (auto simp: mset_swap)

lemma seg_perm_outside: "seg_perm a b xs ys \<Longrightarrow> k < a \<or> b \<le> k \<Longrightarrow> ys ! k = xs ! k"
  by (induction rule: seg_perm.induct) auto

lemma seg_perm_origin:
  "seg_perm a b xs ys \<Longrightarrow> a \<le> k \<Longrightarrow> k < b \<Longrightarrow> k < length xs \<Longrightarrow> \<exists>k'. a \<le> k' \<and> k' < b \<and> k' < length xs \<and> ys ! k = xs ! k'"
proof (induction arbitrary: k rule: seg_perm.induct)
  case (seg_perm_step ys i j)
  have l: "length ys = length xs" using seg_perm_step.hyps(1) by (rule seg_perm_length)
  show ?case
    using seg_perm_step.IH [of k] seg_perm_step.IH [of i] seg_perm_step.IH [of j] seg_perm_step.prems seg_perm_step.hyps l
    by (auto simp: nth_list_update)
qed auto

lemma exch_seg_perm:
  "a \<le> i \<Longrightarrow> i < b \<Longrightarrow> a \<le> j \<Longrightarrow> j < b \<Longrightarrow> b \<le> length xs \<Longrightarrow>
     \<exists>ys. exch xs i j = Inr ys \<and> seg_perm a b xs ys \<and> ys = xs[i := xs ! j, j := xs ! i]"
  by (auto simp: exch_def intro!: seg_perm_step)

lemma exch_block_spec:
  assumes "a + k \<le> b" "b + k \<le> length xs"
  shows "\<exists>ys. exch_block xs a b k = Inr ys \<and> seg_perm a (b + k) xs ys \<and>
    (\<forall>t. ys ! t = (if a \<le> t \<and> t < a + k then xs ! (t + (b - a))
                  else if b \<le> t \<and> t < b + k then xs ! (t - (b - a)) else xs ! t))"
  using assms
proof (induction k arbitrary: xs a b)
  case (Suc k)
  let ?xs = "xs[a := xs ! b, b := xs ! a]"
  have e: "exch xs a b = Inr ?xs" using Suc.prems by (simp add: exch_def)
  have "seg_perm a (b + Suc k) xs ?xs" using Suc.prems by (intro seg_perm_step) auto
  moreover obtain ys where ys: "exch_block ?xs (Suc a) (Suc b) k = Inr ys" "seg_perm (Suc a) (Suc b + k) ?xs ys"
    "\<forall>t. ys ! t = (if Suc a \<le> t \<and> t < Suc a + k then ?xs ! (t + (Suc b - Suc a))
                  else if Suc b \<le> t \<and> t < Suc b + k then ?xs ! (t - (Suc b - Suc a)) else ?xs ! t)"
    using Suc.IH [of "Suc a" "Suc b" ?xs] Suc.prems by auto
  moreover have "seg_perm a (b + Suc k) ?xs ys" using ys(2) by (rule seg_perm_mono) auto
  moreover have "ys ! t = (if a \<le> t \<and> t < a + Suc k then xs ! (t + (b - a))
                  else if b \<le> t \<and> t < b + Suc k then xs ! (t - (b - a)) else xs ! t)" for t
    using ys(3) [rule_format, of t] Suc.prems
    by (cases "t = b"; cases "t = a") (auto simp: nth_list_update)
  ultimately show ?case using e seg_perm_trans [of a "b + Suc k" ?xs ys xs] by simp
qed auto

end
