(* ===== verification/Exchange.thy ===== *)
theory Exchange
  imports Rqsort
begin

text \<open>
  The exchange functions of \<^verbatim>\<open>cutils.c\<close> on memory, and the choice that \<open>exchange_func\<close> makes among
  them. The memory is a block of bytes that starts at the address \<open>org\<close>; \<open>a\<close> and \<open>b\<close> are addresses.
  A \<open>uint16_t\<close>, \<open>uint32_t\<close> or \<open>uint64_t\<close> that the code loads and stores back is the list of its
  bytes, and such an access at an address that is not a multiple of its width is a fault, so
  the theorems also say that the choice respects the alignment of the array.
\<close>

section \<open>Definitions\<close>

definition ld :: "nat \<Rightarrow> u8 list \<Rightarrow> nat \<Rightarrow> nat \<Rightarrow> u8 list cres" where
  "ld org m w a =
     (if a mod w \<noteq> 0 then Inl Misaligned else if a < org then Inl OutOfBounds else rd_block m (a - org) w)"

definition st :: "nat \<Rightarrow> u8 list \<Rightarrow> nat \<Rightarrow> u8 list \<Rightarrow> u8 list cres" where
  "st org m a v =
     (if a mod length v \<noteq> 0 then Inl Misaligned else if a < org then Inl OutOfBounds else wr_block m (a - org) v)"

text \<open>\<open>t = *a; *a = *b; *b = t\<close> on variables of width \<open>w\<close>, and the loop that does it \<open>k\<close> times.\<close>

definition exchange_one :: "nat \<Rightarrow> nat \<Rightarrow> nat \<Rightarrow> nat \<Rightarrow> u8 list \<Rightarrow> u8 list cres" where
  "exchange_one w a b org m =
     cbind (ld org m w a) (\<lambda>t. cbind (ld org m w b) (\<lambda>u. cbind (st org m a u) (\<lambda>m. st org m b t)))"

fun exchange_loop :: "nat \<Rightarrow> nat \<Rightarrow> nat \<Rightarrow> nat \<Rightarrow> nat \<Rightarrow> u8 list \<Rightarrow> u8 list cres" where
  "exchange_loop w a b 0 org m = Inr m"
| "exchange_loop w a b (Suc k) org m =
     cbind (exchange_one w a b org m) (\<lambda>m. exchange_loop w (a + w) (b + w) k org m)"

type_synonym exchange_f = "nat \<Rightarrow> nat \<Rightarrow> nat \<Rightarrow> nat \<Rightarrow> u8 list \<Rightarrow> u8 list cres"

definition exchange_bytes :: exchange_f where
  "exchange_bytes a b sz org m = exchange_loop 1 a b sz org m"

definition exchange_one_byte :: exchange_f where
  "exchange_one_byte a b sz org m = exchange_one 1 a b org m"

definition exchange_int16s :: exchange_f where
  "exchange_int16s a b sz org m = exchange_loop 2 a b (sz div 2) org m"

definition exchange_one_int16 :: exchange_f where
  "exchange_one_int16 a b sz org m = exchange_one 2 a b org m"

definition exchange_int32s :: exchange_f where
  "exchange_int32s a b sz org m = exchange_loop 4 a b (sz div 4) org m"

definition exchange_one_int32 :: exchange_f where
  "exchange_one_int32 a b sz org m = exchange_one 4 a b org m"

definition exchange_int64s :: exchange_f where
  "exchange_int64s a b sz org m = exchange_loop 8 a b (sz div 8) org m"

definition exchange_one_int64 :: exchange_f where
  "exchange_one_int64 a b sz org m = exchange_one 8 a b org m"

text \<open>The two 64 bit halves of one 128 bit item: both are read before either is written.\<close>

definition exchange_pair :: "nat \<Rightarrow> nat \<Rightarrow> nat \<Rightarrow> u8 list \<Rightarrow> u8 list cres" where
  "exchange_pair a b org m =
     cbind (ld org m 8 a) (\<lambda>t. cbind (ld org m 8 (a + 8)) (\<lambda>u.
     cbind (ld org m 8 b) (\<lambda>v. cbind (st org m a v) (\<lambda>m.
     cbind (ld org m 8 (b + 8)) (\<lambda>v. cbind (st org m (a + 8) v) (\<lambda>m.
     cbind (st org m b t) (\<lambda>m. st org m (b + 8) u)))))))"

fun exchange_pairs :: "nat \<Rightarrow> nat \<Rightarrow> nat \<Rightarrow> nat \<Rightarrow> u8 list \<Rightarrow> u8 list cres" where
  "exchange_pairs a b 0 org m = Inr m"
| "exchange_pairs a b (Suc k) org m =
     cbind (exchange_pair a b org m) (\<lambda>m. exchange_pairs (a + 16) (b + 16) k org m)"

definition exchange_int128s :: exchange_f where
  "exchange_int128s a b sz org m = exchange_pairs a b (sz div (8 * 2)) org m"

definition exchange_one_int128 :: exchange_f where
  "exchange_one_int128 a b sz org m = exchange_pair a b org m"

definition exchange_func :: "nat \<Rightarrow> nat \<Rightarrow> exchange_f" where
  "exchange_func base sz =
     (let c = (base OR sz) AND 15 in
      if c = 0 then (if sz = 8 * 2 then exchange_one_int128 else exchange_int128s)
      else if c = 8 then (if sz = 8 then exchange_one_int64 else exchange_int64s)
      else if c = 4 \<or> c = 12 then (if sz = 4 then exchange_one_int32 else exchange_int32s)
      else if c = 2 \<or> c = 6 \<or> c = 10 \<or> c = 14 then (if sz = 2 then exchange_one_int16 else exchange_int16s)
      else (if sz = 1 then exchange_one_byte else exchange_bytes))"

section \<open>The effect on the bytes\<close>

definition swap_blocks :: "'a list \<Rightarrow> nat \<Rightarrow> nat \<Rightarrow> nat \<Rightarrow> 'a list" where
  "swap_blocks m a b n =
     map (\<lambda>t. if a \<le> t \<and> t < a + n then m ! (t - a + b) else if b \<le> t \<and> t < b + n then m ! (t - b + a) else m ! t)
       [0..<length m]"

lemma length_swap_blocks [simp]: "length (swap_blocks m a b n) = length m"
  by (simp add: swap_blocks_def)

lemma nth_swap_blocks [simp]:
  "t < length m \<Longrightarrow> swap_blocks m a b n ! t =
     (if a \<le> t \<and> t < a + n then m ! (t - a + b) else if b \<le> t \<and> t < b + n then m ! (t - b + a) else m ! t)"
  by (simp add: swap_blocks_def)

text \<open>Two blocks of \<open>n\<close> bytes that are the same block or do not overlap.\<close>

definition separate :: "nat \<Rightarrow> nat \<Rightarrow> nat \<Rightarrow> bool" where
  "separate a b n \<longleftrightarrow> a = b \<or> a + n \<le> b \<or> b + n \<le> a"

lemma swap_blocks_0 [simp]: "swap_blocks m a b 0 = m"
  by (rule nth_equalityI) auto

lemma swap_blocks_same [simp]: "swap_blocks m a a n = m"
  by (rule nth_equalityI) auto

lemma swap_blocks_commute: "separate a b n \<Longrightarrow> swap_blocks m a b n = swap_blocks m b a n"
  by (rule nth_equalityI) (auto simp: separate_def)

lemma swap_blocks_append_up:
  assumes "a + n + k \<le> b" "b + n + k \<le> length m"
  shows "swap_blocks (swap_blocks m a b n) (a + n) (b + n) k = swap_blocks m a b (n + k)"
proof (rule nth_equalityI)
  fix t assume "t < length (swap_blocks (swap_blocks m a b n) (a + n) (b + n) k)"
  then have t: "t < length m" by simp
  consider "t < a" | "a \<le> t" "t < a + n" | s where "t = a + n + s" "s < k" | "a + n + k \<le> t" "t < b"
    | "b \<le> t" "t < b + n" | s where "t = b + n + s" "s < k" | "b + n + k \<le> t"
    by (metis add_less_cancel_left le_add_diff_inverse not_le)
  then show "swap_blocks (swap_blocks m a b n) (a + n) (b + n) k ! t = swap_blocks m a b (n + k) ! t"
    by cases (use assms t in \<open>simp_all add: ac_simps\<close>)
qed simp

lemma swap_blocks_append:
  assumes "separate a b (n + k)" "a + n + k \<le> length m" "b + n + k \<le> length m"
  shows "swap_blocks (swap_blocks m a b n) (a + n) (b + n) k = swap_blocks m a b (n + k)"
proof -
  consider "a = b" | "a + n + k \<le> b" | "b + n + k \<le> a" using assms(1) by (auto simp: separate_def)
  then show ?thesis
  proof cases
    case 3
    then have "separate a b n" "separate (a + n) (b + n) k" by (auto simp: separate_def)
    then show ?thesis using 3 assms swap_blocks_append_up [of b n k a m]
      by (simp add: swap_blocks_commute [of a b] swap_blocks_commute [of "a + n" "b + n"])
  qed (use assms swap_blocks_append_up in simp_all)
qed

lemma nth_copy:
  assumes "a + n \<le> length m" "b + n \<le> length m'" "t < length m"
  shows "(take a m @ take n (drop b m') @ drop (a + n) m) ! t = (if a \<le> t \<and> t < a + n then m' ! (t - a + b) else m ! t)"
proof -
  consider "t < a" | s where "t = a + s" "s < n" | "a + n \<le> t"
    by (metis add_less_cancel_left le_add_diff_inverse not_le)
  then show ?thesis using assms by cases (auto simp: nth_append add.commute)
qed

lemma swap_by_copy:
  assumes "separate a b n" "a + n \<le> length m" "b + n \<le> length m" "m1 = take a m @ take n (drop b m) @ drop (a + n) m"
  shows "take b m1 @ take n (drop a m) @ drop (b + n) m1 = swap_blocks m a b n"
proof -
  have nth1: "m1 ! t = (if a \<le> t \<and> t < a + n then m ! (t - a + b) else m ! t)" if "t < length m" for t
    unfolding assms(4) using assms(2,3) that by (rule nth_copy)
  have len: "length m1 = length m" using assms by simp
  show ?thesis
  proof (rule nth_equalityI)
    fix t assume "t < length (take b m1 @ take n (drop a m) @ drop (b + n) m1)"
    then have t: "t < length m" using assms(2,3) len by simp
    have "(take b m1 @ take n (drop a m) @ drop (b + n) m1) ! t = (if b \<le> t \<and> t < b + n then m ! (t - b + a) else m1 ! t)"
      using assms(2,3) len t by (intro nth_copy) auto
    also have "\<dots> = swap_blocks m a b n ! t"
      using assms(1) t by (auto simp: nth1 separate_def)
    finally show "(take b m1 @ take n (drop a m) @ drop (b + n) m1) ! t = swap_blocks m a b n ! t" .
  qed (use assms(2,3) len in simp)
qed

lemma ld_in: "i = a - org \<Longrightarrow> a mod w = 0 \<Longrightarrow> org \<le> a \<Longrightarrow> i + w \<le> length m \<Longrightarrow> ld org m w a = Inr (take w (drop i m))"
  by (simp add: ld_def)

lemma st_in: "i = a - org \<Longrightarrow> length v = w \<Longrightarrow> a mod w = 0 \<Longrightarrow> org \<le> a \<Longrightarrow> i + w \<le> length m \<Longrightarrow>
    st org m a v = Inr (take i m @ v @ drop (i + w) m)"
  by (auto simp: st_def)

lemma exchange_one_swaps:
  assumes "separate a b w" "a mod w = 0" "b mod w = 0" "org \<le> a" "org \<le> b"
    "a - org + w \<le> length m" "b - org + w \<le> length m"
  shows "exchange_one w a b org m = Inr (swap_blocks m (a - org) (b - org) w)"
proof -
  define i j where "i = a - org" and "j = b - org"
  define m1 where "m1 = take i m @ take w (drop j m) @ drop (i + w) m"
  have ij: "i + w \<le> length m" "j + w \<le> length m" "separate i j w"
    using assms by (auto simp: i_def j_def separate_def)
  have len: "length m1 = length m" using ij(1,2) by (simp add: m1_def)
  have "ld org m w a = Inr (take w (drop i m))" "ld org m w b = Inr (take w (drop j m))"
    using assms ij by (auto intro: ld_in simp: i_def j_def)
  moreover have "st org m a (take w (drop j m)) = Inr m1"
    unfolding m1_def using assms ij by (intro st_in) (auto simp: i_def)
  moreover have "st org m1 b (take w (drop i m)) = Inr (take j m1 @ take w (drop i m) @ drop (j + w) m1)"
    using assms ij len by (intro st_in) (auto simp: j_def)
  ultimately show ?thesis
    using swap_by_copy [OF ij(3,1,2) m1_def] by (simp add: exchange_one_def i_def j_def)
qed

lemma exchange_loop_swaps:
  assumes "separate a b (w * k)" "a mod w = 0" "b mod w = 0" "org \<le> a" "org \<le> b"
    "a - org + w * k \<le> length m" "b - org + w * k \<le> length m"
  shows "exchange_loop w a b k org m = Inr (swap_blocks m (a - org) (b - org) (w * k))"
  using assms
proof (induction k arbitrary: a b m)
  case (Suc k)
  have s: "separate a b w" "separate (a + w) (b + w) (w * k)" "separate (a - org) (b - org) (w + w * k)"
    using Suc.prems by (auto simp: separate_def)
  have "exchange_one w a b org m = Inr (swap_blocks m (a - org) (b - org) w)"
    using Suc.prems s by (intro exchange_one_swaps) auto
  moreover have "exchange_loop w (a + w) (b + w) k org (swap_blocks m (a - org) (b - org) w) =
      Inr (swap_blocks (swap_blocks m (a - org) (b - org) w) (a + w - org) (b + w - org) (w * k))"
    using Suc.prems s by (intro Suc.IH) auto
  moreover have "a + w - org = a - org + w" "b + w - org = b - org + w" using Suc.prems by auto
  moreover have "swap_blocks (swap_blocks m (a - org) (b - org) w) (a - org + w) (b - org + w) (w * k) =
      swap_blocks m (a - org) (b - org) (w + w * k)"
    using Suc.prems by (intro swap_blocks_append [OF s(3)]) auto
  ultimately show ?case by (simp only: exchange_loop.simps cbind.simps mult_Suc_right)
qed simp

text \<open>A 128 bit item is two adjacent 64 bit ones.\<close>

lemma exchange_pair_swaps:
  assumes "separate a b 16" "a mod 8 = 0" "b mod 8 = 0" "org \<le> a" "org \<le> b"
    "a - org + 16 \<le> length m" "b - org + 16 \<le> length m"
  shows "exchange_pair a b org m = Inr (swap_blocks m (a - org) (b - org) 16)"
proof -
  define i j where "i = a - org" and "j = b - org"
  have ij: "i + 16 \<le> length m" "j + 16 \<le> length m" "separate i j 16" "i + 8 = a + 8 - org" "j + 8 = b + 8 - org"
    using assms by (auto simp: i_def j_def separate_def)
  define m1 where "m1 = take i m @ take 8 (drop j m) @ drop (i + 8) m"
  define m2 where "m2 = take (i + 8) m1 @ take 8 (drop (j + 8) m1) @ drop (i + 8 + 8) m1"
  define m3 where "m3 = take j m2 @ take 8 (drop i m) @ drop (j + 8) m2"
  define m4 where "m4 = take (j + 8) m3 @ take 8 (drop (i + 8) m) @ drop (j + 8 + 8) m3"
  have l1: "length m1 = length m" using ij(1,2) by (simp add: m1_def)
  then have l2: "length m2 = length m" using ij(1,2) by (simp add: m2_def)
  then have l3: "length m3 = length m" using ij(1,2) by (simp add: m3_def)
  then have "length m4 = length m" using ij(1,2) by (simp add: m4_def)
  note len = l1 l2 l3 this
  have mods: "(a + 8) mod 8 = 0" "(b + 8) mod 8 = 0" using assms by auto
  have "ld org m 8 a = Inr (take 8 (drop i m))" "ld org m 8 (a + 8) = Inr (take 8 (drop (i + 8) m))"
    "ld org m 8 b = Inr (take 8 (drop j m))" "ld org m1 8 (b + 8) = Inr (take 8 (drop (j + 8) m1))"
    using assms ij len mods by (auto intro!: ld_in simp: i_def j_def)
  moreover have "st org m a (take 8 (drop j m)) = Inr m1"
    unfolding m1_def using assms ij len by (intro st_in) (auto simp: i_def)
  moreover have "st org m1 (a + 8) (take 8 (drop (j + 8) m1)) = Inr m2"
    unfolding m2_def using assms ij len mods by (intro st_in) (auto simp: i_def)
  moreover have "st org m2 b (take 8 (drop i m)) = Inr m3"
    unfolding m3_def using assms ij len mods by (intro st_in) (auto simp: j_def)
  moreover have "st org m3 (b + 8) (take 8 (drop (i + 8) m)) = Inr m4"
    unfolding m4_def using assms ij len mods by (intro st_in) (auto simp: j_def)
  ultimately have ex: "exchange_pair a b org m = Inr m4" by (simp add: exchange_pair_def)
  have n1: "m1 ! t = (if i \<le> t \<and> t < i + 8 then m ! (t - i + j) else m ! t)" if "t < length m" for t
    unfolding m1_def using ij that by (intro nth_copy) auto
  have n2: "m2 ! t = (if i + 8 \<le> t \<and> t < i + 16 then m1 ! (t - i + j) else m1 ! t)" if "t < length m" for t
    using nth_copy [of "i + 8" 8 m1 "j + 8" m1 t] ij(1,2) that len by (auto simp: m2_def)
  have n3: "m3 ! t = (if j \<le> t \<and> t < j + 8 then m ! (t - j + i) else m2 ! t)" if "t < length m" for t
    unfolding m3_def using ij that len by (intro nth_copy) auto
  have n4: "m4 ! t = (if j + 8 \<le> t \<and> t < j + 16 then m ! (t - j + i) else m3 ! t)" if "t < length m" for t
    using nth_copy [of "j + 8" 8 m3 "i + 8" m t] ij(1,2) that len by (auto simp: m4_def)
  have "m4 = swap_blocks m i j 16"
  proof (rule nth_equalityI)
    fix t assume "t < length m4"
    then have t: "t < length m" using len by simp
    show "m4 ! t = swap_blocks m i j 16 ! t"
    proof (cases "i + 8 \<le> t \<and> t < i + 16")
      case True
      then show ?thesis using t ij(1-3) n1 [of "t - i + j"] by (auto simp: n1 n2 n3 n4 separate_def)
    next
      case False
      then show ?thesis using t ij(1-3) by (auto simp: n1 n2 n3 n4 separate_def)
    qed
  qed (use len in simp)
  then show ?thesis using ex by (simp add: i_def j_def)
qed

lemma exchange_pairs_swaps:
  assumes "separate a b (16 * k)" "a mod 8 = 0" "b mod 8 = 0" "org \<le> a" "org \<le> b"
    "a - org + 16 * k \<le> length m" "b - org + 16 * k \<le> length m"
  shows "exchange_pairs a b k org m = Inr (swap_blocks m (a - org) (b - org) (16 * k))"
  using assms
proof (induction k arbitrary: a b m)
  case (Suc k)
  have s: "separate a b 16" "separate (a + 16) (b + 16) (16 * k)" "separate (a - org) (b - org) (16 + 16 * k)"
    using Suc.prems by (auto simp: separate_def)
  have md: "(a + 16) mod 8 = 0" "(b + 16) mod 8 = 0" using Suc.prems(2,3) by presburger+
  have "exchange_pair a b org m = Inr (swap_blocks m (a - org) (b - org) 16)"
    using Suc.prems s by (intro exchange_pair_swaps) auto
  moreover have "exchange_pairs (a + 16) (b + 16) k org (swap_blocks m (a - org) (b - org) 16) =
      Inr (swap_blocks (swap_blocks m (a - org) (b - org) 16) (a + 16 - org) (b + 16 - org) (16 * k))"
    using Suc.prems s md by (intro Suc.IH) auto
  moreover have "a + 16 - org = a - org + 16" "b + 16 - org = b - org + 16" using Suc.prems by auto
  moreover have "swap_blocks (swap_blocks m (a - org) (b - org) 16) (a - org + 16) (b - org + 16) (16 * k) =
      swap_blocks m (a - org) (b - org) (16 + 16 * k)"
    using Suc.prems by (intro swap_blocks_append [OF s(3)]) auto
  ultimately show ?case by (simp only: exchange_pairs.simps cbind.simps mult_Suc_right)
qed simp

section \<open>The choice respects size and alignment\<close>

lemma and_15: "x AND 15 = take_bit 4 (x :: nat)"
  by (simp add: take_bit_eq_mask mask_eq_exp_minus_1)

lemma or_low_bits:
  fixes x y :: nat
  assumes "((x OR y) AND 15) mod 2 ^ k = 0" "k \<le> 4"
  shows "2 ^ k dvd x \<and> 2 ^ k dvd y"
proof -
  have "take_bit k (take_bit 4 (x OR y)) = 0" using assms(1) by (simp add: take_bit_eq_mod and_15)
  then have "take_bit k x OR take_bit k y = 0" using assms(2) by (simp add: min_def)
  then have "take_bit k x = 0" "take_bit k y = 0" by (simp_all add: or_eq_0_iff)
  then show ?thesis by (simp_all add: take_bit_eq_mod mod_eq_0_iff_dvd)
qed

lemma or_128_low: "(x OR (s OR 128)) AND 15 = (x OR s) AND (15 :: nat)"
proof -
  have "take_bit 4 (x OR (s OR 128)) = take_bit 4 x OR (take_bit 4 s OR take_bit 4 (128 :: nat))" by simp
  moreover have "take_bit 4 (128 :: nat) = 0" by (simp add: take_bit_eq_mod)
  ultimately show ?thesis by (simp only: and_15 take_bit_or or.right_neutral)
qed

lemma or_128_ge: "128 \<le> s OR (128 :: nat)"
proof (rule ccontr)
  assume "\<not> 128 \<le> s OR (128 :: nat)"
  then have "take_bit 7 (s OR 128) = s OR (128 :: nat)" by (intro take_bit_nat_eq_self) simp
  then have "bit (take_bit 7 (s OR (128 :: nat))) 7 \<longleftrightarrow> bit (s OR (128 :: nat)) 7" by (simp only:)
  moreover have "bit (128 :: nat) 7" by (simp add: bit_iff_odd)
  ultimately show False by (simp add: bit_take_bit_iff bit_or_iff)
qed

text \<open>
  \<open>n\<close> is the number of bytes to exchange: the element size for \<open>swap\<close>, a multiple of it for
  \<open>swap_block\<close>. The addresses are those of array elements.
\<close>

lemma exchange_func_swaps:
  assumes sel: "sz' = sz \<and> n = sz \<or> sz' = sz OR 128 \<and> sz dvd n" and pos: "0 < sz"
    and ab: "sz dvd a - base" "sz dvd b - base" "base \<le> a" "base \<le> b" "org \<le> base"
    and sep: "separate a b n" "a - org + n \<le> length m" "b - org + n \<le> length m"
  shows "exchange_func base sz' a b n org m = Inr (swap_blocks m (a - org) (b - org) n)"
proof -
  define c where "c = (base OR sz) AND (15 :: nat)"
  have c': "(base OR sz') AND 15 = c" using sel or_128_low [of base sz] by (auto simp: c_def)
  have one: "sz' = sz \<and> n = sz" if "sz' < 128" using sel that or_128_ge [of sz] by auto
  have dn: "sz dvd n" using sel by auto
  have org: "org \<le> a" "org \<le> b" using ab by auto
  have al: "a mod w = 0 \<and> b mod w = 0 \<and> w dvd n" if "w dvd base" "w dvd sz" for w
  proof -
    have "w dvd a - base" "w dvd b - base" "w dvd n" using that ab dn dvd_trans by blast+
    then have "w dvd (a - base) + base" "w dvd (b - base) + base" using that by (auto intro: dvd_add)
    then show ?thesis using ab \<open>w dvd n\<close> by (auto simp: mod_eq_0_iff_dvd)
  qed
  have al2: "a mod 2 ^ k = 0 \<and> b mod 2 ^ k = 0 \<and> 2 ^ k dvd n" if "c mod 2 ^ k = 0" "k \<le> 4" for k
    using al or_low_bits [of base sz k] that by (auto simp: c_def)
  have loop: "exchange_loop w a b (n div w) org m = Inr (swap_blocks m (a - org) (b - org) n)"
    if "a mod w = 0" "b mod w = 0" "w dvd n" for w
    using that sep org exchange_loop_swaps [of a b w "n div w" org m] by simp
  have single: "exchange_one w a b org m = Inr (swap_blocks m (a - org) (b - org) n)"
    if "a mod w = 0" "b mod w = 0" "n = w" for w
    using that sep org exchange_one_swaps [of a b w org m] by simp
  note defs = exchange_func_def Let_def c'
  consider "c = 0" | "c = 8" | "c = 4 \<or> c = 12" | "c = 2 \<or> c = 6 \<or> c = 10 \<or> c = 14"
    | "c \<noteq> 0" "c \<noteq> 8" "c \<noteq> 4" "c \<noteq> 12" "c \<noteq> 2" "c \<noteq> 6" "c \<noteq> 10" "c \<noteq> 14" by blast
  then show ?thesis
  proof cases
    case 1
    then have k: "a mod 16 = 0" "b mod 16 = 0" "16 dvd n" using al2 [of 4] by auto
    then have "a mod 8 = 0" "b mod 8 = 0" by presburger+
    then show ?thesis
      using 1 k one sep org exchange_pairs_swaps [of a b "n div 16" org m] exchange_pair_swaps [of a b org m]
      by (auto simp: defs exchange_one_int128_def exchange_int128s_def)
  next
    case 2
    then have "a mod 8 = 0" "b mod 8 = 0" "8 dvd n" using al2 [of 3] by auto
    then show ?thesis using 2 one loop [of 8] single [of 8] by (auto simp: defs exchange_one_int64_def exchange_int64s_def)
  next
    case 3
    then have "a mod 4 = 0" "b mod 4 = 0" "4 dvd n" using al2 [of 2] by auto
    then show ?thesis using 3 one loop [of 4] single [of 4] by (auto simp: defs exchange_one_int32_def exchange_int32s_def)
  next
    case 4
    then have "a mod 2 = 0" "b mod 2 = 0" "2 dvd n" using al2 [of 1] by auto
    then show ?thesis using 4 one loop [of 2] single [of 2] by (auto simp: defs exchange_one_int16_def exchange_int16s_def)
  next
    case 5
    then show ?thesis using one loop [of 1] single [of 1] by (auto simp: defs exchange_one_byte_def exchange_bytes_def)
  qed
qed

section \<open>Elements\<close>

text \<open>An array of elements of \<open>sz\<close> bytes each is the concatenation of their representations.\<close>

lemma length_concat_uniform: "\<forall>e \<in> set es. length e = sz \<Longrightarrow> length (concat es) = length es * sz"
  by (induction es) auto

lemma nth_concat_uniform:
  "\<forall>e \<in> set es. length e = sz \<Longrightarrow> t < length es * sz \<Longrightarrow> concat es ! t = es ! (t div sz) ! (t mod sz)"
proof (induction es arbitrary: t)
  case (Cons e es)
  show ?case
  proof (cases "t < sz")
    case False
    then obtain s where s: "t = sz + s" by (metis le_add_diff_inverse not_le)
    then have "0 < sz" using Cons.prems(2) by (cases sz) auto
    then have "(sz + s) div sz = Suc (s div sz)" by (simp add: div_add_self1)
    then show ?thesis using Cons s by (simp add: nth_append)
  qed (use Cons.prems in \<open>simp add: nth_append\<close>)
qed simp

lemma div_range: "0 < sz \<Longrightarrow> i * sz \<le> t \<and> t < i * sz + k * sz \<longleftrightarrow> i \<le> t div sz \<and> t div sz < i + (k :: nat)"
  by (simp add: add_mult_distrib [symmetric] less_eq_div_iff_mult_less_eq div_less_iff_less_mult)

lemma shift_div_mod:
  assumes "0 < sz" "i * sz \<le> (t :: nat)"
  shows "(t - i * sz + j * sz) div sz = t div sz - i + j \<and> (t - i * sz + j * sz) mod sz = t mod sz"
proof -
  obtain s where "t = i * sz + s" using assms(2) by (metis le_add_diff_inverse)
  then show ?thesis using assms(1) by simp
qed

lemma swap_blocks_concat:
  assumes u: "\<forall>e \<in> set es. length e = sz" and "0 < sz" "i + k \<le> length es" "j + k \<le> length es"
  shows "swap_blocks (concat es) (i * sz) (j * sz) (k * sz) = concat (swap_blocks es i j k)"
proof -
  let ?es = "swap_blocks es i j k"
  have "?es ! t \<in> set es" if "t < length es" for t using that assms(3,4) by auto
  then have u': "\<forall>e \<in> set ?es. length e = sz" using u by (metis in_set_conv_nth length_swap_blocks)
  show ?thesis
  proof (rule nth_equalityI)
    show len: "length (swap_blocks (concat es) (i * sz) (j * sz) (k * sz)) = length (concat ?es)"
      using length_concat_uniform [OF u] length_concat_uniform [OF u'] by simp
    fix t assume "t < length (swap_blocks (concat es) (i * sz) (j * sz) (k * sz))"
    then have t: "t < length es * sz" using length_concat_uniform [OF u] by simp
    then have q: "t div sz < length es" by (simp add: less_mult_imp_div_less)
    have nth: "concat es ! s = es ! (s div sz) ! (s mod sz)" if "s div sz < length es" for s
      using nth_concat_uniform [OF u, of s] that assms(2) by (simp add: div_less_iff_less_mult)
    have r: "concat ?es ! t = ?es ! (t div sz) ! (t mod sz)" using nth_concat_uniform [OF u', of t] t by simp
    have l: "swap_blocks (concat es) (i * sz) (j * sz) (k * sz) ! t =
      (if i \<le> t div sz \<and> t div sz < i + k then concat es ! (t - i * sz + j * sz)
       else if j \<le> t div sz \<and> t div sz < j + k then concat es ! (t - j * sz + i * sz) else concat es ! t)"
      using t length_concat_uniform [OF u] by (simp add: div_range [OF assms(2), symmetric])
    show "swap_blocks (concat es) (i * sz) (j * sz) (k * sz) ! t = concat ?es ! t"
    proof (cases "i \<le> t div sz \<and> t div sz < i + k")
      case True
      then have "i * sz \<le> t" "t div sz - i + j < length es"
        using div_range [OF assms(2), of i t k] assms(3,4) by auto
      then show ?thesis using True q assms(3,4) shift_div_mod [OF assms(2), of i t j] nth [of "t - i * sz + j * sz"] by (simp add: l r)
    next
      case i: False
      show ?thesis
      proof (cases "j \<le> t div sz \<and> t div sz < j + k")
        case True
        then have "j * sz \<le> t" "t div sz - j + i < length es"
          using div_range [OF assms(2), of j t k] assms(3,4) by auto
        then show ?thesis using i True q assms(3,4) shift_div_mod [OF assms(2), of j t i] nth [of "t - j * sz + i * sz"] by (auto simp: l r)
      next
        case False
        then show ?thesis using i q nth [of t] by (auto simp: l r)
      qed
    qed
  qed
qed

lemma exch_swap_blocks: "i < length es \<Longrightarrow> j < length es \<Longrightarrow> exch es i j = Inr (swap_blocks es i j 1)"
  by (auto simp: exch_def nth_list_update intro!: nth_equalityI)

lemma exch_block_swap_blocks:
  assumes "a + k \<le> b" "b + k \<le> length es"
  shows "exch_block es a b k = Inr (swap_blocks es a b k)"
proof -
  obtain ys where y: "exch_block es a b k = Inr ys" "seg_perm a (b + k) es ys"
    "\<forall>t. ys ! t = (if a \<le> t \<and> t < a + k then es ! (t + (b - a))
                  else if b \<le> t \<and> t < b + k then es ! (t - (b - a)) else es ! t)"
    using exch_block_spec [OF assms] by blast
  have "ys = swap_blocks es a b k"
    using y(3) seg_perm_length [OF y(2)] assms by (intro nth_equalityI) auto
  then show ?thesis using y(1) by simp
qed

text \<open>
  C3. The byte-level exchanges refine the exchange of elements that \<open>rqsort\<close> works with: for every
  element size and every base address, the function \<open>exchange_func\<close> picks for \<open>swap\<close> exchanges
  elements \<open>i\<close> and \<open>j\<close> (possibly equal) of the array, and the one picked for \<open>swap_block\<close>, with the
  size argument \<open>size | 128\<close>, exchanges two disjoint runs of \<open>k\<close> elements; neither leaves the array
  nor makes a misaligned access.
\<close>

theorem exchange_func_refines:
  assumes "\<forall>e \<in> set es. length e = sz" "0 < sz" "i < length es" "j < length es" "a + k \<le> b" "b + k \<le> length es"
  shows "exchange_func base sz (base + i * sz) (base + j * sz) sz base (concat es) = map_sum id concat (exch es i j) \<and>
    exchange_func base (sz OR 128) (base + a * sz) (base + b * sz) (k * sz) base (concat es) =
      map_sum id concat (exch_block es a b k)"
proof
  note len = length_concat_uniform [OF assms(1)]
  have m: "n * sz + k * sz \<le> length es * sz" if "n + k \<le> length es" for n k
    using mult_le_mono1 [OF that, of sz] by (simp add: add_mult_distrib)
  have sep: "separate (base + n * sz) (base + n' * sz) (k * sz)" if "n = n' \<or> n + k \<le> n' \<or> n' + k \<le> n" for n n' k
    using that mult_le_mono1 [of "n + k" n' sz] mult_le_mono1 [of "n' + k" n sz]
    by (auto simp: separate_def add_mult_distrib)
  have "separate (base + i * sz) (base + j * sz) (1 * sz)" by (rule sep) linarith
  then have "exchange_func base sz (base + i * sz) (base + j * sz) sz base (concat es) =
      Inr (swap_blocks (concat es) (i * sz) (j * sz) (1 * sz))"
    using exchange_func_swaps [of sz sz sz "base + i * sz" base "base + j * sz" base "concat es"]
      assms m [of i 1] m [of j 1] len by auto
  then show "exchange_func base sz (base + i * sz) (base + j * sz) sz base (concat es) = map_sum id concat (exch es i j)"
    using swap_blocks_concat [OF assms(1,2), of i 1 j] assms by (simp add: exch_swap_blocks)
  have "exchange_func base (sz OR 128) (base + a * sz) (base + b * sz) (k * sz) base (concat es) =
      Inr (swap_blocks (concat es) (a * sz) (b * sz) (k * sz))"
    using exchange_func_swaps [of "sz OR 128" sz "k * sz" "base + a * sz" base "base + b * sz" base "concat es"]
      assms m [of a k] m [of b k] sep [of a b k] len by auto
  then show "exchange_func base (sz OR 128) (base + a * sz) (base + b * sz) (k * sz) base (concat es) =
      map_sum id concat (exch_block es a b k)"
    using swap_blocks_concat [OF assms(1,2), of a k b] assms by (simp add: exch_block_swap_blocks)
qed

theorem exchange_func_refines_witness:
  "exchange_func 20 4 (20 + 2 * 4) (20 + 0 * 4) 4 20 (concat [[1, 2, 3, 4], [5, 6, 7, 8], [9, 10, 11, 12]]) =
     map_sum id concat (exch [[1, 2, 3, 4], [5, 6, 7, 8], [9, 10, 11, 12]] 2 0) \<and>
   exchange_func 20 (4 OR 128) (20 + 0 * 4) (20 + 1 * 4) (1 * 4) 20 (concat [[1, 2, 3, 4], [5, 6, 7, 8], [9, 10, 11, 12]]) =
     map_sum id concat (exch_block [[1, 2, 3, 4], [5, 6, 7, 8], [9, 10, 11, 12]] 0 1 1)"
  by (rule exchange_func_refines) simp_all

end
