(* ===== verification/List_Head.thy ===== *)
theory List_Head
  imports Prelude
begin

text \<open>
  The intrusive circular lists of \<^verbatim>\<open>list.h\<close>. The heap maps addresses to \<open>struct list_head\<close> nodes,
  address 0 is \<open>NULL\<close>, and an access through \<open>NULL\<close> or through an address with no node is a fault.
  \<open>is_list h head xs\<close> relates a heap to the list of the addresses of its elements; every
  operation refines the corresponding operation on that list and leaves all other nodes alone.
\<close>

section \<open>Definitions\<close>

record list_head =
  lh_prev :: nat
  lh_next :: nat

type_synonym lheap = "nat \<rightharpoonup> list_head"

definition node :: "lheap \<Rightarrow> nat \<Rightarrow> list_head cres" where
  "node h p = (if p = 0 then Inl NullDeref else case h p of None \<Rightarrow> Inl OutOfBounds | Some n \<Rightarrow> Inr n)"

definition set_prev :: "lheap \<Rightarrow> nat \<Rightarrow> nat \<Rightarrow> lheap cres" where
  "set_prev h p v = cbind (node h p) (\<lambda>n. Inr (h(p \<mapsto> n\<lparr>lh_prev := v\<rparr>)))"

definition set_next :: "lheap \<Rightarrow> nat \<Rightarrow> nat \<Rightarrow> lheap cres" where
  "set_next h p v = cbind (node h p) (\<lambda>n. Inr (h(p \<mapsto> n\<lparr>lh_next := v\<rparr>)))"

definition init_list_head :: "lheap \<Rightarrow> nat \<Rightarrow> lheap cres" where
  "init_list_head h head = cbind (set_prev h head head) (\<lambda>h. set_next h head head)"

definition list_add_between :: "lheap \<Rightarrow> nat \<Rightarrow> nat \<Rightarrow> nat \<Rightarrow> lheap cres" where
  "list_add_between h el prev next =
     cbind (set_next h prev el) (\<lambda>h.
     cbind (set_prev h el prev) (\<lambda>h.
     cbind (set_next h el next) (\<lambda>h. set_prev h next el)))"

definition list_add :: "lheap \<Rightarrow> nat \<Rightarrow> nat \<Rightarrow> lheap cres" where
  "list_add h el head = cbind (node h head) (\<lambda>n. list_add_between h el head (lh_next n))"

definition list_add_tail :: "lheap \<Rightarrow> nat \<Rightarrow> nat \<Rightarrow> lheap cres" where
  "list_add_tail h el head = cbind (node h head) (\<lambda>n. list_add_between h el (lh_prev n) head)"

definition list_del :: "lheap \<Rightarrow> nat \<Rightarrow> lheap cres" where
  "list_del h el =
     cbind (node h el) (\<lambda>n. let prev = lh_prev n; next = lh_next n in
     cbind (set_next h prev next) (\<lambda>h.
     cbind (set_prev h next prev) (\<lambda>h.
     cbind (set_prev h el 0) (\<lambda>h. set_next h el 0))))"

definition list_empty :: "lheap \<Rightarrow> nat \<Rightarrow> bool cres" where
  "list_empty h el = cbind (node h el) (\<lambda>n. Inr (lh_next n = el))"

text \<open>
  The iteration macros with a loop body that works on the heap and a state of its own. \<open>None\<close> is
  a loop that is still running after \<open>fuel\<close> turns; \<open>forward\<close> selects \<open>next\<close> or \<open>prev\<close>.
\<close>

definition follow :: "bool \<Rightarrow> list_head \<Rightarrow> nat" where
  "follow forward n = (if forward then lh_next n else lh_prev n)"

type_synonym 's body = "lheap \<Rightarrow> 's \<Rightarrow> nat \<Rightarrow> (lheap \<times> 's) cres"

fun for_each_from :: "nat \<Rightarrow> bool \<Rightarrow> 's body \<Rightarrow> nat \<Rightarrow> nat \<Rightarrow> lheap \<Rightarrow> 's \<Rightarrow> (lheap \<times> 's) cres option" where
  "for_each_from 0 forward f head el h s = None"
| "for_each_from (Suc fuel) forward f head el h s =
     (if el = head then Some (Inr (h, s))
      else case f h s el of
        Inl e \<Rightarrow> Some (Inl e)
      | Inr (h, s) \<Rightarrow>
          (case node h el of Inl e \<Rightarrow> Some (Inl e) | Inr n \<Rightarrow> for_each_from fuel forward f head (follow forward n) h s))"

definition list_for_each :: "nat \<Rightarrow> 's body \<Rightarrow> nat \<Rightarrow> lheap \<Rightarrow> 's \<Rightarrow> (lheap \<times> 's) cres option" where
  "list_for_each fuel f head h s =
     (case node h head of Inl e \<Rightarrow> Some (Inl e) | Inr n \<Rightarrow> for_each_from fuel True f head (lh_next n) h s)"

definition list_for_each_prev :: "nat \<Rightarrow> 's body \<Rightarrow> nat \<Rightarrow> lheap \<Rightarrow> 's \<Rightarrow> (lheap \<times> 's) cres option" where
  "list_for_each_prev fuel f head h s =
     (case node h head of Inl e \<Rightarrow> Some (Inl e) | Inr n \<Rightarrow> for_each_from fuel False f head (lh_prev n) h s)"

fun for_each_safe_from :: "nat \<Rightarrow> bool \<Rightarrow> 's body \<Rightarrow> nat \<Rightarrow> nat \<Rightarrow> nat \<Rightarrow> lheap \<Rightarrow> 's \<Rightarrow> (lheap \<times> 's) cres option" where
  "for_each_safe_from 0 forward f head el el1 h s = None"
| "for_each_safe_from (Suc fuel) forward f head el el1 h s =
     (if el = head then Some (Inr (h, s))
      else case f h s el of
        Inl e \<Rightarrow> Some (Inl e)
      | Inr (h, s) \<Rightarrow>
          (case node h el1 of Inl e \<Rightarrow> Some (Inl e)
           | Inr n \<Rightarrow> for_each_safe_from fuel forward f head el1 (follow forward n) h s))"

definition for_each_safe :: "bool \<Rightarrow> nat \<Rightarrow> 's body \<Rightarrow> nat \<Rightarrow> lheap \<Rightarrow> 's \<Rightarrow> (lheap \<times> 's) cres option" where
  "for_each_safe forward fuel f head h s =
     (case node h head of Inl e \<Rightarrow> Some (Inl e)
      | Inr n \<Rightarrow> (case node h (follow forward n) of Inl e \<Rightarrow> Some (Inl e)
        | Inr n1 \<Rightarrow> for_each_safe_from fuel forward f head (follow forward n) (follow forward n1) h s))"

definition list_for_each_safe :: "nat \<Rightarrow> 's body \<Rightarrow> nat \<Rightarrow> lheap \<Rightarrow> 's \<Rightarrow> (lheap \<times> 's) cres option" where
  "list_for_each_safe fuel f head h s = for_each_safe True fuel f head h s"

definition list_for_each_prev_safe :: "nat \<Rightarrow> 's body \<Rightarrow> nat \<Rightarrow> lheap \<Rightarrow> 's \<Rightarrow> (lheap \<times> 's) cres option" where
  "list_for_each_prev_safe fuel f head h s = for_each_safe False fuel f head h s"

section \<open>Heaps that hold a list\<close>

text \<open>
  Two nodes are linked when \<open>next\<close> leads from the first to the second and \<open>prev\<close> leads back; a list
  is a cycle of linked nodes through its head.
\<close>

definition linked :: "lheap \<Rightarrow> nat \<Rightarrow> nat \<Rightarrow> bool" where
  "linked h a b \<longleftrightarrow> map_option lh_next (h a) = Some b \<and> map_option lh_prev (h b) = Some a"

abbreviation chain :: "lheap \<Rightarrow> nat list \<Rightarrow> bool" where
  "chain h \<equiv> successively (linked h)"

definition is_list :: "lheap \<Rightarrow> nat \<Rightarrow> nat list \<Rightarrow> bool" where
  "is_list h head xs \<longleftrightarrow> distinct (head # xs) \<and> 0 \<notin> set (head # xs) \<and> chain h (head # xs @ [head])"

lemma not_in_butlast_last: "distinct L \<Longrightarrow> L \<noteq> [] \<Longrightarrow> last L \<notin> set (butlast L)"
  by (induction L rule: rev_induct) auto

lemma chain_frame:
  "chain h L \<Longrightarrow> \<forall>p \<in> set (butlast L). map_option lh_next (h' p) = map_option lh_next (h p) \<Longrightarrow>
     \<forall>p \<in> set (tl L). map_option lh_prev (h' p) = map_option lh_prev (h p) \<Longrightarrow> chain h' L"
proof (induction L rule: induct_list012)
  case (3 x y zs)
  then show ?case by (cases zs) (auto simp: linked_def)
qed auto

lemma chain_keep:
  assumes "chain h L"
    and n: "\<forall>p. p \<noteq> a \<longrightarrow> p \<noteq> el \<longrightarrow> map_option lh_next (h' p) = map_option lh_next (h p)"
    and p: "\<forall>p. p \<noteq> b \<longrightarrow> p \<noteq> el \<longrightarrow> map_option lh_prev (h' p) = map_option lh_prev (h p)"
    and "a \<notin> set (butlast L)" "b \<notin> set (tl L)" "el \<notin> set L"
  shows "chain h' L"
proof (rule chain_frame [OF assms(1)])
  show "\<forall>q \<in> set (butlast L). map_option lh_next (h' q) = map_option lh_next (h q)"
    using n assms(4,6) in_set_butlastD by metis
  have "el \<notin> set (tl L)" using assms(6) by (cases L) auto
  then show "\<forall>q \<in> set (tl L). map_option lh_prev (h' q) = map_option lh_prev (h q)" using p assms(5) by metis
qed

text \<open>The cycle cut at any place.\<close>

lemma is_list_split:
  "is_list h head (xs @ ys) \<longleftrightarrow> distinct (head # xs @ ys) \<and> 0 \<notin> set (head # xs @ ys) \<and>
     chain h (head # xs) \<and> chain h (ys @ [head]) \<and> linked h (last (head # xs)) (hd (ys @ [head]))"
  using successively_append_iff [of "linked h" "head # xs" "ys @ [head]"] by (auto simp: is_list_def)

lemma node_Some: "p \<noteq> 0 \<Longrightarrow> h p = Some n \<Longrightarrow> node h p = Inr n"
  by (simp add: node_def)

lemma list_add_between_linked:
  assumes l: "linked h a b" and n: "a \<noteq> 0" "b \<noteq> 0" "el \<noteq> 0" "el \<noteq> a" "el \<noteq> b" "h el \<noteq> None"
  shows "\<exists>h'. list_add_between h el a b = Inr h' \<and> linked h' a el \<and> linked h' el b \<and>
    (\<forall>p. p \<noteq> a \<longrightarrow> p \<noteq> el \<longrightarrow> map_option lh_next (h' p) = map_option lh_next (h p)) \<and>
    (\<forall>p. p \<noteq> b \<longrightarrow> p \<noteq> el \<longrightarrow> map_option lh_prev (h' p) = map_option lh_prev (h p)) \<and>
    (\<forall>p. p \<notin> {a, b, el} \<longrightarrow> h' p = h p)"
proof -
  from l n(6) obtain na nb ne where *: "h a = Some na" "h b = Some nb" "h el = Some ne"
    by (auto simp: linked_def)
  show ?thesis
    using * n l by (cases "a = b") (auto simp: list_add_between_def set_next_def set_prev_def node_Some linked_def)
qed

lemma list_insert:
  assumes l: "is_list h head (xs @ ys)" and el: "el \<noteq> 0" "h el \<noteq> None" "el \<notin> set (head # xs @ ys)"
  shows "\<exists>h'. list_add_between h el (last (head # xs)) (hd (ys @ [head])) = Inr h' \<and>
    is_list h' head (xs @ el # ys) \<and> (\<forall>p. p \<notin> set (el # head # xs @ ys) \<longrightarrow> h' p = h p)"
proof -
  define a b where "a = last (head # xs)" and "b = hd (ys @ [head])"
  have s: "distinct (head # xs @ ys)" "0 \<notin> set (head # xs @ ys)" "chain h (head # xs)" "chain h (ys @ [head])" "linked h a b"
    using l by (auto simp: is_list_split a_def b_def)
  have ab: "a \<in> set (head # xs)" "b \<in> set (ys @ [head])" using last_in_set [of "head # xs"] by (auto simp: a_def b_def hd_append)
  have "a \<in> set (head # xs @ ys)" "b \<in> set (head # xs @ ys)" using ab by auto
  then have ne: "a \<noteq> 0" "b \<noteq> 0" "el \<noteq> a" "el \<noteq> b" using s(2) el(3) by metis+
  obtain h' where h': "list_add_between h el a b = Inr h'" "linked h' a el" "linked h' el b"
    "\<forall>p. p \<noteq> a \<longrightarrow> p \<noteq> el \<longrightarrow> map_option lh_next (h' p) = map_option lh_next (h p)"
    "\<forall>p. p \<noteq> b \<longrightarrow> p \<noteq> el \<longrightarrow> map_option lh_prev (h' p) = map_option lh_prev (h p)"
    "\<forall>p. p \<notin> {a, b, el} \<longrightarrow> h' p = h p"
    using list_add_between_linked [OF s(5) ne(1,2) el(1) ne(3,4) el(2)] by blast
  have a: "a \<notin> set (butlast (head # xs))" "a \<notin> set ys"
    using s(1) ab not_in_butlast_last [of "head # xs"] by (auto simp: a_def)
  have b: "b \<notin> set xs" "b \<notin> set (tl (ys @ [head]))" using s(1) ab by (cases ys; auto simp: b_def)+
  have "chain h' (head # xs)"
    using el(3) a(1) b(1) by (intro chain_keep [OF s(3) h'(4,5)]) auto
  moreover have "chain h' (ys @ [head])"
    using el(3) a(2) b(2) by (intro chain_keep [OF s(4) h'(4,5)]) auto
  ultimately have "is_list h' head (xs @ el # ys)"
    using h'(2,3) s(1,2) el(1,3) is_list_split [of h' head xs "el # ys"] by (auto simp: a_def b_def successively_Cons)
  moreover have "{a, b, el} \<subseteq> set (el # head # xs @ ys)" using ab by auto
  ultimately show ?thesis unfolding a_def [symmetric] b_def [symmetric] using h'(1,6) by blast
qed

section \<open>The operations\<close>

lemma is_list_ends:
  assumes "is_list h head xs"
  shows "\<exists>n. node h head = Inr n \<and> lh_next n = hd (xs @ [head]) \<and> lh_prev n = last (head # xs)"
proof -
  have "linked h head (hd (xs @ [head]))" "linked h (last (head # xs)) head" "head \<noteq> 0"
    using assms is_list_split [of h head "[]" xs] is_list_split [of h head xs "[]"] by auto
  then show ?thesis by (auto simp: linked_def node_def)
qed

lemma init_list_head_spec:
  "head \<noteq> 0 \<Longrightarrow> h head \<noteq> None \<Longrightarrow>
     \<exists>h'. init_list_head h head = Inr h' \<and> is_list h' head [] \<and> (\<forall>p. p \<noteq> head \<longrightarrow> h' p = h p)"
  by (auto simp: init_list_head_def set_prev_def set_next_def node_def is_list_def linked_def)

lemma list_add_spec:
  assumes "is_list h head xs" "el \<noteq> 0" "h el \<noteq> None" "el \<notin> set (head # xs)"
  shows "\<exists>h'. list_add h el head = Inr h' \<and> is_list h' head (el # xs) \<and> (\<forall>p. p \<notin> set (el # head # xs) \<longrightarrow> h' p = h p)"
  using list_insert [of h head "[]" xs el] is_list_ends [OF assms(1)] assms by (auto simp: list_add_def)

lemma list_add_tail_spec:
  assumes "is_list h head xs" "el \<noteq> 0" "h el \<noteq> None" "el \<notin> set (head # xs)"
  shows "\<exists>h'. list_add_tail h el head = Inr h' \<and> is_list h' head (xs @ [el]) \<and> (\<forall>p. p \<notin> set (el # head # xs) \<longrightarrow> h' p = h p)"
  using list_insert [of h head xs "[]" el] is_list_ends [OF assms(1)] assms by (auto simp: list_add_tail_def)

lemma list_empty_spec: "is_list h head xs \<Longrightarrow> list_empty h head = Inr (xs = [])"
  using is_list_ends [of h head xs] by (cases xs) (auto simp: list_empty_def is_list_def)

lemma list_del_linked:
  assumes l: "linked h a el" "linked h el b" and n: "a \<noteq> 0" "b \<noteq> 0" "el \<noteq> 0" "el \<noteq> a" "el \<noteq> b"
  shows "\<exists>h'. list_del h el = Inr h' \<and> linked h' a b \<and> h' el = Some \<lparr>lh_prev = 0, lh_next = 0\<rparr> \<and>
    (\<forall>p. p \<noteq> a \<longrightarrow> p \<noteq> el \<longrightarrow> map_option lh_next (h' p) = map_option lh_next (h p)) \<and>
    (\<forall>p. p \<noteq> b \<longrightarrow> p \<noteq> el \<longrightarrow> map_option lh_prev (h' p) = map_option lh_prev (h p)) \<and>
    (\<forall>p. p \<notin> {a, b, el} \<longrightarrow> h' p = h p)"
proof -
  from l obtain na nb ne where *: "h a = Some na" "h b = Some nb" "h el = Some ne" "lh_prev ne = a" "lh_next ne = b"
    by (auto simp: linked_def)
  show ?thesis
    using * n l by (cases "a = b") (auto simp: list_del_def Let_def set_next_def set_prev_def node_Some linked_def)
qed

lemma list_del_split:
  assumes l: "is_list h head (xs @ el # ys)"
  shows "\<exists>h'. list_del h el = Inr h' \<and> is_list h' head (xs @ ys) \<and> h' el = Some \<lparr>lh_prev = 0, lh_next = 0\<rparr> \<and>
    (\<forall>p. p \<notin> set (el # head # xs @ ys) \<longrightarrow> h' p = h p)"
proof -
  define a b where "a = last (head # xs)" and "b = hd (ys @ [head])"
  have s: "distinct (head # xs @ el # ys)" "0 \<notin> set (head # xs @ el # ys)" "chain h (head # xs)" "chain h (ys @ [head])"
    "linked h a el" "linked h el b"
    using l by (auto simp: is_list_split a_def b_def successively_Cons)
  have ab: "a \<in> set (head # xs)" "b \<in> set (ys @ [head])" using last_in_set [of "head # xs"] by (auto simp: a_def b_def hd_append)
  then have "a \<in> set (head # xs @ el # ys)" "b \<in> set (head # xs @ el # ys)" "el \<in> set (head # xs @ el # ys)" by auto
  then have ne: "a \<noteq> 0" "b \<noteq> 0" "el \<noteq> 0" using s(2) by metis+
  have ne2: "el \<noteq> a" "el \<noteq> b" using ab s(1) by auto
  obtain h' where h': "list_del h el = Inr h'" "linked h' a b" "h' el = Some \<lparr>lh_prev = 0, lh_next = 0\<rparr>"
    "\<forall>p. p \<noteq> a \<longrightarrow> p \<noteq> el \<longrightarrow> map_option lh_next (h' p) = map_option lh_next (h p)"
    "\<forall>p. p \<noteq> b \<longrightarrow> p \<noteq> el \<longrightarrow> map_option lh_prev (h' p) = map_option lh_prev (h p)"
    "\<forall>p. p \<notin> {a, b, el} \<longrightarrow> h' p = h p"
    using list_del_linked [OF s(5,6) ne ne2] by blast
  have a: "a \<notin> set (butlast (head # xs))" "a \<notin> set ys"
    using s(1) ab not_in_butlast_last [of "head # xs"] by (auto simp: a_def)
  have b: "b \<notin> set xs" "b \<notin> set (tl (ys @ [head]))" using s(1) ab by (cases ys; auto simp: b_def)+
  have "chain h' (head # xs)"
    using s(1) a(1) b(1) by (intro chain_keep [OF s(3) h'(4,5)]) auto
  moreover have "chain h' (ys @ [head])"
    using s(1) a(2) b(2) by (intro chain_keep [OF s(4) h'(4,5)]) auto
  ultimately have "is_list h' head (xs @ ys)"
    using h'(2) s(1,2) is_list_split [of h' head xs ys] by (auto simp: a_def b_def)
  moreover have "{a, b, el} \<subseteq> set (el # head # xs @ ys)" using ab by auto
  ultimately show ?thesis using h'(1,3,6) by blast
qed

lemma list_del_spec:
  assumes "is_list h head xs" "el \<in> set xs"
  shows "\<exists>h'. list_del h el = Inr h' \<and> is_list h' head (remove1 el xs) \<and> h' el = Some \<lparr>lh_prev = 0, lh_next = 0\<rparr> \<and>
    (\<forall>p. p \<notin> set (head # xs) \<longrightarrow> h' p = h p)"
proof -
  from split_list [OF assms(2)] obtain as bs where x: "xs = as @ el # bs" by blast
  moreover have "remove1 el xs = as @ bs" using assms(1) x by (auto simp: is_list_def remove1_append)
  ultimately show ?thesis using list_del_split [of h head as el bs] assms(1) by auto
qed

section \<open>Iteration\<close>

text \<open>A body that only reads the heap, and one that unlinks the current element.\<close>

definition visit :: "('s \<Rightarrow> nat \<Rightarrow> 's) \<Rightarrow> 's body" where
  "visit g h s el = Inr (h, g s el)"

definition unlink :: "('s \<Rightarrow> nat \<Rightarrow> 's) \<Rightarrow> 's body" where
  "unlink g h s el = cbind (list_del h el) (\<lambda>h. Inr (h, g s el))"

lemma for_each_forward:
  "chain h (xs @ [head]) \<Longrightarrow> 0 \<notin> set xs \<Longrightarrow> head \<notin> set xs \<Longrightarrow> length xs < fuel \<Longrightarrow>
     for_each_from fuel True (visit g) head (hd (xs @ [head])) h s = Some (Inr (h, foldl g s xs))"
proof (induction xs arbitrary: fuel s)
  case Nil
  then show ?case by (cases fuel) auto
next
  case (Cons x xs)
  then obtain f where f: "fuel = Suc f" by (cases fuel) auto
  have "linked h x (hd (xs @ [head]))" using Cons.prems(1) by (cases xs) auto
  then obtain n where "h x = Some n" "lh_next n = hd (xs @ [head])" by (auto simp: linked_def)
  moreover have "x \<noteq> 0" "x \<noteq> head" using Cons.prems(2,3) by auto
  moreover have "chain h (xs @ [head])" using Cons.prems(1) by (cases xs) auto
  ultimately show ?case using Cons.IH [of f "g s x"] Cons.prems f by (simp add: visit_def node_def follow_def)
qed

lemma for_each_backward:
  "chain h (head # xs) \<Longrightarrow> 0 \<notin> set xs \<Longrightarrow> head \<notin> set xs \<Longrightarrow> length xs < fuel \<Longrightarrow>
     for_each_from fuel False (visit g) head (last (head # xs)) h s = Some (Inr (h, foldl g s (rev xs)))"
proof (induction xs arbitrary: fuel s rule: rev_induct)
  case Nil
  then show ?case by (cases fuel) auto
next
  case (snoc x xs)
  then obtain f where f: "fuel = Suc f" by (cases fuel) auto
  have c: "chain h (head # xs)" "linked h (last (head # xs)) x"
    using snoc.prems(1) successively_append_iff [of "linked h" "head # xs" "[x]"] by auto
  then obtain n where "h x = Some n" "lh_prev n = last (head # xs)" by (auto simp: linked_def)
  moreover have "x \<noteq> 0" "x \<noteq> head" using snoc.prems(2,3) by auto
  ultimately show ?case using snoc.IH [of f "g s x"] c snoc.prems f by (simp add: visit_def node_def follow_def)
qed

lemma is_list_first:
  assumes "is_list h head (x # xs)"
  shows "\<exists>n. node h x = Inr n \<and> lh_next n = hd (xs @ [head])"
proof -
  have "linked h x (hd (xs @ [head]))" "x \<noteq> 0" using assms is_list_split [of h head "[x]" xs] by auto
  then show ?thesis by (auto simp: linked_def node_def)
qed

lemma for_each_unlink:
  assumes "is_list h head xs" "length xs < fuel" "\<exists>n. node h (hd (xs @ [head])) = Inr n \<and> el1 = lh_next n"
  shows "\<exists>h'. for_each_safe_from fuel True (unlink g) head (hd (xs @ [head])) el1 h s = Some (Inr (h', foldl g s xs)) \<and>
    is_list h' head [] \<and> (\<forall>p. p \<notin> set (head # xs) \<longrightarrow> h' p = h p)"
  using assms
proof (induction xs arbitrary: fuel s h el1)
  case Nil
  then show ?case by (cases fuel) auto
next
  case (Cons x xs)
  then obtain f where f: "fuel = Suc f" by (cases fuel) auto
  have el1: "el1 = hd (xs @ [head])" using is_list_first [OF Cons.prems(1)] Cons.prems(3) by auto
  obtain h1 where h1: "list_del h x = Inr h1" "is_list h1 head xs" "\<forall>p. p \<notin> set (head # x # xs) \<longrightarrow> h1 p = h p"
    using list_del_spec [OF Cons.prems(1), of x] by auto
  have "x \<noteq> head" using Cons.prems(1) by (auto simp: is_list_def)
  obtain n where n: "node h1 (hd (xs @ [head])) = Inr n"
    using is_list_ends [OF h1(2)] is_list_first [of h1 head "hd xs" "tl xs"] h1(2) by (cases xs) auto
  then obtain h' where "for_each_safe_from f True (unlink g) head (hd (xs @ [head])) (lh_next n) h1 (g s x) = Some (Inr (h', foldl g (g s x) xs))"
    "is_list h' head []" "\<forall>p. p \<notin> set (head # xs) \<longrightarrow> h' p = h1 p"
    using Cons.IH [OF h1(2), of f "lh_next n" "g s x"] Cons.prems(2) f by auto
  moreover have "unlink g h s x = Inr (h1, g s x)" using h1(1) by (simp add: unlink_def)
  ultimately show ?case using h1(3) n f el1 \<open>x \<noteq> head\<close> by (auto simp: follow_def)
qed

section \<open>Properties\<close>


definition example_heap :: lheap where
  "example_heap = [1 \<mapsto> \<lparr>lh_prev = 2, lh_next = 2\<rparr>, 2 \<mapsto> \<lparr>lh_prev = 1, lh_next = 1\<rparr>, 3 \<mapsto> \<lparr>lh_prev = 0, lh_next = 0\<rparr>]"

lemma example_heap_list: "is_list example_heap 1 [2]"
  by (simp add: is_list_def linked_def example_heap_def)




end
