(* ===== verification/Char_Range.thy ===== *)
theory Char_Range
  imports Cutils_Bits
begin

text \<open>
  The character ranges of \<^verbatim>\<open>libunicode.c\<close> and \<^verbatim>\<open>libunicode.h\<close>. A \<open>char_range\<close> holds the allocated
  array \<open>points\<close> (the empty list is \<open>NULL\<close>), the number \<open>len\<close> of points in use and the allocated
  size, as in the C structure; the fields carry the prefix \<open>cr_\<close>. The code keeps the points in
  increasing order: points 0 and 1 bound the first interval, the upper bound excluded, points 2
  and 3 the second, and so on. Array accesses are checked, and the reallocation callback may
  fail at any call. Lengths are natural numbers: the code holds them in an \<open>int\<close>, and they
  stay far below its range.
\<close>

section \<open>Definitions\<close>

type_synonym cr_realloc_fn = "u32 list \<Rightarrow> nat \<Rightarrow> u32 list option"

record char_range =
  cr_len :: nat
  cr_size :: nat
  cr_points :: "u32 list"
  cr_realloc_func :: cr_realloc_fn

datatype cr_op_enum = CR_OP_UNION | CR_OP_INTER | CR_OP_XOR

text \<open>\<open>realloc\<close> of the C library on arrays of \<open>uint32_t\<close>, with room for at most \<open>limit\<close> elements.\<close>

definition cr_default_realloc :: "nat \<Rightarrow> cr_realloc_fn" where
  "cr_default_realloc limit ptr n =
     (if n = 0 \<or> limit < n then None else Some (take n ptr @ replicate (n - length ptr) 0))"

definition cr_init :: "nat \<Rightarrow> cr_realloc_fn option \<Rightarrow> char_range" where
  "cr_init limit f =
     \<lparr>cr_len = 0, cr_size = 0, cr_points = [],
      cr_realloc_func = (case f of Some g \<Rightarrow> g | None \<Rightarrow> cr_default_realloc limit)\<rparr>"

definition cr_realloc :: "char_range \<Rightarrow> nat \<Rightarrow> char_range \<times> int" where
  "cr_realloc cr sz =
     (if sz > cr_size cr then
        let new_size = max sz (cr_size cr * 3 div 2) in
        case cr_realloc_func cr (cr_points cr) new_size of
          None \<Rightarrow> (cr, -1)
        | Some new_buf \<Rightarrow> (cr\<lparr>cr_points := new_buf, cr_size := new_size\<rparr>, 0)
      else (cr, 0))"

definition cr_copy :: "char_range \<Rightarrow> char_range \<Rightarrow> (char_range \<times> int) cres" where
  "cr_copy cr cr1 =
     (case cr_realloc cr (cr_len cr1) of (cr, r) \<Rightarrow>
        if r \<noteq> 0 then Inr (cr, -1)
        else cbind (rd_block (cr_points cr1) 0 (cr_len cr1)) (\<lambda>b.
             cbind (wr_block (cr_points cr) 0 b) (\<lambda>p.
             Inr (cr\<lparr>cr_points := p, cr_len := cr_len cr1\<rparr>, 0))))"

definition cr_add_point :: "char_range \<Rightarrow> u32 \<Rightarrow> (char_range \<times> int) cres" where
  "cr_add_point cr v =
     (case (if cr_len cr \<ge> cr_size cr then cr_realloc cr (cr_len cr + 1) else (cr, 0)) of (cr, r) \<Rightarrow>
        if r \<noteq> 0 then Inr (cr, -1)
        else cbind (wr (cr_points cr) (cr_len cr) v) (\<lambda>p.
             Inr (cr\<lparr>cr_points := p, cr_len := cr_len cr + 1\<rparr>, 0)))"

definition cr_add_interval :: "char_range \<Rightarrow> u32 \<Rightarrow> u32 \<Rightarrow> (char_range \<times> int) cres" where
  "cr_add_interval cr c1 c2 =
     (case (if cr_len cr + 2 > cr_size cr then cr_realloc cr (cr_len cr + 2) else (cr, 0)) of (cr, r) \<Rightarrow>
        if r \<noteq> 0 then Inr (cr, -1)
        else cbind (wr (cr_points cr) (cr_len cr) c1) (\<lambda>p.
             cbind (wr p (cr_len cr + 1) c2) (\<lambda>p.
             Inr (cr\<lparr>cr_points := p, cr_len := cr_len cr + 2\<rparr>, 0))))"

text \<open>
  \<open>cr_compress\<close>: the inner loop looks for the end \<open>j\<close> of a run of adjacent intervals, the outer loop
  copies runs towards the front of the array.
\<close>

function compress_run :: "u32 list \<Rightarrow> nat \<Rightarrow> nat \<Rightarrow> nat cres" where
  "compress_run pt len j =
     (if j + 3 < len then
        cbind (rd pt (j + 1)) (\<lambda>a. cbind (rd pt (j + 2)) (\<lambda>b.
          if a = b then compress_run pt len (j + 2) else Inr j))
      else Inr j)"
  by pat_completeness auto
termination by (relation "measure (\<lambda>(pt, len, j). len - j)") auto

declare compress_run.simps [simp del]

lemma compress_run_ge: "compress_run pt len j = Inr j' \<Longrightarrow> j \<le> j'"
proof (induction "len - j" arbitrary: j rule: less_induct)
  case less
  show ?case using less.prems less.hyps [of "j + 2"]
    by (fastforce simp: compress_run.simps [of pt len j] split: if_splits)
qed

function compress_loop :: "u32 list \<Rightarrow> nat \<Rightarrow> nat \<Rightarrow> nat \<Rightarrow> (u32 list \<times> nat) cres" where
  "compress_loop pt len i k =
     (if i + 1 < len then
        cbind (rd pt i) (\<lambda>a. cbind (rd pt (i + 1)) (\<lambda>b.
          if a = b then compress_loop pt len (i + 2) k
          else cbind (compress_run pt len i) (\<lambda>j.
               cbind (wr pt k a) (\<lambda>pt.
               cbind (rd pt (j + 1)) (\<lambda>e.
               cbind (wr pt (k + 1) e) (\<lambda>pt.
               compress_loop pt len (j + 2) (k + 2)))))))
      else Inr (pt, k))"
  by pat_completeness auto
termination
  by (relation "measure (\<lambda>(pt, len, i, k). len - i)") (auto dest!: compress_run_ge)

declare compress_loop.simps [simp del]

definition cr_compress :: "char_range \<Rightarrow> char_range cres" where
  "cr_compress cr =
     cbind (compress_loop (cr_points cr) (cr_len cr) 0 0) (\<lambda>(pt, k). Inr (cr\<lparr>cr_points := pt, cr_len := k\<rparr>))"

text \<open>The loop of \<open>cr_op\<close>: \<open>next_point\<close> is the choice of the next point and the advance of the indices.\<close>

definition next_point :: "u32 list \<Rightarrow> nat \<Rightarrow> nat \<Rightarrow> u32 list \<Rightarrow> nat \<Rightarrow> nat \<Rightarrow> (u32 \<times> nat \<times> nat) option cres" where
  "next_point a_pt a_len a_idx b_pt b_len b_idx =
     (if a_idx < a_len \<and> b_idx < b_len then
        cbind (rd a_pt a_idx) (\<lambda>a. cbind (rd b_pt b_idx) (\<lambda>b.
          Inr (Some (if a < b then (a, a_idx + 1, b_idx)
                     else if a = b then (a, a_idx + 1, b_idx + 1)
                     else (b, a_idx, b_idx + 1)))))
      else if a_idx < a_len then cbind (rd a_pt a_idx) (\<lambda>a. Inr (Some (a, a_idx + 1, b_idx)))
      else if b_idx < b_len then cbind (rd b_pt b_idx) (\<lambda>b. Inr (Some (b, a_idx, b_idx + 1)))
      else Inr None)"

definition op_bit :: "cr_op_enum \<Rightarrow> nat \<Rightarrow> nat \<Rightarrow> nat" where
  "op_bit op a b =
     (case op of
        CR_OP_UNION \<Rightarrow> (a AND 1) OR (b AND 1)
      | CR_OP_INTER \<Rightarrow> (a AND 1) AND (b AND 1)
      | CR_OP_XOR \<Rightarrow> (a AND 1) XOR (b AND 1))"

lemma next_point_progress:
  "next_point a_pt a_len a_idx b_pt b_len b_idx = Inr (Some (v, a', b')) \<Longrightarrow>
     a_len - a' + (b_len - b') < a_len - a_idx + (b_len - b_idx)"
  by (auto simp: next_point_def split: if_splits)

function cr_op_loop :: "char_range \<Rightarrow> u32 list \<Rightarrow> nat \<Rightarrow> nat \<Rightarrow> u32 list \<Rightarrow> nat \<Rightarrow> nat \<Rightarrow> cr_op_enum
    \<Rightarrow> (char_range \<times> int) cres" where
  "cr_op_loop cr a_pt a_len a_idx b_pt b_len b_idx op =
     cbind (next_point a_pt a_len a_idx b_pt b_len b_idx) (\<lambda>r.
       case r of
         None \<Rightarrow> Inr (cr, 0)
       | Some (v, a_idx, b_idx) \<Rightarrow>
           if op_bit op a_idx b_idx \<noteq> cr_len cr AND 1
           then cbind (cr_add_point cr v) (\<lambda>(cr, r).
                  if r \<noteq> 0 then Inr (cr, -1) else cr_op_loop cr a_pt a_len a_idx b_pt b_len b_idx op)
           else cr_op_loop cr a_pt a_len a_idx b_pt b_len b_idx op)"
  by pat_completeness auto
termination
  by (relation "measure (\<lambda>(cr, a_pt, a_len, a_idx, b_pt, b_len, b_idx, op). a_len - a_idx + (b_len - b_idx))")
    (auto dest: next_point_progress)

declare cr_op_loop.simps [simp del]

definition cr_op :: "char_range \<Rightarrow> u32 list \<Rightarrow> nat \<Rightarrow> u32 list \<Rightarrow> nat \<Rightarrow> cr_op_enum \<Rightarrow> (char_range \<times> int) cres" where
  "cr_op cr a_pt a_len b_pt b_len op =
     cbind (cr_op_loop cr a_pt a_len 0 b_pt b_len 0 op) (\<lambda>(cr, r).
       if r \<noteq> 0 then Inr (cr, -1) else cbind (cr_compress cr) (\<lambda>cr. Inr (cr, 0)))"

definition cr_union1 :: "char_range \<Rightarrow> u32 list \<Rightarrow> nat \<Rightarrow> (char_range \<times> int) cres" where
  "cr_union1 cr b_pt b_len =
     cr_op (cr\<lparr>cr_len := 0, cr_size := 0, cr_points := []\<rparr>) (cr_points cr) (cr_len cr) b_pt b_len CR_OP_UNION"

definition cr_union_interval :: "char_range \<Rightarrow> u32 \<Rightarrow> u32 \<Rightarrow> (char_range \<times> int) cres" where
  "cr_union_interval cr c1 c2 = cr_union1 cr [c1, c2 + 1] 2"

definition cr_invert :: "char_range \<Rightarrow> (char_range \<times> int) cres" where
  "cr_invert cr =
     (let len = cr_len cr in
      case cr_realloc cr (len + 2) of (cr, r) \<Rightarrow>
        if r \<noteq> 0 then Inr (cr, -1)
        else cbind (rd_block (cr_points cr) 0 len) (\<lambda>b.
             cbind (wr_block (cr_points cr) 1 b) (\<lambda>p.
             cbind (wr p 0 0) (\<lambda>p.
             cbind (wr p (len + 1) 0xFFFFFFFF) (\<lambda>p.
             cbind (cr_compress (cr\<lparr>cr_points := p, cr_len := len + 2\<rparr>)) (\<lambda>cr. Inr (cr, 0)))))))"

section \<open>Invariant\<close>

definition cr_realloc_law :: "cr_realloc_fn \<Rightarrow> bool" where
  "cr_realloc_law f \<longleftrightarrow>
     (\<forall>old n new. f old n = Some new \<longrightarrow> length new = n \<and> (length old \<le> n \<longrightarrow> take (length old) new = old))"

definition cr_inv :: "char_range \<Rightarrow> bool" where
  "cr_inv cr \<longleftrightarrow> cr_len cr \<le> cr_size cr \<and> length (cr_points cr) = cr_size cr \<and> cr_realloc_law (cr_realloc_func cr)"

definition cr_contents :: "char_range \<Rightarrow> u32 list" where
  "cr_contents cr = take (cr_len cr) (cr_points cr)"

lemma cr_default_realloc_law: "cr_realloc_law (cr_default_realloc limit)"
  by (auto simp: cr_realloc_law_def cr_default_realloc_def split: if_splits)

lemma cr_init_inv: "(\<And>g. f = Some g \<Longrightarrow> cr_realloc_law g) \<Longrightarrow> cr_inv (cr_init limit f) \<and> cr_contents (cr_init limit f) = []"
  by (cases f) (auto simp: cr_init_def cr_inv_def cr_contents_def cr_default_realloc_law)

lemma length_cr_contents [simp]: "cr_inv cr \<Longrightarrow> length (cr_contents cr) = cr_len cr"
  by (simp add: cr_inv_def cr_contents_def)

lemma cr_realloc_cases:
  assumes "cr_inv cr"
  obtains (ok) cr' where "cr_realloc cr n = (cr', 0)" "cr_inv cr'" "n \<le> cr_size cr'" "cr_len cr' = cr_len cr"
      "cr_contents cr' = cr_contents cr" "cr_realloc_func cr' = cr_realloc_func cr"
  | (fail) "cr_realloc cr n = (cr, -1)"
proof (cases "n > cr_size cr")
  case False
  then show ?thesis using assms by (intro ok [of cr]) (auto simp: cr_realloc_def)
next
  case True
  define m where "m = max n (cr_size cr * 3 div 2)"
  show ?thesis
  proof (cases "cr_realloc_func cr (cr_points cr) m")
    case None
    then show ?thesis using True by (intro fail) (simp add: cr_realloc_def m_def [symmetric])
  next
    case (Some b)
    have "length (cr_points cr) \<le> m" "cr_realloc_law (cr_realloc_func cr)"
      using assms True by (auto simp: cr_inv_def m_def)
    then have b: "length b = m" "take (length (cr_points cr)) b = cr_points cr"
      using Some unfolding cr_realloc_law_def by blast+
    have "take (cr_len cr) b = take (cr_len cr) (take (length (cr_points cr)) b)"
      using assms by (simp add: cr_inv_def)
    then have "take (cr_len cr) b = take (cr_len cr) (cr_points cr)" using b by simp
    then show ?thesis using True Some assms b
      by (intro ok [of "cr\<lparr>cr_points := b, cr_size := m\<rparr>"])
        (auto simp: cr_realloc_def m_def [symmetric] cr_inv_def cr_contents_def, auto simp: m_def)
  qed
qed

text \<open>The result of an operation that may run out of memory.\<close>

definition cr_result :: "u32 list \<Rightarrow> (char_range \<times> int) cres \<Rightarrow> bool" where
  "cr_result ps res \<longleftrightarrow>
     (\<exists>cr r. res = Inr (cr, r) \<and> cr_inv cr \<and> (r = 0 \<and> cr_contents cr = ps \<or> r = -1))"

lemma cr_add_point_cases:
  assumes "cr_inv cr"
  obtains (ok) cr' where "cr_add_point cr v = Inr (cr', 0)" "cr_inv cr'" "cr_contents cr' = cr_contents cr @ [v]"
      "cr_len cr' = cr_len cr + 1"
  | (fail) cr' where "cr_add_point cr v = Inr (cr', -1)" "cr_inv cr'"
proof -
  have g: "(if cr_len cr \<ge> cr_size cr then cr_realloc cr (cr_len cr + 1) else (cr, 0)) = cr_realloc cr (cr_len cr + 1)"
    by (simp add: cr_realloc_def)
  show ?thesis
  proof (cases rule: cr_realloc_cases [OF assms, of "cr_len cr + 1"])
    case (1 cr1)
    let ?cr = "cr1\<lparr>cr_points := (cr_points cr1)[cr_len cr1 := v], cr_len := cr_len cr1 + 1\<rparr>"
    have lt: "cr_len cr1 < length (cr_points cr1)" using 1 by (auto simp: cr_inv_def)
    have "cr_add_point cr v = Inr (?cr, 0)" unfolding cr_add_point_def g using 1 lt by simp
    moreover have "cr_inv ?cr" using 1 by (auto simp: cr_inv_def)
    moreover have "cr_contents ?cr = cr_contents cr1 @ [v]" using lt by (simp add: cr_contents_def take_Suc_conv_app_nth)
    ultimately show ?thesis using 1 by (intro that(1) [of ?cr]) auto
  next
    case 2
    then show ?thesis using assms by (intro that(2) [of cr]) (auto simp: cr_add_point_def g)
  qed
qed

section \<open>Points and sets\<close>

text \<open>
  A code is in the range when an odd number of points is at or below it. The point list of a
  range is canonical when it is strictly increasing and of even length.
\<close>

definition below :: "u32 \<Rightarrow> u32 list \<Rightarrow> nat" where
  "below c ps = length (filter (\<lambda>p. p \<le> c) ps)"

definition cr_set :: "u32 list \<Rightarrow> u32 set" where
  "cr_set ps = {c. odd (below c ps)}"

definition canonical :: "u32 list \<Rightarrow> bool" where
  "canonical ps \<longleftrightarrow> sorted_wrt (<) ps \<and> even (length ps)"

lemma below_simps [simp]: "below c [] = 0" "below c (p # ps) = (if p \<le> c then 1 else 0) + below c ps"
  by (simp_all add: below_def)

lemma below_append [simp]: "below c (ps @ qs) = below c ps + below c qs"
  by (simp add: below_def)

lemma below_0_iff: "below c ps = 0 \<longleftrightarrow> (\<forall>p \<in> set ps. c < p)"
  by (auto simp: below_def filter_empty_conv not_le)

text \<open>The reading of the points as intervals.\<close>

lemma cr_set_intervals:
  "sorted ps \<Longrightarrow> even (length ps) \<Longrightarrow> c \<in> cr_set ps \<longleftrightarrow> (\<exists>i. 2 * i + 1 < length ps \<and> ps ! (2 * i) \<le> c \<and> c < ps ! (2 * i + 1))"
proof (induction ps rule: induct_list012)
  case (3 p q ps)
  have ih: "c \<in> cr_set ps \<longleftrightarrow> (\<exists>i. 2 * i + 1 < length ps \<and> ps ! (2 * i) \<le> c \<and> c < ps ! (2 * i + 1))"
    using 3 by simp
  have shift: "(\<exists>i. 2 * i + 1 < length (p # q # ps) \<and> (p # q # ps) ! (2 * i) \<le> c \<and> c < (p # q # ps) ! (2 * i + 1)) \<longleftrightarrow>
    (p \<le> c \<and> c < q) \<or> (\<exists>i. 2 * i + 1 < length ps \<and> ps ! (2 * i) \<le> c \<and> c < ps ! (2 * i + 1))" (is "?L \<longleftrightarrow> ?R")
  proof
    assume ?L
    then obtain i where i: "2 * i + 1 < length (p # q # ps)" "(p # q # ps) ! (2 * i) \<le> c" "c < (p # q # ps) ! (2 * i + 1)" by blast
    then show ?R by (cases i) auto
  next
    assume ?R
    then show ?L
    proof
      assume "p \<le> c \<and> c < q"
      then show ?L by (intro exI [of _ 0]) auto
    next
      assume "\<exists>i. 2 * i + 1 < length ps \<and> ps ! (2 * i) \<le> c \<and> c < ps ! (2 * i + 1)"
      then obtain i where "2 * i + 1 < length ps" "ps ! (2 * i) \<le> c" "c < ps ! (2 * i + 1)" by blast
      then show ?L by (intro exI [of _ "Suc i"]) auto
    qed
  qed
  show ?case
  proof (cases "q \<le> c")
    case True
    then have "p \<le> c" using 3 by auto
    then show ?thesis unfolding shift ih [symmetric] using True by (auto simp: cr_set_def)
  next
    case False
    then have "below c ps = 0" using 3 by (force simp: below_0_iff)
    moreover then have "c \<notin> cr_set ps" by (simp add: cr_set_def)
    ultimately show ?thesis unfolding shift ih [symmetric] using False by (auto simp: cr_set_def)
  qed
qed (auto simp: cr_set_def)

section \<open>The merge\<close>

text \<open>
  The loop of \<open>cr_op\<close> goes through the points of both operands in increasing order; \<open>events\<close> lists
  them, each with the number of steps it makes in the first and in the second operand.
\<close>

fun events :: "u32 list \<Rightarrow> u32 list \<Rightarrow> (u32 \<times> nat \<times> nat) list" where
  "events [] [] = []"
| "events (a # as) [] = (a, 1, 0) # events as []"
| "events [] (b # bs) = (b, 0, 1) # events [] bs"
| "events (a # as) (b # bs) =
     (if a < b then (a, 1, 0) # events as (b # bs)
      else if a = b then (a, 1, 1) # events as bs
      else (b, 0, 1) # events (a # as) bs)"

definition op_bool :: "cr_op_enum \<Rightarrow> bool \<Rightarrow> bool \<Rightarrow> bool" where
  "op_bool op a b = (case op of CR_OP_UNION \<Rightarrow> a \<or> b | CR_OP_INTER \<Rightarrow> a \<and> b | CR_OP_XOR \<Rightarrow> a \<noteq> b)"

text \<open>The points the loop adds: those where the status changes.\<close>

fun op_points :: "cr_op_enum \<Rightarrow> nat \<Rightarrow> nat \<Rightarrow> nat \<Rightarrow> (u32 \<times> nat \<times> nat) list \<Rightarrow> u32 list" where
  "op_points op i j n [] = []"
| "op_points op i j n ((v, di, dj) # es) =
     (if op_bool op (odd (i + di)) (odd (j + dj)) \<noteq> odd n
      then v # op_points op (i + di) (j + dj) (n + 1) es else op_points op (i + di) (j + dj) n es)"

lemma and_1_odd: "(n :: nat) AND 1 = (if odd n then 1 else 0)"
  by (simp add: and_one_eq odd_iff_mod_2_eq_one mod2_eq_if)

lemma op_bit_bool: "op_bit op i j \<noteq> n AND 1 \<longleftrightarrow> op_bool op (odd i) (odd j) \<noteq> odd n"
  unfolding op_bit_def op_bool_def and_1_odd by (cases op) auto

definition steps :: "(u32 \<times> nat \<times> nat \<Rightarrow> nat) \<Rightarrow> (u32 \<Rightarrow> bool) \<Rightarrow> (u32 \<times> nat \<times> nat) list \<Rightarrow> nat" where
  "steps d P es = (\<Sum>e \<leftarrow> es. if P (fst e) then d e else 0)"

lemma steps_simps [simp]: "steps d P [] = 0" "steps d P (e # es) = (if P (fst e) then d e else 0) + steps d P es"
  by (simp_all add: steps_def)

lemma events_steps:
  "steps (fst \<circ> snd) P (events as bs) = length (filter P as) \<and> steps (snd \<circ> snd) P (events as bs) = length (filter P bs)"
  by (induction as bs rule: events.induct) auto

lemma events_fst: "fst ` set (events as bs) = set as \<union> set bs"
  by (induction as bs rule: events.induct) auto

lemma events_sorted: "sorted as \<Longrightarrow> sorted bs \<Longrightarrow> sorted (map fst (events as bs))"
proof (induction as bs rule: events.induct)
  case (4 a as b bs)
  consider "a < b" | "a = b" | "b < a" by fastforce
  then show ?case
  proof cases
    case 1
    have "\<forall>x \<in> fst ` set (events as (b # bs)). a \<le> x" unfolding events_fst using 1 4(4,5) by auto
    then show ?thesis using 4 1 by simp
  next
    case 2
    have "\<forall>x \<in> fst ` set (events as bs). a \<le> x" unfolding events_fst using 2 4(4,5) by auto
    then show ?thesis using 4 2 by simp
  next
    case 3
    have "\<forall>x \<in> fst ` set (events (a # as) bs). b \<le> x" unfolding events_fst using 3 4(4,5) by auto
    then show ?thesis using 4 3 by auto
  qed
qed (auto simp: events_fst)

lemma op_points_set: "set (op_points op i j n es) \<subseteq> fst ` set es"
  by (induction op i j n es rule: op_points.induct) auto

lemma op_points_sorted: "sorted (map fst es) \<Longrightarrow> sorted (op_points op i j n es)"
proof (induction op i j n es rule: op_points.induct)
  case (2 op i j n v di dj es)
  then show ?case using op_points_set [of op "i + di" "j + dj" "n + 1" es] by auto
qed simp

text \<open>Cut anywhere in the order of points, the parity of the result is the operation on the parities.\<close>

lemma op_points_parity:
  assumes "sorted (map fst es)" "odd n = op_bool op (odd i) (odd j)" "\<And>x y. P y \<Longrightarrow> x \<le> y \<Longrightarrow> P x"
  shows "odd (n + length (filter P (op_points op i j n es))) =
    op_bool op (odd (i + steps (fst \<circ> snd) P es)) (odd (j + steps (snd \<circ> snd) P es))"
  using assms(1,2)
proof (induction op i j n es rule: op_points.induct)
  case (2 op i j n v di dj es)
  show ?case
  proof (cases "P v")
    case True
    show ?thesis
    proof (cases "op_bool op (odd (i + di)) (odd (j + dj)) = odd n")
      case eq: True
      then show ?thesis using "2.IH"(2) "2.prems" True by (simp add: add.assoc)
    next
      case False
      then show ?thesis using "2.IH"(1) "2.prems" True by (simp add: add.assoc)
    qed
  next
    case False
    then have no: "\<not> P x" if "x \<in> fst ` set ((v, di, dj) # es)" for x using that "2.prems"(1) assms(3) by auto
    then have "filter P (op_points op i j n ((v, di, dj) # es)) = []"
      using op_points_set [of op i j n "(v, di, dj) # es"] by (auto simp: filter_empty_conv simp del: op_points.simps)
    moreover have "steps d P ((v, di, dj) # es) = 0" for d using no by (induction es) auto
    ultimately show ?thesis using "2.prems"(2) by (simp only:) simp
  qed
qed simp

lemma op_points_merge:
  assumes "sorted as" "sorted bs"
  shows "sorted (op_points op 0 0 0 (events as bs))"
    and "odd (below c (op_points op 0 0 0 (events as bs))) = op_bool op (odd (below c as)) (odd (below c bs))"
    and "odd (length (op_points op 0 0 0 (events as bs))) = op_bool op (odd (length as)) (odd (length bs))"
proof -
  note s = events_sorted [OF assms]
  have z: "odd (0 :: nat) = op_bool op (odd (0 :: nat)) (odd (0 :: nat))" by (simp add: op_bool_def split: cr_op_enum.splits)
  show "sorted (op_points op 0 0 0 (events as bs))" by (rule op_points_sorted [OF s])
  show "odd (below c (op_points op 0 0 0 (events as bs))) = op_bool op (odd (below c as)) (odd (below c bs))"
    using op_points_parity [OF s z, of "\<lambda>p. p \<le> c"] by (simp add: events_steps below_def)
  show "odd (length (op_points op 0 0 0 (events as bs))) = op_bool op (odd (length as)) (odd (length bs))"
    using op_points_parity [OF s z, of "\<lambda>p. True"] by (simp add: events_steps)
qed

lemma next_point_events:
  assumes "a_len \<le> length a_pt" "b_len \<le> length b_pt"
    "as = drop a_idx (take a_len a_pt)" "bs = drop b_idx (take b_len b_pt)"
  shows "next_point a_pt a_len a_idx b_pt b_len b_idx =
    (case events as bs of [] \<Rightarrow> Inr None | (v, di, dj) # es \<Rightarrow> Inr (Some (v, a_idx + di, b_idx + dj)))"
    and "events as bs = (v, di, dj) # es \<Longrightarrow>
      es = events (drop (a_idx + di) (take a_len a_pt)) (drop (b_idx + dj) (take b_len b_pt))"
proof -
  have a: "as = (if a_idx < a_len then a_pt ! a_idx # drop (a_idx + 1) (take a_len a_pt) else [])"
    unfolding assms(3) using assms(1) by (auto simp: Cons_nth_drop_Suc [symmetric])
  have b: "bs = (if b_idx < b_len then b_pt ! b_idx # drop (b_idx + 1) (take b_len b_pt) else [])"
    unfolding assms(4) using assms(2) by (auto simp: Cons_nth_drop_Suc [symmetric])
  show "next_point a_pt a_len a_idx b_pt b_len b_idx =
    (case events as bs of [] \<Rightarrow> Inr None | (v, di, dj) # es \<Rightarrow> Inr (Some (v, a_idx + di, b_idx + dj)))"
    using assms(1,2) by (auto simp: a b next_point_def)
  assume "events as bs = (v, di, dj) # es"
  then show "es = events (drop (a_idx + di) (take a_len a_pt)) (drop (b_idx + dj) (take b_len b_pt))"
    by (auto simp: a b a [unfolded assms(3)] b [unfolded assms(4)] split: if_splits)
qed

lemma cr_op_loop_result:
  assumes "cr_inv cr" "a_len \<le> length a_pt" "b_len \<le> length b_pt"
  shows "cr_result (cr_contents cr @ op_points op a_idx b_idx (cr_len cr)
      (events (drop a_idx (take a_len a_pt)) (drop b_idx (take b_len b_pt))))
    (cr_op_loop cr a_pt a_len a_idx b_pt b_len b_idx op)"
  using assms(1)
proof (induction "events (drop a_idx (take a_len a_pt)) (drop b_idx (take b_len b_pt))" arbitrary: cr a_idx b_idx)
  case Nil
  then show ?case
    using next_point_events(1) [OF assms(2,3) refl refl, of a_idx b_idx]
    by (simp add: cr_op_loop.simps [of cr a_pt a_len a_idx b_pt b_len b_idx op] cr_result_def flip: Nil.hyps)
next
  case (Cons e es)
  obtain v di dj where e: "e = (v, di, dj)" by (cases e)
  note ev = Cons.hyps(2) [unfolded e, symmetric]
  have es: "es = events (drop (a_idx + di) (take a_len a_pt)) (drop (b_idx + dj) (take b_len b_pt))"
    by (rule next_point_events(2) [OF assms(2,3) refl refl ev])
  have np: "next_point a_pt a_len a_idx b_pt b_len b_idx = Inr (Some (v, a_idx + di, b_idx + dj))"
    unfolding next_point_events(1) [OF assms(2,3) refl refl] ev by simp
  show ?case
  proof (cases "op_bool op (odd (a_idx + di)) (odd (b_idx + dj)) = odd (cr_len cr)")
    case True
    then show ?thesis using Cons.hyps(1) [OF es Cons.prems] ev
      unfolding cr_op_loop.simps [of cr a_pt a_len a_idx b_pt b_len b_idx op] np op_bit_bool by (simp add: es [symmetric])
  next
    case False
    show ?thesis
    proof (cases rule: cr_add_point_cases [OF Cons.prems, of v])
      case (1 cr')
      then show ?thesis using Cons.hyps(1) [OF es 1(2)] ev False
        unfolding cr_op_loop.simps [of cr a_pt a_len a_idx b_pt b_len b_idx op] np op_bit_bool by (simp add: es [symmetric])
    next
      case (2 cr')
      then show ?thesis using False
        unfolding cr_op_loop.simps [of cr a_pt a_len a_idx b_pt b_len b_idx op] np op_bit_bool by (simp add: cr_result_def)
    qed
  qed
qed

section \<open>Compression\<close>

text \<open>What \<open>cr_compress\<close> does to a sorted list of points.\<close>

fun compress :: "u32 list \<Rightarrow> u32 list" where
  "compress (p # q # r # s # ps) =
     (if p = q then compress (r # s # ps)
      else if q = r then compress (p # s # ps)
      else p # q # compress (r # s # ps))"
| "compress (p # q # ps) = (if p = q then [] else [p, q])"
| "compress ps = []"

lemma compress_drop_run:
  assumes "sorted (drop i (take len pt))" "len \<le> length pt" "j + 1 < len" "p < pt ! (j + 1)" "i \<le> j"
  shows "\<exists>j'. compress_run pt len j = Inr j' \<and> j \<le> j' \<and> j' + 1 < len \<and>
    compress (p # drop (j + 1) (take len pt)) = p # pt ! (j' + 1) # compress (drop (j' + 2) (take len pt))"
  using assms(3-5)
proof (induction "len - j" arbitrary: j rule: less_induct)
  case less
  let ?L = "take len pt"
  have d1: "drop (j + 1) ?L = pt ! (j + 1) # drop (j + 2) ?L"
    using less.prems(1) assms(2) by (simp add: Cons_nth_drop_Suc [symmetric])
  show ?case
  proof (cases "j + 3 < len")
    case True
    have d2: "drop (j + 2) ?L = pt ! (j + 2) # drop (j + 3) ?L" "drop (j + 3) ?L = pt ! (j + 3) # drop (j + 4) ?L"
      using True assms(2) by (simp_all add: Cons_nth_drop_Suc [symmetric] numeral_eq_Suc)
    show ?thesis
    proof (cases "pt ! (j + 1) = pt ! (j + 2)")
      case eq: True
      have "pt ! (j + 2) \<le> pt ! (j + 3)" using sorted_nth_mono [OF assms(1), of "j + 2 - i" "j + 3 - i"] True assms(2) less.prems(3) by simp
      then have "p < pt ! (j + 2 + 1)" using less.prems(2) eq by (simp add: numeral_3_eq_3)
      moreover have "len - (j + 2) < len - j" "j + 2 + 1 < len" using True by auto
      ultimately obtain j' where "compress_run pt len (j + 2) = Inr j'" "j + 2 \<le> j'" "j' + 1 < len"
        "compress (p # drop (j + 2 + 1) ?L) = p # pt ! (j' + 1) # compress (drop (j' + 2) ?L)"
        using less.hyps [of "j + 2"] less.prems(3) by (meson trans_le_add1)
      moreover have "compress_run pt len j = compress_run pt len (j + 2)"
        using True eq assms(2) by (simp add: compress_run.simps [of pt len j])
      moreover have "compress (p # drop (j + 1) ?L) = compress (p # drop (j + 2 + 1) ?L)"
        unfolding d1 d2 using eq less.prems(2) d2(2) by (simp add: numeral_3_eq_3)
      ultimately show ?thesis by auto
    next
      case ne: False
      have "compress_run pt len j = Inr j" using True ne assms(2) by (simp add: compress_run.simps [of pt len j])
      moreover have "compress (p # drop (j + 1) ?L) = p # pt ! (j + 1) # compress (drop (j + 2) ?L)"
        unfolding d1 d2 using ne less.prems(2) by simp
      ultimately show ?thesis using less.prems(1) by auto
    qed
  next
    case False
    have "compress_run pt len j = Inr j" using False by (simp add: compress_run.simps [of pt len j])
    moreover have "drop (j + 2) ?L = [] \<or> (\<exists>x. drop (j + 2) ?L = [x])"
      using False assms(2) by (cases "drop (j + 2) ?L"; cases "tl (drop (j + 2) ?L)") (auto simp: drop_eq_Nil dest!: arg_cong [of _ _ length])
    then have "compress (p # drop (j + 1) ?L) = p # pt ! (j + 1) # compress (drop (j + 2) ?L)"
      unfolding d1 using less.prems(2) by auto
    ultimately show ?thesis using less.prems(1) by auto
  qed
qed

lemma compress_loop_spec:
  assumes "sorted (drop i (take len pt))" "len \<le> length pt" "k \<le> i"
  shows "\<exists>pt' k'. compress_loop pt len i k = Inr (pt', k') \<and> length pt' = length pt \<and> k' \<le> max k len \<and>
    take k' pt' = take k pt @ compress (drop i (take len pt))"
  using assms
proof (induction "len - i" arbitrary: pt i k rule: less_induct)
  case less
  let ?L = "take len pt"
  show ?case
  proof (cases "i + 1 < len")
    case False
    then have "drop i ?L = [] \<or> (\<exists>x. drop i ?L = [x])"
      using less.prems(2) by (cases "drop i ?L"; cases "tl (drop i ?L)") (auto simp: drop_eq_Nil dest!: arg_cong [of _ _ length])
    then show ?thesis using False by (auto simp: compress_loop.simps [of pt len i k])
  next
    case True
    have d: "drop i ?L = pt ! i # drop (i + 1) ?L" "drop (i + 1) ?L = pt ! (i + 1) # drop (i + 2) ?L"
      using True less.prems(2) by (simp_all add: Cons_nth_drop_Suc [symmetric])
    have s2: "sorted (drop (i + 2) ?L)" using less.prems(1) unfolding d by simp
    show ?thesis
    proof (cases "pt ! i = pt ! (i + 1)")
      case eq: True
      have "compress (drop i ?L) = compress (drop (i + 2) ?L)"
        unfolding d using eq by (cases "drop (i + 2) ?L"; cases "tl (drop (i + 2) ?L)") auto
      moreover have "compress_loop pt len i k = compress_loop pt len (i + 2) k"
        using True eq less.prems(2) by (simp add: compress_loop.simps [of pt len i k])
      ultimately show ?thesis using less.hyps [of "i + 2" pt k] s2 less.prems True by simp
    next
      case ne: False
      have "pt ! i \<le> pt ! (i + 1)" using less.prems(1) unfolding d by simp
      then have "pt ! i < pt ! (i + 1)" using ne by (simp only: order.strict_iff_order) blast
      then obtain j where j: "compress_run pt len i = Inr j" "i \<le> j" "j + 1 < len"
        "compress (pt ! i # drop (i + 1) ?L) = pt ! i # pt ! (j + 1) # compress (drop (j + 2) ?L)"
        using compress_drop_run [OF less.prems(1,2) True] by blast
      define pt1 where "pt1 = pt[k := pt ! i, k + 1 := pt ! (j + 1)]"
      have e: "pt[k := pt ! i] ! (j + 1) = pt ! (j + 1)" using j(2) less.prems(3) by simp
      have lp: "compress_loop pt len i k = compress_loop pt1 len (j + 2) (k + 2)"
        using True ne j less.prems e by (simp add: compress_loop.simps [of pt len i k] pt1_def)
      have dj: "drop (j + 2) (take len pt1) = drop (j + 2) ?L"
        using less.prems(3) j(2) by (simp add: pt1_def take_update_swap drop_update_cancel)
      have "drop (j + 2) ?L = drop (j - i) (drop (i + 2) ?L)" using j(2) by simp
      then have "sorted (drop (j + 2) (take len pt1))" unfolding dj using sorted_wrt_drop [OF s2, of "j - i"] by simp
      moreover have "len - (j + 2) < len - i" "len \<le> length pt1" "k + 2 \<le> j + 2" using j less.prems by (auto simp: pt1_def)
      ultimately obtain pt' k' where r: "compress_loop pt1 len (j + 2) (k + 2) = Inr (pt', k')" "length pt' = length pt1"
        "k' \<le> max (k + 2) len" "take k' pt' = take (k + 2) pt1 @ compress (drop (j + 2) ?L)"
        using less.hyps [of "j + 2" pt1 "k + 2"] dj by auto
      have "take (k + 2) pt1 = take k pt @ [pt ! i, pt ! (j + 1)]"
        using less.prems j by (simp add: pt1_def take_Suc_conv_app_nth nth_list_update)
      then have "take k' pt' = take k pt @ compress (drop i ?L)" using r(4) j(4) d(1) by simp
      moreover have "k' \<le> max k len" using r(3) j(2,3) less.prems(3) by auto
      ultimately show ?thesis using lp r(1,2) by (simp add: pt1_def)
    qed
  qed
qed

lemma cr_compress_spec:
  assumes "cr_inv cr" "sorted (cr_contents cr)"
  shows "\<exists>cr'. cr_compress cr = Inr cr' \<and> cr_inv cr' \<and> cr_contents cr' = compress (cr_contents cr)"
proof -
  have "cr_len cr \<le> length (cr_points cr)" "sorted (drop 0 (take (cr_len cr) (cr_points cr)))"
    using assms by (auto simp: cr_inv_def cr_contents_def)
  then obtain pt k where "compress_loop (cr_points cr) (cr_len cr) 0 0 = Inr (pt, k)" "length pt = length (cr_points cr)"
    "k \<le> cr_len cr" "take k pt = compress (cr_contents cr)"
    using compress_loop_spec [of 0 "cr_len cr" "cr_points cr" 0] by (auto simp: cr_contents_def)
  then show ?thesis using assms(1) by (auto simp: cr_compress_def cr_inv_def cr_contents_def)
qed

lemma compress_set: "set (compress ps) \<subseteq> set ps"
  by (induction ps rule: compress.induct) auto

lemma compress_canonical: "sorted ps \<Longrightarrow> canonical (compress ps)"
proof (induction ps rule: compress.induct)
  case (1 p q r s ps)
  show ?case
  proof (cases "p = q \<or> q = r")
    case False
    then have "p < q" "q < r" using "1.prems" by auto
    moreover have "\<forall>x \<in> set (compress (r # s # ps)). r \<le> x" using compress_set [of "r # s # ps"] "1.prems" by auto
    ultimately show ?thesis using "1.IH"(3) "1.prems" False by (auto simp: canonical_def)
  qed (use 1 in auto)
qed (auto simp: canonical_def)

lemma compress_below: "even (length ps) \<Longrightarrow> odd (below c (compress ps)) = odd (below c ps)"
  by (induction ps rule: compress.induct) auto

lemma cr_set_compress: "even (length ps) \<Longrightarrow> cr_set (compress ps) = cr_set ps"
  by (simp add: cr_set_def compress_below)

section \<open>The operations as operations on sets\<close>

definition op_set :: "cr_op_enum \<Rightarrow> u32 set \<Rightarrow> u32 set \<Rightarrow> u32 set" where
  "op_set op A B = (case op of CR_OP_UNION \<Rightarrow> A \<union> B | CR_OP_INTER \<Rightarrow> A \<inter> B | CR_OP_XOR \<Rightarrow> (A - B) \<union> (B - A))"

text \<open>\<open>cr_yields S res\<close>: no fault, and either 0 with a canonical range that denotes \<open>S\<close>, or -1.\<close>

definition cr_yields :: "u32 set \<Rightarrow> (char_range \<times> int) cres \<Rightarrow> bool" where
  "cr_yields S res \<longleftrightarrow>
     (\<exists>cr r. res = Inr (cr, r) \<and> cr_inv cr \<and>
        (r = 0 \<and> canonical (cr_contents cr) \<and> cr_set (cr_contents cr) = S \<or> r = -1))"

lemma canonical_sorted: "canonical ps \<Longrightarrow> sorted ps"
  by (auto simp: canonical_def strict_sorted_iff)

lemma canonical_even: "cr_inv cr \<Longrightarrow> canonical (cr_contents cr) \<Longrightarrow> even (cr_len cr)"
  by (metis canonical_def length_cr_contents)

lemma cr_compress_yields:
  assumes "cr_inv cr" "sorted (cr_contents cr)" "even (cr_len cr)" "cr_set (cr_contents cr) = S"
  shows "cr_yields S (cbind (cr_compress cr) (\<lambda>cr. Inr (cr, 0)))"
proof -
  obtain cr' where "cr_compress cr = Inr cr'" "cr_inv cr'" "cr_contents cr' = compress (cr_contents cr)"
    using cr_compress_spec [OF assms(1,2)] by blast
  then show ?thesis using assms compress_canonical [OF assms(2)] cr_set_compress [of "cr_contents cr"]
    by (auto simp: cr_yields_def)
qed

lemma cr_op_yields:
  assumes "cr_inv cr" "cr_len cr = 0" "a_len \<le> length a_pt" "b_len \<le> length b_pt"
    "sorted (take a_len a_pt)" "sorted (take b_len b_pt)" "even a_len" "even b_len"
  shows "cr_yields (op_set op (cr_set (take a_len a_pt)) (cr_set (take b_len b_pt))) (cr_op cr a_pt a_len b_pt b_len op)"
proof -
  let ?ps = "op_points op 0 0 0 (events (take a_len a_pt) (take b_len b_pt))"
  note m = op_points_merge [OF assms(5,6), where op = op]
  have c0: "cr_contents cr = []" using assms(2) by (simp add: cr_contents_def)
  then obtain cr1 r where l: "cr_op_loop cr a_pt a_len 0 b_pt b_len 0 op = Inr (cr1, r)" "cr_inv cr1"
    "r = 0 \<and> cr_contents cr1 = ?ps \<or> r = -1"
    using cr_op_loop_result [OF assms(1,3,4), of op 0 0] assms(2) by (auto simp: cr_result_def)
  show ?thesis
  proof (cases "r = 0")
    case True
    have c1: "cr_contents cr1 = ?ps" using l(3) True by simp
    have "even (length ?ps)" using m(3) assms(3,4,7,8) by (simp add: op_bool_def split: cr_op_enum.splits)
    then have "even (cr_len cr1)" using c1 length_cr_contents [OF l(2)] by metis
    moreover have "cr_set (cr_contents cr1) = op_set op (cr_set (take a_len a_pt)) (cr_set (take b_len b_pt))"
      using m(2) by (auto simp: c1 cr_set_def op_bool_def op_set_def split: cr_op_enum.splits)
    ultimately have "cr_yields (op_set op (cr_set (take a_len a_pt)) (cr_set (take b_len b_pt)))
        (cbind (cr_compress cr1) (\<lambda>cr. Inr (cr, 0)))"
      using l(2) m(1) by (intro cr_compress_yields) (auto simp: c1)
    then show ?thesis using l(1) True by (simp add: cr_op_def)
  qed (use l in \<open>auto simp: cr_op_def cr_yields_def\<close>)
qed

lemma cr_union1_yields:
  assumes "cr_inv cr" "canonical (cr_contents cr)" "b_len \<le> length b_pt" "sorted (take b_len b_pt)" "even b_len"
  shows "cr_yields (cr_set (cr_contents cr) \<union> cr_set (take b_len b_pt)) (cr_union1 cr b_pt b_len)"
proof -
  have "even (cr_len cr)" using assms(2) length_cr_contents [OF assms(1)] by (simp add: canonical_def)
  then show ?thesis
    using assms canonical_sorted [OF assms(2)]
      cr_op_yields [of "cr\<lparr>cr_len := 0, cr_size := 0, cr_points := []\<rparr>" "cr_len cr" "cr_points cr" b_len b_pt CR_OP_UNION]
    by (simp add: cr_union1_def cr_inv_def cr_contents_def op_set_def)
qed

lemma word_less_succ:
  assumes "c < (0xFFFFFFFF :: u32)"
  shows "x < c + 1 \<longleftrightarrow> x \<le> c"
proof -
  have "unat c < 4294967295" using assms by (simp add: word_less_nat_alt)
  then have "unat (c + 1) = Suc (unat c)" by (simp add: unat_word_ariths)
  then show ?thesis by (simp add: word_less_nat_alt word_le_nat_alt less_Suc_eq_le)
qed

lemma cr_set_interval:
  assumes "c1 \<le> c2" "c2 < (0xFFFFFFFF :: u32)"
  shows "cr_set [c1, c2 + 1] = {c1..c2}" "c1 \<le> c2 + 1"
proof -
  have s: "c2 + 1 \<le> x \<longleftrightarrow> \<not> x \<le> c2" for x using word_less_succ [OF assms(2), of x] by (simp add: not_less [symmetric])
  show "c1 \<le> c2 + 1" using word_less_succ [OF assms(2), of c1] assms(1) by (simp only: less_imp_le)
  show "cr_set [c1, c2 + 1] = {c1..c2}"
  proof (rule set_eqI)
    fix x
    show "x \<in> cr_set [c1, c2 + 1] \<longleftrightarrow> x \<in> {c1..c2}"
    proof (cases "c1 \<le> x")
      case False
      then have "x \<le> c2" using assms(1) by (meson le_less_trans less_imp_le not_le)
      then show ?thesis using False by (simp add: cr_set_def s)
    qed (simp add: cr_set_def s)
  qed
qed

lemma cr_union_interval_yields:
  assumes "cr_inv cr" "canonical (cr_contents cr)" "c1 \<le> c2" "c2 < 0xFFFFFFFF"
  shows "cr_yields (cr_set (cr_contents cr) \<union> {c1..c2}) (cr_union_interval cr c1 c2)"
  using cr_union1_yields [OF assms(1,2), of 2 "[c1, c2 + 1]"] cr_set_interval [OF assms(3,4)]
  by (simp add: cr_union_interval_def numeral_2_eq_2)

lemma u32_max: "p \<le> (0xFFFFFFFF :: u32)"
proof -
  have "unat p < 4294967296" by simp
  then have "unat p \<le> 4294967295" by linarith
  then show ?thesis by (simp add: word_le_nat_alt)
qed

lemma below_max: "below 0xFFFFFFFF ps = length ps"
  by (simp add: below_def u32_max)

lemma cr_set_not_max: "even (length ps) \<Longrightarrow> 0xFFFFFFFF \<notin> cr_set ps"
  by (simp add: cr_set_def below_max)

lemma cr_set_inverted: "even (length ps) \<Longrightarrow> cr_set (0 # ps @ [0xFFFFFFFF]) = - cr_set ps - {0xFFFFFFFF}"
proof (rule set_eqI)
  fix c :: u32
  assume e: "even (length ps)"
  show "c \<in> cr_set (0 # ps @ [0xFFFFFFFF]) \<longleftrightarrow> c \<in> - cr_set ps - {0xFFFFFFFF}"
  proof (cases "c = 0xFFFFFFFF")
    case False
    then have "\<not> 0xFFFFFFFF \<le> c" using u32_max [of c] by (metis order.antisym)
    then show ?thesis using False by (simp add: cr_set_def)
  qed (use e in \<open>simp add: cr_set_def below_max\<close>)
qed

lemma cr_invert_yields:
  assumes "cr_inv cr" "sorted (cr_contents cr)" "even (cr_len cr)"
  shows "cr_yields (- cr_set (cr_contents cr) - {0xFFFFFFFF}) (cr_invert cr)"
proof (cases rule: cr_realloc_cases [OF assms(1), of "cr_len cr + 2"])
  case (1 cr1)
  define ps where "ps = cr_contents cr"
  define n where "n = cr_len cr"
  have l: "n + 2 \<le> length (cr_points cr1)" "take n (cr_points cr1) = ps" "length ps = n"
    using 1 length_cr_contents [OF assms(1)] by (auto simp: cr_inv_def cr_contents_def n_def ps_def)
  define p where "p = (take 1 (cr_points cr1) @ ps @ drop (1 + n) (cr_points cr1))[0 := 0, n + 1 := 0xFFFFFFFF]"
  let ?cr = "cr1\<lparr>cr_points := p, cr_len := n + 2\<rparr>"
  have tp: "take (n + 2) p = 0 # ps @ [0xFFFFFFFF]"
  proof -
    obtain a q where q: "cr_points cr1 = a # q" using l(1) by (cases "cr_points cr1") auto
    obtain b q' where "drop n q = b # q'" using l(1) q by (cases "drop n q") auto
    then have "p = 0 # (ps @ b # q')[n := 0xFFFFFFFF]" using l(3) by (simp add: p_def q)
    then have "p = 0 # ps @ 0xFFFFFFFF # q'" using l(3) by (simp add: list_update_append)
    then show ?thesis using l(3) by simp
  qed
  have len: "length p = length (cr_points cr1)" using l by (simp add: p_def)
  have "cr_invert cr = cbind (cr_compress ?cr) (\<lambda>cr. Inr (cr, 0))"
    using 1(1) l by (simp add: cr_invert_def Let_def n_def [symmetric] p_def)
  moreover have "cr_yields (- cr_set ps - {0xFFFFFFFF}) (cbind (cr_compress ?cr) (\<lambda>cr. Inr (cr, 0)))"
  proof (rule cr_compress_yields)
    have c: "cr_contents ?cr = 0 # ps @ [0xFFFFFFFF]" using tp by (simp add: cr_contents_def)
    show "cr_inv ?cr" using 1 l len by (simp add: cr_inv_def)
    show "sorted (cr_contents ?cr)" unfolding c using assms(2) u32_max by (simp add: sorted_append ps_def)
    show "even (cr_len ?cr)" using assms(3) by (simp add: n_def)
    show "cr_set (cr_contents ?cr) = - cr_set ps - {0xFFFFFFFF}"
      unfolding c using assms(3) l(3) by (intro cr_set_inverted) (simp add: n_def)
  qed
  ultimately show ?thesis by (simp add: ps_def)
next
  case 2
  then show ?thesis using assms(1) by (auto simp: cr_invert_def cr_yields_def)
qed

lemma cr_copy_result:
  assumes "cr_inv cr" "cr_inv cr1"
  shows "cr_result (cr_contents cr1) (cr_copy cr cr1)"
proof (cases rule: cr_realloc_cases [OF assms(1), of "cr_len cr1"])
  case (1 cr')
  have r: "rd_block (cr_points cr1) 0 (cr_len cr1) = Inr (cr_contents cr1)" using assms(2) by (simp add: cr_inv_def cr_contents_def)
  let ?p = "cr_contents cr1 @ drop (cr_len cr1) (cr_points cr')"
  have "wr_block (cr_points cr') 0 (cr_contents cr1) = Inr ?p" using 1 assms(2) by (simp add: cr_inv_def)
  then have "cr_copy cr cr1 = Inr (cr'\<lparr>cr_points := ?p, cr_len := cr_len cr1\<rparr>, 0)" using 1 r by (simp add: cr_copy_def)
  then show ?thesis using 1 assms(2) by (auto simp: cr_result_def cr_inv_def cr_contents_def)
next
  case 2
  then show ?thesis using assms(1) by (auto simp: cr_copy_def cr_result_def)
qed

lemma cr_add_interval_result:
  assumes "cr_inv cr"
  shows "cr_result (cr_contents cr @ [c1, c2]) (cr_add_interval cr c1 c2)"
proof -
  have g: "(if cr_len cr + 2 > cr_size cr then cr_realloc cr (cr_len cr + 2) else (cr, 0)) = cr_realloc cr (cr_len cr + 2)"
    by (simp add: cr_realloc_def)
  show ?thesis
  proof (cases rule: cr_realloc_cases [OF assms, of "cr_len cr + 2"])
    case (1 cr1)
    have lt: "cr_len cr1 + 1 < length (cr_points cr1)" using 1 by (auto simp: cr_inv_def)
    let ?cr = "cr1\<lparr>cr_points := (cr_points cr1)[cr_len cr1 := c1, cr_len cr1 + 1 := c2], cr_len := cr_len cr1 + 2\<rparr>"
    have "cr_add_interval cr c1 c2 = Inr (?cr, 0)" unfolding cr_add_interval_def g using 1 lt by simp
    moreover have "cr_inv ?cr" using 1 by (auto simp: cr_inv_def)
    moreover have "cr_contents ?cr = cr_contents cr1 @ [c1, c2]"
      using lt by (simp add: cr_contents_def take_Suc_conv_app_nth)
    ultimately show ?thesis using 1 by (auto simp: cr_result_def)
  next
    case 2
    then show ?thesis unfolding cr_add_interval_def g using assms by (auto simp: cr_result_def)
  qed
qed

section \<open>Properties\<close>

text \<open>
  C12. \<open>cr_op\<close> on two sorted point arrays of even length and an empty result range never reads or
  writes outside the arrays, and unless it runs out of memory leaves a strictly increasing point
  list of even length that denotes the union, intersection or symmetric difference of the operands.
\<close>

theorem cr_op_correct:
  assumes "cr_inv cr" "cr_len cr = 0" "a_len \<le> length a_pt" "b_len \<le> length b_pt"
    "sorted (take a_len a_pt)" "sorted (take b_len b_pt)" "even a_len" "even b_len"
  shows "cr_yields (op_set op (cr_set (take a_len a_pt)) (cr_set (take b_len b_pt))) (cr_op cr a_pt a_len b_pt b_len op)"
  using assms by (rule cr_op_yields)

theorem cr_op_correct_witness:
  "cr_yields (op_set CR_OP_XOR (cr_set [1, 5]) (cr_set [3, 3, 4, 8])) (cr_op (cr_init 16 None) [1, 5] 2 [3, 3, 4, 8] 4 CR_OP_XOR)"
  using cr_op_correct [of "cr_init 16 None" 2 "[1, 5]" 4 "[3, 3, 4, 8]" CR_OP_XOR] cr_init_inv [of None 16]
  by (simp add: cr_init_def)

text \<open>
  C13. \<open>cr_union_interval\<close> adds the codes from \<open>c1\<close> to \<open>c2\<close>, both included, and \<open>cr_invert\<close> complements
  within the codes below \<open>UINT32_MAX\<close>; both keep the point list strictly increasing and of even length.
\<close>

theorem cr_union_interval_invert_correct:
  assumes "cr_inv cr" "canonical (cr_contents cr)" "c1 \<le> c2" "c2 < 0xFFFFFFFF"
  shows "cr_yields (cr_set (cr_contents cr) \<union> {c1..c2}) (cr_union_interval cr c1 c2) \<and>
    cr_yields (- cr_set (cr_contents cr) - {0xFFFFFFFF}) (cr_invert cr)"
  using cr_union_interval_yields [OF assms] cr_invert_yields [OF assms(1) canonical_sorted [OF assms(2)]]
    canonical_even [OF assms(1,2)] by blast

theorem cr_union_interval_invert_correct_witness:
  "cr_yields {0x30..0x39} (cr_union_interval (cr_init 16 None) 0x30 0x39) \<and>
   cr_yields (UNIV - {0xFFFFFFFF}) (cr_invert (cr_init 16 None))"
proof -
  have c: "cr_inv (cr_init 16 None)" "cr_contents (cr_init 16 None) = []" using cr_init_inv [of None 16] by auto
  then have "canonical (cr_contents (cr_init 16 None))" by (simp add: canonical_def)
  from cr_union_interval_invert_correct [OF c(1) this, of "0x30" "0x39"] show ?thesis
    unfolding c(2) by (simp add: cr_set_def)
qed

end
