(* ===== verification/Rqsort_Safe.thy ===== *)
theory Rqsort_Safe
  imports Rqsort
begin

text \<open>
  What \<open>rqsort\<close> guarantees for every comparison function, consistent or not: it terminates, stays
  inside the segment it was given, never overflows its stack of 50 frames, and permutes the
  elements of the segment. The partition step is described exactly, in terms of the sign of
  the comparison with the pivot.
\<close>

section \<open>Heap sort\<close>

lemma cmp_at_in [simp]: "i < length xs \<Longrightarrow> j < length xs \<Longrightarrow> cmp_at cmp xs i j = Inr (cmp (xs ! i) (xs ! j))"
  by (simp add: cmp_at_def)

lemma exch_in [simp]: "i < length xs \<Longrightarrow> j < length xs \<Longrightarrow> exch xs i j = Inr (xs[i := xs ! j, j := xs ! i])"
  by (simp add: exch_def)

lemma sift_child_in:
  "base + n \<le> length xs \<Longrightarrow> c < n \<Longrightarrow>
     sift_child cmp xs base n c =
       Inr (if c + 1 < n \<and> cmp (xs ! (base + c)) (xs ! (base + c + 1)) \<le> 0 then c + 1 else c)"
  by (auto simp: sift_child_def)

text \<open>One turn of the sift loop, with the child it picks.\<close>

definition sift_pick :: "'a cmp_f \<Rightarrow> 'a list \<Rightarrow> nat \<Rightarrow> nat \<Rightarrow> nat \<Rightarrow> nat" where
  "sift_pick cmp xs base n r =
     (let c = 2 * r + 1 in
      if c + 1 < n \<and> cmp (xs ! (base + c)) (xs ! (base + c + 1)) \<le> 0 then c + 1 else c)"

lemma sift_pick_range: "2 * r + 1 < n \<Longrightarrow> r < sift_pick cmp xs base n r \<and> sift_pick cmp xs base n r < n"
  by (auto simp: sift_pick_def Let_def)

lemma sift_down_unfold:
  assumes "base + n \<le> length xs"
  shows "sift_down cmp xs base n r =
    (if 2 * r + 1 < n \<and> cmp (xs ! (base + r)) (xs ! (base + sift_pick cmp xs base n r)) \<le> 0
     then sift_down cmp (xs[base + r := xs ! (base + sift_pick cmp xs base n r),
            base + sift_pick cmp xs base n r := xs ! (base + r)]) base n (sift_pick cmp xs base n r)
     else Inr xs)"
proof (cases "2 * r + 1 < n")
  case True
  define c where "c = sift_pick cmp xs base n r"
  have c: "sift_child cmp xs base n (r * 2 + 1) = Inr c"
    using True assms by (simp add: sift_child_in c_def sift_pick_def mult.commute)
  have "base + r < length xs" "base + c < length xs"
    using sift_pick_range [OF True, of cmp xs base] True assms by (auto simp: c_def)
  then show ?thesis
    unfolding sift_down.simps [of cmp xs base n r] using True c
    by (simp add: c_def [symmetric] mult.commute)
qed (simp add: sift_down.simps [of cmp xs base n r] mult.commute)

lemma sift_down_safe:
  "base + n \<le> length xs \<Longrightarrow> \<exists>ys. sift_down cmp xs base n r = Inr ys \<and> seg_perm base (base + n) xs ys"
proof (induction "n - r" arbitrary: xs r rule: less_induct)
  case less
  let ?c = "sift_pick cmp xs base n r"
  let ?xs = "xs[base + r := xs ! (base + ?c), base + ?c := xs ! (base + r)]"
  show ?case
  proof (cases "2 * r + 1 < n \<and> cmp (xs ! (base + r)) (xs ! (base + ?c)) \<le> 0")
    case True
    then have c: "r < ?c" "?c < n" using sift_pick_range [of r n] by auto
    then have "n - ?c < n - r" by linarith
    then obtain ys where "sift_down cmp ?xs base n ?c = Inr ys" "seg_perm base (base + n) ?xs ys"
      using less.hyps [of ?c ?xs] less.prems by auto
    moreover have "seg_perm base (base + n) xs ?xs" using c less.prems by (intro seg_perm_step) auto
    ultimately show ?thesis using True less.prems by (auto simp: sift_down_unfold [of base n xs] intro: seg_perm_trans)
  qed (auto simp: sift_down_unfold [OF less.prems])
qed

lemma heapify_safe:
  "base + n \<le> length xs \<Longrightarrow> \<exists>ys. heapify cmp xs base n i = Inr ys \<and> seg_perm base (base + n) xs ys"
proof (induction i arbitrary: xs)
  case (Suc i)
  then obtain ys where "sift_down cmp xs base n i = Inr ys" "seg_perm base (base + n) xs ys"
    using sift_down_safe by blast
  moreover then obtain zs where "heapify cmp ys base n i = Inr zs" "seg_perm base (base + n) ys zs"
    using Suc.IH [of ys] Suc.prems seg_perm_length [of base "base + n" xs ys] by auto
  ultimately show ?case by (auto intro: seg_perm_trans)
qed auto

lemma heap_extract_safe:
  "base + Suc i \<le> length xs \<Longrightarrow> \<exists>ys. heap_extract cmp xs base i = Inr ys \<and> seg_perm base (base + Suc i) xs ys"
proof (induction i arbitrary: xs)
  case (Suc i)
  let ?xs = "xs[base := xs ! (base + Suc i), base + Suc i := xs ! base]"
  have x: "seg_perm base (base + Suc (Suc i)) xs ?xs" using Suc.prems by (intro seg_perm_step) auto
  obtain ys where ys: "sift_down cmp ?xs base (Suc i) 0 = Inr ys" "seg_perm base (base + Suc i) ?xs ys"
    using sift_down_safe [of base "Suc i" ?xs cmp 0] Suc.prems by auto
  then obtain zs where zs: "heap_extract cmp ys base i = Inr zs" "seg_perm base (base + Suc i) ys zs"
    using Suc.IH [of ys] Suc.prems seg_perm_length [OF ys(2)] by auto
  have "seg_perm base (base + Suc (Suc i)) ?xs zs"
    by (rule seg_perm_mono [OF seg_perm_trans [OF zs(2) ys(2)]]) auto
  then show ?case using x ys zs Suc.prems by (auto intro: seg_perm_trans)
qed auto

lemma heapsortx_safe:
  assumes "base + n \<le> length xs"
  shows "\<exists>ys. heapsortx cmp xs base n = Inr ys \<and> seg_perm base (base + n) xs ys"
proof (cases "n > 1")
  case True
  obtain ys where ys: "heapify cmp xs base n (n div 2) = Inr ys" "seg_perm base (base + n) xs ys"
    using heapify_safe [OF assms] by blast
  moreover obtain zs where "heap_extract cmp ys base (n - 1) = Inr zs" "seg_perm base (base + n) ys zs"
    using heap_extract_safe [of base "n - 1" ys cmp] seg_perm_length [OF ys(2)] assms True by auto
  ultimately show ?thesis using True by (auto simp: heapsortx_def intro: seg_perm_trans)
qed (auto simp: heapsortx_def)

section \<open>Insertion sort\<close>

lemma insert_elem_safe:
  "ptr + k < length xs \<Longrightarrow> \<exists>ys. insert_elem cmp xs ptr k = Inr ys \<and> seg_perm ptr (ptr + Suc k) xs ys"
proof (induction k arbitrary: xs)
  case (Suc k)
  let ?xs = "xs[ptr + Suc k := xs ! (ptr + k), ptr + k := xs ! (ptr + Suc k)]"
  obtain ys where ys: "insert_elem cmp ?xs ptr k = Inr ys" "seg_perm ptr (ptr + Suc k) ?xs ys"
    using Suc.IH [of ?xs] Suc.prems by auto
  have "seg_perm ptr (ptr + Suc (Suc k)) ?xs ys" using ys(2) by (rule seg_perm_mono) auto
  moreover have "seg_perm ptr (ptr + Suc (Suc k)) xs ?xs" using Suc.prems by (intro seg_perm_step) auto
  ultimately show ?case using ys(1) Suc.prems by (auto intro: seg_perm_trans)
qed auto

lemma insertion_loop_safe:
  "ptr + n \<le> length xs \<Longrightarrow> \<exists>ys. insertion_loop cmp xs ptr k n = Inr ys \<and> seg_perm ptr (ptr + n) xs ys"
proof (induction "n - k" arbitrary: xs k rule: less_induct)
  case less
  show ?case
  proof (cases "k < n")
    case True
    then obtain ys where ys: "insert_elem cmp xs ptr k = Inr ys" "seg_perm ptr (ptr + n) xs ys"
      using insert_elem_safe [of ptr k xs cmp] less.prems seg_perm_mono [of ptr "ptr + Suc k" xs _ ptr "ptr + n"] by auto
    moreover have "n - (k + 1) < n - k" using True by linarith
    ultimately obtain zs where "insertion_loop cmp ys ptr (k + 1) n = Inr zs" "seg_perm ptr (ptr + n) ys zs"
      using less.hyps [of "k + 1" ys] less.prems seg_perm_length [OF ys(2)] True by auto
    then show ?thesis using ys True by (auto simp: insertion_loop.simps [of cmp xs] intro: seg_perm_trans)
  qed (auto simp: insertion_loop.simps [of cmp xs])
qed

section \<open>Partition\<close>

text \<open>
  The four parts of the segment during the partition, as the comment in the source has them:
  \<open>0 ..< lt\<close> and \<open>gt ..< n\<close> hold elements equal to the pivot \<open>p\<close>, \<open>lt ..< i\<close> smaller ones and \<open>pj ..< gt\<close> greater ones.
\<close>

definition part_low :: "'a cmp_f \<Rightarrow> 'a \<Rightarrow> 'a list \<Rightarrow> nat \<Rightarrow> nat \<Rightarrow> nat \<Rightarrow> bool" where
  "part_low cmp p xs ptr lt i \<longleftrightarrow>
     xs ! ptr = p \<and> 0 < lt \<and> lt \<le> i \<and> (\<forall>k. 0 < k \<and> k < lt \<longrightarrow> cmp p (xs ! (ptr + k)) = 0) \<and>
     (\<forall>k. lt \<le> k \<and> k < i \<longrightarrow> cmp p (xs ! (ptr + k)) > 0)"

definition part_high :: "'a cmp_f \<Rightarrow> 'a \<Rightarrow> 'a list \<Rightarrow> nat \<Rightarrow> nat \<Rightarrow> nat \<Rightarrow> nat \<Rightarrow> bool" where
  "part_high cmp p xs ptr pj gt n \<longleftrightarrow>
     pj \<le> gt \<and> gt \<le> n \<and> (\<forall>k. pj \<le> k \<and> k < gt \<longrightarrow> cmp p (xs ! (ptr + k)) < 0) \<and>
     (\<forall>k. gt \<le> k \<and> k < n \<longrightarrow> cmp p (xs ! (ptr + k)) = 0)"

lemma part_low_equal:
  assumes "part_low cmp p xs ptr lt i" "cmp p (xs ! (ptr + i)) = 0" "ptr + i < length xs"
  shows "part_low cmp p (xs[ptr + lt := xs ! (ptr + i), ptr + i := xs ! (ptr + lt)]) ptr (lt + 1) (i + 1)"
  using assms by (auto simp: part_low_def nth_list_update less_Suc_eq)

lemma part_low_smaller:
  assumes "part_low cmp p xs ptr lt i" "cmp p (xs ! (ptr + i)) > 0"
  shows "part_low cmp p xs ptr lt (i + 1)"
  using assms by (auto simp: part_low_def less_Suc_eq)

lemma scan_up_spec:
  "part_low cmp p xs ptr lt i \<Longrightarrow> i \<le> pj \<Longrightarrow> ptr + pj \<le> length xs \<Longrightarrow>
     \<exists>ys i' lt'. scan_up cmp xs ptr i lt pj = Inr (ys, i', lt') \<and> seg_perm (ptr + 1) (ptr + pj) xs ys \<and>
       part_low cmp p ys ptr lt' i' \<and> i \<le> i' \<and> i' \<le> pj \<and> (i' < pj \<longrightarrow> cmp p (ys ! (ptr + i')) < 0)"
proof (induction "pj - i" arbitrary: xs i lt)
  case 0
  then show ?case by (auto simp: scan_up.simps)
next
  case (Suc k)
  then have r: "i < pj" "0 < lt" "lt \<le> i" "xs ! ptr = p" "k = pj - (i + 1)" by (auto simp: part_low_def)
  have c: "cmp_at cmp xs ptr (ptr + i) = Inr (cmp p (xs ! (ptr + i)))" using r Suc.prems by simp
  consider "cmp p (xs ! (ptr + i)) = 0" | "cmp p (xs ! (ptr + i)) > 0" | "cmp p (xs ! (ptr + i)) < 0" by linarith
  then show ?case
  proof cases
    case 1
    let ?xs = "xs[ptr + lt := xs ! (ptr + i), ptr + i := xs ! (ptr + lt)]"
    have e: "exch xs (ptr + lt) (ptr + i) = Inr ?xs" using r Suc.prems by simp
    have s: "seg_perm (ptr + 1) (ptr + pj) xs ?xs" using r Suc.prems by (intro seg_perm_step) auto
    have "part_low cmp p ?xs ptr (lt + 1) (i + 1)" using Suc.prems 1 r by (intro part_low_equal) auto
    from Suc.hyps(1) [OF r(5) this] r Suc.prems show ?thesis
      unfolding scan_up.simps [of cmp xs ptr i lt pj] c
      using 1 e seg_perm_trans [OF _ s] by fastforce
  next
    case 2
    from Suc.hyps(1) [OF r(5) part_low_smaller [OF Suc.prems(1) 2]] r Suc.prems show ?thesis
      unfolding scan_up.simps [of cmp xs ptr i lt pj] c using 2 by fastforce
  next
    case 3
    then show ?thesis unfolding scan_up.simps [of cmp xs ptr i lt pj] c using r Suc.prems by auto
  qed
qed

lemma part_high_equal:
  assumes "part_high cmp p xs ptr (Suc pj) gt n" "cmp p (xs ! (ptr + pj)) = 0" "ptr + n \<le> length xs"
  shows "part_high cmp p (xs[ptr + (gt - 1) := xs ! (ptr + pj), ptr + pj := xs ! (ptr + (gt - 1))]) ptr pj (gt - 1) n"
proof -
  from assms obtain g where g: "gt = Suc g" "pj \<le> g" by (cases gt) (auto simp: part_high_def)
  let ?ys = "xs[ptr + g := xs ! (ptr + pj), ptr + pj := xs ! (ptr + g)]"
  have "cmp p (?ys ! (ptr + k)) < 0" if "pj \<le> k" "k < g" for k
    using assms that g by (cases "k = pj") (auto simp: part_high_def nth_list_update)
  moreover have "cmp p (?ys ! (ptr + k)) = 0" if "g \<le> k" "k < n" for k
    using assms that g by (cases "k = g"; cases "k = pj") (auto simp: part_high_def nth_list_update)
  ultimately show ?thesis using assms g by (auto simp: part_high_def)
qed

lemma part_high_greater:
  assumes "part_high cmp p xs ptr (Suc pj) gt n" "cmp p (xs ! (ptr + pj)) < 0"
  shows "part_high cmp p xs ptr pj gt n"
proof -
  have "cmp p (xs ! (ptr + k)) < 0" if "pj \<le> k" "k < gt" for k
    using assms that by (cases "k = pj") (auto simp: part_high_def)
  then show ?thesis using assms by (auto simp: part_high_def)
qed

lemma scan_down_spec:
  "part_high cmp p xs ptr pj gt n \<Longrightarrow> i \<le> pj \<Longrightarrow> 0 < pj \<Longrightarrow> ptr + n \<le> length xs \<Longrightarrow> xs ! ptr = p \<Longrightarrow>
     \<exists>ys gt' pj'. scan_down cmp xs ptr i gt pj = Inr (ys, gt', pj') \<and> seg_perm (ptr + Suc i) (ptr + n) xs ys \<and>
       part_high cmp p ys ptr (Suc pj') gt' n \<and> i \<le> Suc pj' \<and> pj' < pj \<and> (i < pj' \<longrightarrow> cmp p (ys ! (ptr + pj')) > 0)"
proof (induction pj arbitrary: xs gt)
  case (Suc pj)
  then have g: "Suc pj \<le> gt" "gt \<le> n" by (auto simp: part_high_def)
  show ?case
  proof (cases "i < pj")
    case True
    have c: "cmp_at cmp xs ptr (ptr + pj) = Inr (cmp p (xs ! (ptr + pj)))" using g Suc.prems by simp
    consider "cmp p (xs ! (ptr + pj)) = 0" | "cmp p (xs ! (ptr + pj)) < 0" | "cmp p (xs ! (ptr + pj)) > 0" by linarith
    then show ?thesis
    proof cases
      case 1
      define xs1 where "xs1 = xs[ptr + (gt - 1) := xs ! (ptr + pj), ptr + pj := xs ! (ptr + (gt - 1))]"
      have e: "exch xs (ptr + (gt - 1)) (ptr + pj) = Inr xs1" using g Suc.prems by (simp add: xs1_def)
      have s: "seg_perm (ptr + Suc i) (ptr + n) xs xs1" unfolding xs1_def using g True Suc.prems by (intro seg_perm_step) auto
      have p: "xs1 ! ptr = p" "length xs1 = length xs" using g True Suc.prems by (auto simp: nth_list_update xs1_def)
      have "part_high cmp p xs1 ptr pj (gt - 1) n" unfolding xs1_def using Suc.prems 1 by (intro part_high_equal) auto
      then obtain ys gt' pj' where y: "scan_down cmp xs1 ptr i (gt - 1) pj = Inr (ys, gt', pj')"
        "seg_perm (ptr + Suc i) (ptr + n) xs1 ys" "part_high cmp p ys ptr (Suc pj') gt' n" "i \<le> Suc pj'" "pj' < pj"
        "i < pj' \<longrightarrow> cmp p (ys ! (ptr + pj')) > 0"
        using Suc.IH [of xs1 "gt - 1"] p True Suc.prems by auto
      moreover have "scan_down cmp xs ptr i gt (Suc pj) = Inr (ys, gt', pj')" using 1 True c e y(1) by simp
      ultimately show ?thesis using seg_perm_trans [OF y(2) s] by auto
    next
      case 2
      have "scan_down cmp xs ptr i gt (Suc pj) = scan_down cmp xs ptr i gt pj" using 2 True c by simp
      then show ?thesis using Suc.IH [OF part_high_greater [OF Suc.prems(1) 2]] True Suc.prems less_SucI by fastforce
    next
      case 3
      then show ?thesis using c True Suc.prems by auto
    qed
  qed (use Suc.prems in auto)
qed simp

lemma partition_loop_spec:
  "part_low cmp p xs ptr lt i \<Longrightarrow> part_high cmp p xs ptr pj gt n \<Longrightarrow> i \<le> pj \<Longrightarrow> ptr + n \<le> length xs \<Longrightarrow>
     \<exists>ys i' lt' gt'. partition_loop cmp xs ptr i lt pj gt = Inr (ys, i', lt', gt') \<and>
       seg_perm (ptr + 1) (ptr + n) xs ys \<and> part_low cmp p ys ptr lt' i' \<and> part_high cmp p ys ptr i' gt' n"
proof (induction pj arbitrary: xs i lt gt rule: less_induct)
  case (less pj)
  have g: "pj \<le> gt" "gt \<le> n" "0 < pj" using less.prems by (auto simp: part_low_def part_high_def)
  obtain xs1 i1 lt1 where u: "scan_up cmp xs ptr i lt pj = Inr (xs1, i1, lt1)"
    "seg_perm (ptr + 1) (ptr + pj) xs xs1" "part_low cmp p xs1 ptr lt1 i1" "i1 \<le> pj"
    "i1 < pj \<longrightarrow> cmp p (xs1 ! (ptr + i1)) < 0"
    using scan_up_spec [OF less.prems(1,3)] less.prems(4) g by auto
  have s1: "seg_perm (ptr + 1) (ptr + n) xs xs1" using u(2) g by (intro seg_perm_mono [OF u(2)]) auto
  have l1: "length xs1 = length xs" using u(2) by (rule seg_perm_length)
  have "part_high cmp p xs1 ptr pj gt n"
    using less.prems(2) seg_perm_outside [OF u(2)] by (auto simp: part_high_def)
  then obtain xs2 gt2 pj2 where d: "scan_down cmp xs1 ptr i1 gt pj = Inr (xs2, gt2, pj2)"
    "seg_perm (ptr + Suc i1) (ptr + n) xs1 xs2" "part_high cmp p xs2 ptr (Suc pj2) gt2 n" "i1 \<le> Suc pj2" "pj2 < pj"
    "i1 < pj2 \<longrightarrow> cmp p (xs2 ! (ptr + pj2)) > 0"
    using scan_down_spec [of cmp p xs1 ptr pj gt n i1] u g l1 less.prems(4) by (auto simp: part_low_def)
  have s2: "seg_perm (ptr + 1) (ptr + n) xs xs2"
    by (rule seg_perm_trans [OF _ s1], rule seg_perm_mono [OF d(2)]) auto
  have same: "xs2 ! (ptr + k) = xs1 ! (ptr + k)" if "k \<le> i1" for k
    using seg_perm_outside [OF d(2), of "ptr + k"] that by simp
  have low: "part_low cmp p xs2 ptr lt1 i1"
    using u(3) same [of 0] same by (auto simp: part_low_def)
  show ?case
  proof (cases "i1 \<ge> pj2")
    case True
    have "part_high cmp p xs2 ptr i1 gt2 n"
    proof (cases "i1 = Suc pj2")
      case False
      then have "i1 = pj2" "cmp p (xs2 ! (ptr + i1)) < 0" using True d(4,5) u(5) same [of i1] by auto
      then show ?thesis using part_high_greater [of cmp p xs2 ptr i1 gt2 n] d(3) by simp
    qed (use d(3) in simp)
    then show ?thesis using u(1) d(1) True s2 low by (auto simp: partition_loop.simps [of cmp xs])
  next
    case False
    let ?xs = "xs2[ptr + i1 := xs2 ! (ptr + pj2), ptr + pj2 := xs2 ! (ptr + i1)]"
    have l2: "length xs2 = length xs" using s2 by (rule seg_perm_length)
    have in2: "Suc pj2 \<le> gt2" "gt2 \<le> n" "0 < i1" using d(3) low by (auto simp: part_high_def part_low_def)
    have s3: "seg_perm (ptr + 1) (ptr + n) xs2 ?xs"
      using False in2 l2 less.prems(4) by (intro seg_perm_step) auto
    have "part_low cmp p ?xs ptr lt1 i1" using low False by (auto simp: part_low_def nth_list_update)
    moreover have "cmp p (?xs ! (ptr + i1)) > 0" using d(6) False in2 l2 less.prems(4) by (simp add: nth_list_update)
    ultimately have "part_low cmp p ?xs ptr lt1 (i1 + 1)" by (rule part_low_smaller)
    moreover have h: "part_high cmp p ?xs ptr (Suc pj2) gt2 n" using d(3) False by (auto simp: part_high_def nth_list_update)
    have "cmp p (?xs ! (ptr + pj2)) < 0" using u(5) same [of i1] False d(5) in2 l2 less.prems(4) by simp
    then have "part_high cmp p ?xs ptr pj2 gt2 n" by (rule part_high_greater [OF h])
    ultimately obtain ys i' lt' gt' where y: "partition_loop cmp ?xs ptr (i1 + 1) lt1 pj2 gt2 = Inr (ys, i', lt', gt')"
      "seg_perm (ptr + 1) (ptr + n) ?xs ys" "part_low cmp p ys ptr lt' i'" "part_high cmp p ys ptr i' gt' n"
      using less.IH [of pj2 ?xs lt1 "i1 + 1" gt2] d(5) False l2 less.prems(4) by auto
    have "partition_loop cmp xs ptr i lt pj gt = Inr (ys, i', lt', gt')"
      using u(1) d(1) False y(1) in2 l2 less.prems(4) by (auto simp: partition_loop.simps [of cmp xs])
    then show ?thesis using y seg_perm_trans [OF seg_perm_trans [OF y(2) s3] s2] by auto
  qed
qed

text \<open>The effect of the block exchange, relative to \<open>ptr\<close>.\<close>

lemma exch_block_rel:
  assumes "a + k \<le> b" "ptr + b + k \<le> length xs"
  shows "\<exists>ys. exch_block xs (ptr + a) (ptr + b) k = Inr ys \<and> seg_perm (ptr + a) (ptr + (b + k)) xs ys \<and>
    (\<forall>t. ys ! (ptr + t) = (if a \<le> t \<and> t < a + k then xs ! (ptr + (t + (b - a)))
                  else if b \<le> t \<and> t < b + k then xs ! (ptr + (t - (b - a))) else xs ! (ptr + t)))"
proof -
  obtain ys where y: "exch_block xs (ptr + a) (ptr + b) k = Inr ys" "seg_perm (ptr + a) (ptr + b + k) xs ys"
    "\<forall>t. ys ! t = (if ptr + a \<le> t \<and> t < ptr + a + k then xs ! (t + (ptr + b - (ptr + a)))
                  else if ptr + b \<le> t \<and> t < ptr + b + k then xs ! (t - (ptr + b - (ptr + a))) else xs ! t)"
    using exch_block_spec [of "ptr + a" k "ptr + b" xs] assms by auto
  have "ys ! (ptr + t) = (if a \<le> t \<and> t < a + k then xs ! (ptr + (t + (b - a)))
                  else if b \<le> t \<and> t < b + k then xs ! (ptr + (t - (b - a))) else xs ! (ptr + t))" for t
    using y(3) [rule_format, of "ptr + t"] assms by (simp add: add.assoc)
  then show ?thesis using y by (auto simp: add.assoc)
qed

abbreviation (input) like :: "'a cmp_f \<Rightarrow> 'a \<Rightarrow> 'a \<Rightarrow> bool" where
  "like cmp p x \<equiv> x = p \<or> cmp p x = 0"

lemma block_low:
  assumes "part_low cmp p xs ptr lt i" "ptr + i \<le> length xs"
  shows "\<exists>ys. exch_block xs ptr (ptr + i - min lt (i - lt)) (min lt (i - lt)) = Inr ys \<and> seg_perm ptr (ptr + i) xs ys \<and>
    (\<forall>k < i - lt. cmp p (ys ! (ptr + k)) > 0) \<and> (\<forall>k. i - lt \<le> k \<and> k < i \<longrightarrow> like cmp p (ys ! (ptr + k)))"
proof -
  define s where "s = min lt (i - lt)"
  have s: "s \<le> i - s" "s \<le> i" "lt \<le> i" using assms by (auto simp: s_def part_low_def)
  have p: "like cmp p (xs ! (ptr + k))" if "k < lt" for k
    using assms(1) that by (cases "k = 0") (auto simp: part_low_def)
  have q: "cmp p (xs ! (ptr + k)) > 0" if "lt \<le> k" "k < i" for k
    using assms(1) that by (auto simp: part_low_def)
  obtain ys where y: "exch_block xs ptr (ptr + (i - s)) s = Inr ys" "seg_perm ptr (ptr + i) xs ys"
    "\<And>t. ys ! (ptr + t) = (if t < s then xs ! (ptr + (t + (i - s)))
       else if i - s \<le> t \<and> t < i then xs ! (ptr + (t - (i - s))) else xs ! (ptr + t))"
    using exch_block_rel [of 0 s "i - s" ptr xs] s assms(2) by auto
  obtain d where d: "i = lt + d" using s(3) by (auto simp: le_iff_add)
  have "(if lt \<le> d then s = lt \<and> i - s = d else s = d \<and> i - s = lt)" by (auto simp: s_def d)
  note y3 = y(3) and sd = this
  have "cmp p (ys ! (ptr + k)) > 0" if "k < d" for k
    using sd that q [of "k + (i - s)"] q [of k] by (auto simp: y3 d split: if_splits)
  moreover have "like cmp p (ys ! (ptr + k))" if "d \<le> k" "k < i" for k
    using sd that p [of "k - (i - s)"] p [of k] by (auto simp: y3 d split: if_splits)
  moreover have "i - lt = d" by (simp add: d)
  moreover have "ptr + (i - s) = ptr + i - s" using s by simp
  ultimately show ?thesis using y by (auto simp: s_def [symmetric])
qed

lemma block_high:
  assumes "part_high cmp p xs ptr i gt n" "ptr + n \<le> length xs"
  shows "\<exists>ys. exch_block xs (ptr + i) (ptr + n - min (n - gt) (gt - i)) (min (n - gt) (gt - i)) = Inr ys \<and>
    seg_perm (ptr + i) (ptr + n) xs ys \<and>
    (\<forall>k. i \<le> k \<and> k < n - (gt - i) \<longrightarrow> like cmp p (ys ! (ptr + k))) \<and>
    (\<forall>k. n - (gt - i) \<le> k \<and> k < n \<longrightarrow> cmp p (ys ! (ptr + k)) < 0)"
proof -
  define s where "s = min (n - gt) (gt - i)"
  have s: "i + s \<le> n - s" "s \<le> n" "i \<le> gt" "gt \<le> n" using assms by (auto simp: s_def part_high_def)
  have p: "cmp p (xs ! (ptr + k)) = 0" if "gt \<le> k" "k < n" for k
    using assms(1) that by (auto simp: part_high_def)
  have q: "cmp p (xs ! (ptr + k)) < 0" if "i \<le> k" "k < gt" for k
    using assms(1) that by (auto simp: part_high_def)
  obtain ys where y: "exch_block xs (ptr + i) (ptr + (n - s)) s = Inr ys" "seg_perm (ptr + i) (ptr + n) xs ys"
    "\<And>t. ys ! (ptr + t) = (if i \<le> t \<and> t < i + s then xs ! (ptr + (t + (n - s - i)))
       else if n - s \<le> t \<and> t < n then xs ! (ptr + (t - (n - s - i))) else xs ! (ptr + t))"
    using exch_block_rel [of i s "n - s" ptr xs] s assms(2) by auto
  obtain d e where d: "gt = i + d" "n = i + d + e" using s(3,4) by (auto simp: le_iff_add)
  have sd: "(if e \<le> d then s = e \<and> n - s = i + d \<and> n - s - i = d else s = d \<and> n - s = i + e \<and> n - s - i = e)"
    by (auto simp: s_def d)
  note y3 = y(3)
  have "like cmp p (ys ! (ptr + k))" if "i \<le> k" "k < i + e" for k
    using sd that p [of "k + (n - s - i)"] p [of k] by (auto simp: y3 d split: if_splits)
  moreover have "cmp p (ys ! (ptr + k)) < 0" if "i + e \<le> k" "k < n" for k
    using sd that q [of "k - (n - s - i)"] q [of k] by (auto simp: y3 d split: if_splits)
  moreover have "n - (gt - i) = i + e" by (simp add: d)
  moreover have "ptr + (n - s) = ptr + n - s" using s by simp
  ultimately show ?thesis using y by (auto simp: s_def [symmetric])
qed

text \<open>After one turn: smaller elements, elements like the pivot, greater elements.\<close>

definition three_way :: "'a cmp_f \<Rightarrow> 'a \<Rightarrow> 'a list \<Rightarrow> nat \<Rightarrow> nat \<Rightarrow> nat \<Rightarrow> nat \<Rightarrow> bool" where
  "three_way cmp p xs ptr lt gt n \<longleftrightarrow>
     (\<forall>k < lt. cmp p (xs ! (ptr + k)) > 0) \<and>
     (\<forall>k. lt \<le> k \<and> k < gt \<longrightarrow> like cmp p (xs ! (ptr + k))) \<and>
     (\<forall>k. gt \<le> k \<and> k < n \<longrightarrow> cmp p (xs ! (ptr + k)) < 0)"

lemma med3_in:
  assumes "a < length xs" "b < length xs" "c < length xs"
  shows "\<exists>m \<in> {a, b, c}. med3 cmp xs a b c = Inr m"
  using assms by (simp add: med3_def)

lemma rq_partition_spec:
  assumes "n > 6" "ptr + n \<le> length xs"
  shows "\<exists>ys lt gt p. rq_partition cmp xs ptr n = Inr (ys, lt, gt) \<and> seg_perm ptr (ptr + n) xs ys \<and>
    three_way cmp p ys ptr lt gt n \<and> lt < gt \<and> gt \<le> n"
proof -
  have m4: "3 * (n div 4) < n" using assms(1) by linarith
  then obtain m where m: "med3 cmp xs (ptr + n div 4) (ptr + 2 * (n div 4)) (ptr + 3 * (n div 4)) = Inr m" "ptr \<le> m" "m < ptr + n"
    using med3_in [of "ptr + n div 4" xs "ptr + 2 * (n div 4)" "ptr + 3 * (n div 4)" cmp] assms by auto
  define xs1 where "xs1 = xs[ptr := xs ! m, m := xs ! ptr]"
  have e: "exch xs ptr m = Inr xs1" "length xs1 = length xs" using m assms by (auto simp: xs1_def)
  have s1: "seg_perm ptr (ptr + n) xs xs1" unfolding xs1_def using m assms by (intro seg_perm_step) auto
  define p where "p = xs1 ! ptr"
  have "part_low cmp p xs1 ptr 1 1" "part_high cmp p xs1 ptr n n n" by (auto simp: part_low_def part_high_def p_def)
  then obtain xs2 i lt gt where q: "partition_loop cmp xs1 ptr 1 1 n n = Inr (xs2, i, lt, gt)"
    "seg_perm (ptr + 1) (ptr + n) xs1 xs2" "part_low cmp p xs2 ptr lt i" "part_high cmp p xs2 ptr i gt n"
    using partition_loop_spec [of cmp p xs1 ptr 1 1 n n n] assms e by auto
  have r: "0 < lt" "lt \<le> i" "i \<le> gt" "gt \<le> n" using q by (auto simp: part_low_def part_high_def)
  have l2: "length xs2 = length xs" using q(2) e seg_perm_length by metis
  obtain xs3 where b1: "exch_block xs2 ptr (ptr + i - min lt (i - lt)) (min lt (i - lt)) = Inr xs3" "seg_perm ptr (ptr + i) xs2 xs3"
    "\<forall>k < i - lt. cmp p (xs3 ! (ptr + k)) > 0" "\<forall>k. i - lt \<le> k \<and> k < i \<longrightarrow> like cmp p (xs3 ! (ptr + k))"
    using block_low [OF q(3)] r l2 assms(2) by auto
  have "part_high cmp p xs3 ptr i gt n" using q(4) seg_perm_outside [OF b1(2)] by (auto simp: part_high_def)
  then obtain xs4 where b2: "exch_block xs3 (ptr + i) (ptr + n - min (n - gt) (gt - i)) (min (n - gt) (gt - i)) = Inr xs4"
    "seg_perm (ptr + i) (ptr + n) xs3 xs4"
    "\<forall>k. i \<le> k \<and> k < n - (gt - i) \<longrightarrow> like cmp p (xs4 ! (ptr + k))"
    "\<forall>k. n - (gt - i) \<le> k \<and> k < n \<longrightarrow> cmp p (xs4 ! (ptr + k)) < 0"
    using block_high [of cmp p xs3 ptr i gt n] seg_perm_length [OF b1(2)] l2 assms(2) by auto
  have same: "xs4 ! (ptr + k) = xs3 ! (ptr + k)" if "k < i" for k
    using seg_perm_outside [OF b2(2), of "ptr + k"] that by simp
  have "three_way cmp p xs4 ptr (i - lt) (n - (gt - i)) n"
    unfolding three_way_def
  proof (intro conjI allI impI)
    fix k assume "i - lt \<le> k \<and> k < n - (gt - i)"
    then show "like cmp p (xs4 ! (ptr + k))" using b1(4) b2(3) same [of k] by (cases "k < i") auto
  qed (use b1(3) b2(4) same in auto)
  moreover have "rq_partition cmp xs ptr n = Inr (xs4, i - lt, n - (gt - i))"
    using m(1) e(1) q(1) b1(1) b2(1) by (simp add: rq_partition_def)
  moreover have "seg_perm ptr (ptr + n) xs xs4"
  proof -
    have "seg_perm ptr (ptr + n) xs1 xs2" "seg_perm ptr (ptr + n) xs2 xs3" "seg_perm ptr (ptr + n) xs3 xs4"
      using q(2) b1(2) b2(2) r by (auto intro: seg_perm_mono)
    then show ?thesis using s1 by (blast intro: seg_perm_trans)
  qed
  moreover have "i - lt < n - (gt - i)" using r by auto
  ultimately show ?thesis by fastforce
qed

section \<open>The two nested loops\<close>

text \<open>
  The frames of the stack have strictly increasing depths from the bottom to the top, all
  between 1 and the current depth, which is at most 50; so there are never more than 50.
\<close>

definition depths_ok :: "nat \<Rightarrow> frame list \<Rightarrow> bool" where
  "depths_ok d stack \<longleftrightarrow>
     sorted_wrt (>) (map (\<lambda>(p, n, e). e) stack) \<and> (\<forall>e \<in> set (map (\<lambda>(p, n, e). e) stack). 1 \<le> e \<and> e \<le> d)"

lemma decreasing_length: "sorted_wrt (>) ds \<Longrightarrow> \<forall>e \<in> set ds. 1 \<le> e \<and> e \<le> (d :: nat) \<Longrightarrow> length ds \<le> d"
proof (induction ds arbitrary: d)
  case (Cons e ds)
  then have "\<forall>f \<in> set ds. 1 \<le> f \<and> f \<le> e - 1" by fastforce
  then have "length ds \<le> e - 1" using Cons by simp
  then show ?case using Cons.prems by auto
qed simp

lemma depths_ok_length: "depths_ok d stack \<Longrightarrow> length stack \<le> d"
  using decreasing_length [of "map (\<lambda>(p, n, e). e) stack" d] unfolding depths_ok_def length_map by blast

lemma push_frame_ok:
  assumes "depths_ok d stack" "d < 50"
  shows "push_frame (p, n, Suc d) stack = Inr ((p, n, Suc d) # stack) \<and> depths_ok (Suc d) ((p, n, Suc d) # stack)"
  using assms depths_ok_length [OF assms(1)] by (fastforce simp: push_frame_def depths_ok_def)

text \<open>
  A property of the array and of the pending segments that survives each of the three ways a
  segment is worked on holds, with no segment pending, when the sort returns.
\<close>

definition segs :: "frame list \<Rightarrow> (nat \<times> nat) list" where
  "segs stack = map (\<lambda>(p, n, d). (p, n)) stack"

lemma segs_simps [simp]: "segs [] = []" "segs ((p, n, d) # stack) = (p, n) # segs stack"
  by (simp_all add: segs_def)

locale rq_invariant =
  fixes cmp :: "'a cmp_f" and I :: "'a list \<Rightarrow> (nat \<times> nat) list \<Rightarrow> bool"
  assumes partition_keeps: "I xs ((p, n) # ss) \<Longrightarrow> n > 6 \<Longrightarrow> \<exists>ys lt gt. rq_partition cmp xs p n = Inr (ys, lt, gt) \<and>
      lt < gt \<and> gt \<le> n \<and> I ys ((p, lt) # (p + gt, n - gt) # ss) \<and> I ys ((p + gt, n - gt) # (p, lt) # ss)"
    and heapsort_keeps: "I xs ((p, n) # ss) \<Longrightarrow> \<exists>ys. heapsortx cmp xs p n = Inr ys \<and> I ys ((p, 0) # ss)"
    and insertion_keeps: "I xs ((p, n) # ss) \<Longrightarrow> \<exists>ys. insertion_loop cmp xs p 1 n = Inr ys \<and> I ys ss"
begin

lemma rq_inner_keeps:
  "I xs ((p, n) # segs stack) \<Longrightarrow> depths_ok d stack \<Longrightarrow> d \<le> 50 \<Longrightarrow>
     \<exists>ys p' n' stack'. rq_inner cmp xs p n d stack = Inr (ys, p', n', stack') \<and>
       I ys ((p', n') # segs stack') \<and> depths_ok 50 stack'"
proof (induction n arbitrary: xs p d stack rule: less_induct)
  case (less n)
  consider "n \<le> 6" | "n > 6" "d = 50" | "n > 6" "d < 50" using less.prems(3) by linarith
  then show ?case
  proof cases
    case 1
    then show ?thesis using less.prems by (auto simp: rq_inner.simps [of cmp xs] depths_ok_def)
  next
    case 2
    then show ?thesis using heapsort_keeps [OF less.prems(1)] less.prems
      by (auto simp: rq_inner.simps [of cmp xs])
  next
    case 3
    obtain ys lt gt where r: "rq_partition cmp xs p n = Inr (ys, lt, gt)" "lt < gt" "gt \<le> n"
      "I ys ((p, lt) # (p + gt, n - gt) # segs stack)" "I ys ((p + gt, n - gt) # (p, lt) # segs stack)"
      using partition_keeps [OF less.prems(1) 3(1)] by blast
    note push = push_frame_ok [OF less.prems(2) 3(2)]
    show ?thesis
    proof (cases "lt > n - gt")
      case True
      have "rq_inner cmp xs p n d stack = rq_inner cmp ys (p + gt) (n - gt) (Suc d) ((p, lt, Suc d) # stack)"
        using 3 r True push [of p lt] by (simp add: rq_inner.simps [of cmp xs])
      then show ?thesis using less.IH [of "n - gt" ys "p + gt" "(p, lt, Suc d) # stack" "Suc d"] r 3 push [of p lt] by auto
    next
      case False
      have "rq_inner cmp xs p n d stack = rq_inner cmp ys p lt (Suc d) ((p + gt, n - gt, Suc d) # stack)"
        using 3 r False push [of "p + gt" "n - gt"] by (simp add: rq_inner.simps [of cmp xs])
      then show ?thesis
        using less.IH [of lt ys p "(p + gt, n - gt, Suc d) # stack" "Suc d"] r 3 push [of "p + gt" "n - gt"] by auto
    qed
  qed
qed

lemma rq_loop_keeps:
  "I xs (segs stack) \<Longrightarrow> stack = [] \<or> (\<exists>p n d st. stack = (p, n, d) # st \<and> d \<le> 50 \<and> depths_ok d st) \<Longrightarrow>
     \<exists>ys. rq_loop cmp xs stack = Inr ys \<and> I ys []"
proof (induction "stack_weight stack" arbitrary: xs stack rule: less_induct)
  case less
  show ?case
  proof (cases stack)
    case (Cons f st)
    obtain p n d where f: "f = (p, n, d)" by (cases f)
    then obtain ys p' n' st' where i: "rq_inner cmp xs p n d st = Inr (ys, p', n', st')"
      "I ys ((p', n') # segs st')" "depths_ok 50 st'"
      using rq_inner_keeps [of xs p n st d] less.prems Cons by auto
    obtain zs where z: "insertion_loop cmp ys p' 1 n' = Inr zs" "I zs (segs st')"
      using insertion_keeps [OF i(2)] by blast
    have "stack_weight st' < stack_weight stack" using rq_inner_weight [OF i(1)] Cons f by simp
    moreover have "st' = [] \<or> (\<exists>p n d st. st' = (p, n, d) # st \<and> d \<le> 50 \<and> depths_ok d st)"
      using i(3) by (cases st') (force simp: depths_ok_def)+
    ultimately obtain ws where "rq_loop cmp zs st' = Inr ws" "I ws []"
      using less.hyps [OF _ z(2)] by blast
    then show ?thesis using i(1) z(1) Cons f by auto
  qed (use less.prems in simp)
qed

lemma rqsort_keeps:
  assumes "I xs [(base, n)]" "n < 2 \<Longrightarrow> I xs []"
  shows "\<exists>ys. rqsort cmp xs base n = Inr ys \<and> I ys []"
  using assms rq_loop_keeps [of xs "[(base, n, 0)]"] by (auto simp: rqsort_def depths_ok_def)

end

section \<open>Every comparison function\<close>

definition rq_safe :: "'a list \<Rightarrow> nat \<Rightarrow> nat \<Rightarrow> 'a list \<Rightarrow> (nat \<times> nat) list \<Rightarrow> bool" where
  "rq_safe xs0 lo hi xs ss \<longleftrightarrow>
     seg_perm lo hi xs0 xs \<and> hi \<le> length xs0 \<and> (\<forall>(p, n) \<in> set ss. lo \<le> p \<and> p + n \<le> hi)"

lemma rq_safe_step:
  assumes "rq_safe xs0 lo hi xs ((p, n) # ss)" "seg_perm p (p + n) xs ys"
    "\<And>q m. (q, m) \<in> set ss' \<Longrightarrow> (q, m) \<in> set ss \<or> p \<le> q \<and> q + m \<le> p + n"
  shows "rq_safe xs0 lo hi ys ss'"
proof -
  have "seg_perm lo hi xs ys" using assms(1,2) by (auto simp: rq_safe_def intro: seg_perm_mono)
  moreover have "lo \<le> q \<and> q + m \<le> hi" if "(q, m) \<in> set ss'" for q m
    using assms(1) assms(3) [OF that] by (fastforce simp: rq_safe_def)
  ultimately show ?thesis using assms(1) by (auto simp: rq_safe_def intro: seg_perm_trans)
qed

lemma rq_safe_bound: "rq_safe xs0 lo hi xs ((p, n) # ss) \<Longrightarrow> p + n \<le> length xs"
  using seg_perm_length [of lo hi xs0 xs] by (auto simp: rq_safe_def)

interpretation safe: rq_invariant cmp "rq_safe xs0 lo hi" for cmp xs0 lo hi
proof
  fix xs p n ss
  assume i: "rq_safe xs0 lo hi xs ((p, n) # ss)"
  note b = rq_safe_bound [OF i]
  { assume "n > 6"
    then obtain ys lt gt where "rq_partition cmp xs p n = Inr (ys, lt, gt)" "seg_perm p (p + n) xs ys" "lt < gt" "gt \<le> n"
      using rq_partition_spec [OF _ b] by blast
    moreover then have "rq_safe xs0 lo hi ys ((p, lt) # (p + gt, n - gt) # ss)"
      "rq_safe xs0 lo hi ys ((p + gt, n - gt) # (p, lt) # ss)"
      by (auto intro!: rq_safe_step [OF i])
    ultimately show "\<exists>ys lt gt. rq_partition cmp xs p n = Inr (ys, lt, gt) \<and> lt < gt \<and> gt \<le> n \<and>
        rq_safe xs0 lo hi ys ((p, lt) # (p + gt, n - gt) # ss) \<and> rq_safe xs0 lo hi ys ((p + gt, n - gt) # (p, lt) # ss)"
      by blast }
  show "\<exists>ys. heapsortx cmp xs p n = Inr ys \<and> rq_safe xs0 lo hi ys ((p, 0) # ss)"
    using heapsortx_safe [OF b] rq_safe_step [OF i, of _ "(p, 0) # ss"] by fastforce
  show "\<exists>ys. insertion_loop cmp xs p 1 n = Inr ys \<and> rq_safe xs0 lo hi ys ss"
    using insertion_loop_safe [OF b] rq_safe_step [OF i, of _ ss] by fastforce
qed

text \<open>
  C2. For every comparison function, consistent or not, and every array, \<open>rqsort\<close> returns: it makes
  no access outside the array, never has more than 50 pending segments on its stack, changes
  nothing outside the \<open>nmemb\<close> elements at \<open>base\<close>, and leaves a permutation of them there.
\<close>

theorem rqsort_permutes:
  assumes "base + nmemb \<le> length xs"
  shows "\<exists>ys. rqsort cmp xs base nmemb = Inr ys \<and> length ys = length xs \<and> mset ys = mset xs \<and>
    take base ys = take base xs \<and> drop (base + nmemb) ys = drop (base + nmemb) xs"
proof -
  obtain ys where "rqsort cmp xs base nmemb = Inr ys" "rq_safe xs base (base + nmemb) ys []"
    using safe.rqsort_keeps [of xs base "base + nmemb" xs base nmemb cmp] assms by (auto simp: rq_safe_def)
  then show ?thesis
    by (auto simp: rq_safe_def seg_perm_length seg_perm_mset seg_perm_outside intro!: nth_equalityI)
qed

text \<open>The comparison that answers 1 for any two elements is inconsistent, and still harmless.\<close>

theorem rqsort_permutes_witness:
  "\<exists>ys. rqsort (\<lambda>x y. 1) [9, 3, 1, 2 :: nat] 1 3 = Inr ys \<and> mset ys = mset [9, 3, 1, 2] \<and>
    take 1 ys = [9]"
  using rqsort_permutes [of 1 3 "[9, 3, 1, 2 :: nat]" "\<lambda>x y. 1"] by auto

end
