(* ===== verification/Rqsort_Sorted.thy ===== *)
theory Rqsort_Sorted
  imports Rqsort_Safe
begin

text \<open>
  What \<open>rqsort\<close> guarantees for a consistent comparison function: the segment ends up in
  ascending order. The contract on the function is the one the C standard asks of \<open>qsort\<close>.
\<close>

locale comparator =
  fixes cmp :: "'a cmp_f"
  assumes cmp_sym: "sgn (cmp x y) = - sgn (cmp y x)"
    and cmp_trans: "cmp x y \<le> 0 \<Longrightarrow> cmp y z \<le> 0 \<Longrightarrow> cmp x z \<le> 0"
begin

abbreviation le :: "'a \<Rightarrow> 'a \<Rightarrow> bool" where
  "le x y \<equiv> cmp x y \<le> 0"

lemma cmp_refl [simp]: "cmp x x = 0"
  using cmp_sym [of x x] by (simp add: sgn_if split: if_splits)

lemma cmp_flip: "0 < cmp x y \<longleftrightarrow> cmp y x < 0" "cmp x y = 0 \<longleftrightarrow> cmp y x = 0"
  using cmp_sym [of x y] by (auto simp: sgn_if split: if_splits)

lemma le_total: "\<not> le x y \<Longrightarrow> le y x"
  using cmp_flip(1) [of x y] by simp

lemma le_of_pivot: "0 < cmp p x \<Longrightarrow> le x p" "cmp p x < 0 \<Longrightarrow> le p x" "like cmp p x \<Longrightarrow> le x p \<and> le p x"
  using cmp_flip [of p x] by auto

section \<open>Heap sort\<close>

abbreviation (input) parent :: "nat \<Rightarrow> nat" where
  "parent j \<equiv> (j - 1) div 2"

definition heap_from :: "'a list \<Rightarrow> nat \<Rightarrow> nat \<Rightarrow> nat \<Rightarrow> bool" where
  "heap_from xs base n r0 \<longleftrightarrow>
     (\<forall>j. 0 < j \<and> j < n \<and> r0 \<le> parent j \<longrightarrow> le (xs ! (base + j)) (xs ! (base + parent j)))"

text \<open>The heap property from \<open>r0\<close> on, except between \<open>r\<close> and its children.\<close>

definition heap_except :: "'a list \<Rightarrow> nat \<Rightarrow> nat \<Rightarrow> nat \<Rightarrow> nat \<Rightarrow> bool" where
  "heap_except xs base n r0 r \<longleftrightarrow>
     (\<forall>j. 0 < j \<and> j < n \<and> r0 \<le> parent j \<and> parent j \<noteq> r \<longrightarrow> le (xs ! (base + j)) (xs ! (base + parent j))) \<and>
     (\<forall>j. 0 < j \<and> j < n \<and> parent j = r \<and> 0 < r \<and> r0 \<le> parent r \<longrightarrow> le (xs ! (base + j)) (xs ! (base + parent r)))"

lemma sift_pick_max:
  assumes "0 < j" "j < n" "parent j = r"
  shows "le (xs ! (base + j)) (xs ! (base + sift_pick cmp xs base n r)) \<and> 2 * r + 1 < n"
proof -
  have "j = 2 * r + 1 \<or> j = 2 * r + 2" using assms by presburger
  then show ?thesis using assms(2) le_total [of "xs ! (base + (2 * r + 1))" "xs ! (base + (2 * r + 2))"]
    by (auto simp: sift_pick_def Let_def)
qed

lemma parent_pick: "2 * r + 1 < n \<Longrightarrow> parent (sift_pick cmp xs base n r) = r"
  by (auto simp: sift_pick_def Let_def)

lemma heap_except_swap:
  assumes h: "heap_except xs base n r0 r" and r: "2 * r + 1 < n" "base + n \<le> length xs" "r0 \<le> r"
    and c: "c = sift_pick cmp xs base n r" and l: "le (xs ! (base + r)) (xs ! (base + c))"
  shows "heap_except (xs[base + r := xs ! (base + c), base + c := xs ! (base + r)]) base n r0 c"
proof -
  let ?ys = "xs[base + r := xs ! (base + c), base + c := xs ! (base + r)]"
  have cr: "r < c" "c < n" "parent c = r" using sift_pick_range [OF r(1)] parent_pick [OF r(1)] by (auto simp: c)
  have ys: "?ys ! (base + r) = xs ! (base + c)" "?ys ! (base + c) = xs ! (base + r)"
    "\<And>j. j \<noteq> r \<Longrightarrow> j \<noteq> c \<Longrightarrow> ?ys ! (base + j) = xs ! (base + j)"
    using cr r(2) by (auto simp: nth_list_update)
  have "le (?ys ! (base + j)) (?ys ! (base + parent j))"
    if j: "0 < j" "j < n" "r0 \<le> parent j" "parent j \<noteq> c" for j
  proof -
    consider "j = c" | "j \<noteq> c" "parent j = r" | "j = r" | "j \<noteq> c" "j \<noteq> r" "parent j \<noteq> r" by blast
    then show ?thesis
    proof cases
      case 1
      then show ?thesis using l ys cr by simp
    next
      case 2
      then have "j \<noteq> r" using j by linarith
      then show ?thesis using 2 ys sift_pick_max [OF j(1,2) 2(2), of xs base] by (simp add: c)
    next
      case 3
      have "parent r \<noteq> r" using j 3 by linarith
      then have "?ys ! (base + parent j) = xs ! (base + parent r)" using 3 j ys(3) [of "parent j"] by simp
      moreover have "le (xs ! (base + c)) (xs ! (base + parent r))"
        using h cr j 3 by (auto simp: heap_except_def)
      ultimately show ?thesis using ys 3 by simp
    next
      case 4
      then show ?thesis using h j ys(3) [of j] ys(3) [of "parent j"] by (simp add: heap_except_def)
    qed
  qed
  moreover have "le (?ys ! (base + j)) (?ys ! (base + parent c))" if j: "0 < j" "j < n" "parent j = c" for j
  proof -
    have "j \<noteq> c" "j \<noteq> r" using j cr by linarith+
    moreover have "le (xs ! (base + j)) (xs ! (base + parent j))" using h j cr r(3) by (auto simp: heap_except_def)
    ultimately show ?thesis using ys cr j by simp
  qed
  ultimately show ?thesis unfolding heap_except_def by blast
qed

lemma sift_down_heap:
  "heap_except xs base n r0 r \<Longrightarrow> base + n \<le> length xs \<Longrightarrow> r0 \<le> r \<Longrightarrow> sift_down cmp xs base n r = Inr ys \<Longrightarrow>
     heap_from ys base n r0"
proof (induction "n - r" arbitrary: xs r rule: less_induct)
  case less
  let ?c = "sift_pick cmp xs base n r"
  let ?xs = "xs[base + r := xs ! (base + ?c), base + ?c := xs ! (base + r)]"
  show ?case
  proof (cases "2 * r + 1 < n \<and> le (xs ! (base + r)) (xs ! (base + ?c))")
    case True
    then have c: "r < ?c" "?c < n" using sift_pick_range [of r n] by auto
    then have "n - ?c < n - r" by linarith
    moreover have "heap_except ?xs base n r0 ?c" using less.prems True by (intro heap_except_swap) auto
    moreover have "sift_down cmp ?xs base n ?c = Inr ys" using less.prems(4) True by (simp add: sift_down_unfold [OF less.prems(2)])
    ultimately show ?thesis using less.hyps [of ?c ?xs] less.prems c by simp
  next
    case False
    then have [simp]: "ys = xs" using less.prems(4) by (auto simp: sift_down_unfold [OF less.prems(2)] split: if_splits)
    have "le (xs ! (base + j)) (xs ! (base + r))" if "0 < j" "j < n" "parent j = r" for j
    proof -
      note m = sift_pick_max [OF that, of xs base]
      then have "le (xs ! (base + ?c)) (xs ! (base + r))" using False le_total by blast
      then show ?thesis using m cmp_trans by blast
    qed
    then show ?thesis using less.prems(1) by (auto simp: heap_from_def heap_except_def)
  qed
qed

lemma heapify_heap:
  "heap_from xs base n i \<Longrightarrow> base + n \<le> length xs \<Longrightarrow> heapify cmp xs base n i = Inr ys \<Longrightarrow> heap_from ys base n 0"
proof (induction i arbitrary: xs)
  case (Suc i)
  from Suc.prems(3) obtain zs where z: "sift_down cmp xs base n i = Inr zs" "heapify cmp zs base n i = Inr ys" by auto
  have "heap_except xs base n i i" using Suc.prems(1) by (auto simp: heap_from_def heap_except_def)
  then have "heap_from zs base n i" using sift_down_heap Suc.prems(2) z(1) by blast
  moreover have "length zs = length xs" using sift_down_safe [OF Suc.prems(2), of cmp i] z(1) by (auto dest: seg_perm_length)
  ultimately show ?case using Suc.IH z(2) Suc.prems(2) by simp
qed simp

lemma heap_root_max: "heap_from xs base n 0 \<Longrightarrow> j < n \<Longrightarrow> le (xs ! (base + j)) (xs ! base)"
proof (induction j rule: less_induct)
  case (less j)
  show ?case
  proof (cases "j = 0")
    case False
    then have "parent j < j" by linarith
    then have "le (xs ! (base + parent j)) (xs ! base)" using less by simp
    moreover have "le (xs ! (base + j)) (xs ! (base + parent j))" using less.prems False by (auto simp: heap_from_def)
    ultimately show ?thesis using cmp_trans by blast
  qed simp
qed

lemma heap_extract_sorted:
  "heap_from xs base (Suc i) 0 \<Longrightarrow> base + Suc i \<le> length xs \<Longrightarrow> heap_extract cmp xs base i = Inr ys \<Longrightarrow>
     j \<le> k \<Longrightarrow> k \<le> i \<Longrightarrow> le (ys ! (base + j)) (ys ! (base + k))"
proof (induction i arbitrary: xs j k)
  case (Suc i)
  let ?xs = "xs[base := xs ! (base + Suc i), base + Suc i := xs ! base]"
  have e: "exch xs base (base + Suc i) = Inr ?xs" using Suc.prems(2) by simp
  with Suc.prems(3) obtain zs where z: "sift_down cmp ?xs base (Suc i) 0 = Inr zs" "heap_extract cmp zs base i = Inr ys" by auto
  have zp: "seg_perm base (base + Suc i) ?xs zs" using sift_down_safe [of base "Suc i" ?xs cmp 0] Suc.prems(2) z(1) by auto
  have zl: "base + Suc i \<le> length zs" using seg_perm_length [OF zp] Suc.prems(2) by simp
  have yp: "seg_perm base (base + Suc i) zs ys" using heap_extract_safe [OF zl, of cmp] z(2) by auto
  have "heap_except ?xs base (Suc i) 0 0"
    using Suc.prems(1,2) by (auto simp: heap_except_def heap_from_def nth_list_update)
  then have h: "heap_from zs base (Suc i) 0" using sift_down_heap [OF _ _ _ z(1)] Suc.prems(2) by simp
  have sp: "seg_perm base (base + Suc i) ?xs ys" by (rule seg_perm_trans [OF yp zp])
  show ?case
  proof (cases "k = Suc i")
    case False
    then show ?thesis using Suc.IH [OF h zl z(2)] Suc.prems(4,5) by simp
  next
    case True
    have top: "ys ! (base + k) = xs ! base" using seg_perm_outside [OF sp, of "base + k"] True Suc.prems(2) by simp
    have "\<exists>m \<le> Suc i. ys ! (base + j) = xs ! (base + m)"
    proof (cases "j = Suc i")
      case False
      then obtain m where m: "base \<le> m" "m < base + Suc i" "ys ! (base + j) = ?xs ! m"
        using seg_perm_origin [OF sp, of "base + j"] Suc.prems True by auto
      show ?thesis
      proof (cases "m = base")
        case True
        then show ?thesis using m(3) Suc.prems(2) by (intro exI [of _ "Suc i"]) simp
      next
        case False
        then show ?thesis using m by (intro exI [of _ "m - base"]) simp
      qed
    qed (use top True in \<open>auto intro: exI [of _ 0]\<close>)
    then show ?thesis using heap_root_max [OF Suc.prems(1)] top by auto
  qed
qed simp

lemma heapsortx_sorted:
  assumes "base + n \<le> length xs" "heapsortx cmp xs base n = Inr ys" "j \<le> k" "k < n"
  shows "le (ys ! (base + j)) (ys ! (base + k))"
proof (cases "n > 1")
  case True
  with assms(2) obtain zs where z: "heapify cmp xs base n (n div 2) = Inr zs" "heap_extract cmp zs base (n - 1) = Inr ys"
    by (auto simp: heapsortx_def)
  have "heap_from xs base n (n div 2)" by (auto simp: heap_from_def)
  then have "heap_from zs base n 0" using heapify_heap assms(1) z(1) by blast
  moreover have "length zs = length xs" using heapify_safe [OF assms(1), of cmp "n div 2"] z(1) by (auto dest: seg_perm_length)
  ultimately show ?thesis using heap_extract_sorted [of zs base "n - 1" ys j k] z(2) assms True by simp
next
  case False
  then show ?thesis using assms(3,4) by (cases "j = k") auto
qed

section \<open>Insertion sort\<close>

lemma insert_elem_sorted:
  assumes "\<And>i j. i < j \<Longrightarrow> j \<le> n \<Longrightarrow> j \<noteq> k \<Longrightarrow> le (xs ! (ptr + i)) (xs ! (ptr + j))" "k \<le> n" "ptr + n < length xs"
    "insert_elem cmp xs ptr k = Inr ys" "i < j" "j \<le> n"
  shows "le (ys ! (ptr + i)) (ys ! (ptr + j))"
  using assms
proof (induction k arbitrary: xs i j)
  case (Suc k)
  show ?case
  proof (cases "cmp (xs ! (ptr + k)) (xs ! (ptr + Suc k)) > 0")
    case True
    let ?xs = "xs[ptr + Suc k := xs ! (ptr + k), ptr + k := xs ! (ptr + Suc k)]"
    have nth: "?xs ! (ptr + a) = (if a = k then xs ! (ptr + Suc k) else if a = Suc k then xs ! (ptr + k) else xs ! (ptr + a))" for a
      using Suc.prems(2,3) by (simp add: nth_list_update)
    have "le (xs ! (ptr + Suc k)) (xs ! (ptr + k))" using True cmp_flip by simp
    then have "le (?xs ! (ptr + a)) (?xs ! (ptr + b))" if "a < b" "b \<le> n" "b \<noteq> k" for a b
      unfolding nth using that Suc.prems(1) [of a b] Suc.prems(1) [of k b] Suc.prems(1) [of "Suc k" b] Suc.prems(1) [of a k] Suc.prems(2)
      by auto
    moreover have "insert_elem cmp ?xs ptr k = Inr ys" using Suc.prems(2,3,4) True by simp
    ultimately show ?thesis using Suc.IH [of ?xs i j] Suc.prems(2,3,5,6) by simp
  next
    case False
    then have [simp]: "ys = xs" and l: "le (xs ! (ptr + k)) (xs ! (ptr + Suc k))" using Suc.prems(2,3,4) by simp_all
    show ?thesis
    proof (cases "j = Suc k")
      case True
      then show ?thesis using l Suc.prems(1) [of i k] Suc.prems(2,5) cmp_trans by (cases "i = k") auto
    qed (use Suc.prems in simp)
  qed
qed simp

lemma insertion_loop_sorted:
  "(\<And>i j. i < j \<Longrightarrow> j < k \<Longrightarrow> le (xs ! (ptr + i)) (xs ! (ptr + j))) \<Longrightarrow> ptr + n \<le> length xs \<Longrightarrow> k \<le> n \<Longrightarrow>
     insertion_loop cmp xs ptr k n = Inr ys \<Longrightarrow> i < j \<Longrightarrow> j < n \<Longrightarrow> le (ys ! (ptr + i)) (ys ! (ptr + j))"
proof (induction "n - k" arbitrary: xs k)
  case 0
  then show ?case by (simp add: insertion_loop.simps [of cmp xs])
next
  case (Suc d)
  then have k: "k < n" "d = n - (k + 1)" by auto
  obtain zs where z: "insert_elem cmp xs ptr k = Inr zs" "insertion_loop cmp zs ptr (k + 1) n = Inr ys"
    using Suc.prems(4) k by (auto simp: insertion_loop.simps [of cmp xs])
  have zp: "seg_perm ptr (ptr + Suc k) xs zs" using insert_elem_safe [of ptr k xs cmp] z(1) k Suc.prems(2) by auto
  have "le (zs ! (ptr + a)) (zs ! (ptr + b))" if "a < b" "b < k + 1" for a b
    by (rule insert_elem_sorted [of k k xs ptr zs]) (use Suc.prems(1,2) k z that in auto)
  then show ?case using Suc.hyps(1) [OF k(2), of zs] z(2) k seg_perm_length [OF zp] Suc.prems(2,5,6) by simp
qed

section \<open>Quicksort\<close>

text \<open>
  While segments are pending, any two positions of the range that do not lie in one pending
  segment hold elements in ascending order. The pending segments are disjoint.
\<close>

definition ordered_except :: "'a list \<Rightarrow> nat \<Rightarrow> nat \<Rightarrow> (nat \<times> nat) list \<Rightarrow> bool" where
  "ordered_except xs lo hi ss \<longleftrightarrow>
     (\<forall>i j. lo \<le> i \<and> i < j \<and> j < hi \<longrightarrow> (\<exists>(p, n) \<in> set ss. p \<le> i \<and> j < p + n) \<or> le (xs ! i) (xs ! j))"

definition apart :: "(nat \<times> nat) list \<Rightarrow> bool" where
  "apart ss \<longleftrightarrow> sorted_wrt (\<lambda>(p, n) (q, m). p + n \<le> q \<or> q + m \<le> p) ss"

definition rq_sorted :: "'a list \<Rightarrow> nat \<Rightarrow> nat \<Rightarrow> 'a list \<Rightarrow> (nat \<times> nat) list \<Rightarrow> bool" where
  "rq_sorted xs0 lo hi xs ss \<longleftrightarrow> rq_safe xs0 lo hi xs ss \<and> apart ss \<and> ordered_except xs lo hi ss"

lemma ordered_except_step:
  assumes o: "ordered_except xs lo hi ((p, n) # ss)" and a: "apart ((p, n) # ss)" and s: "seg_perm p (p + n) xs ys"
    and len: "p + n \<le> length xs" "lo \<le> p" "p + n \<le> hi"
    and new: "\<And>i j. i < j \<Longrightarrow> j < n \<Longrightarrow> (\<exists>(q, m) \<in> set ss'. q \<le> p + i \<and> p + j < q + m) \<or> le (ys ! (p + i)) (ys ! (p + j))"
  shows "ordered_except ys lo hi (ss' @ ss)"
  unfolding ordered_except_def
proof (intro allI impI)
  fix i j assume ij: "lo \<le> i \<and> i < j \<and> j < hi"
  have apart: "p + n \<le> q \<or> q + m \<le> p" if "(q, m) \<in> set ss" for q m
    using a that by (fastforce simp: apart_def)
  have old: "(p \<le> i' \<and> j' < p + n) \<or> (\<exists>(q, m) \<in> set ss. q \<le> i' \<and> j' < q + m) \<or> le (xs ! i') (xs ! j')"
    if "lo \<le> i'" "i' < j'" "j' < hi" for i' j'
    using o that unfolding ordered_except_def by fastforce
  have orig: "\<exists>k'. p \<le> k' \<and> k' < p + n \<and> ys ! k = xs ! k'" if "p \<le> k" "k < p + n" for k
    using seg_perm_origin [OF s that] len that by auto
  note out = seg_perm_outside [OF s]
  consider "p \<le> i" "j < p + n" | "p \<le> i" "i < p + n" "p + n \<le> j" | "i < p" "p \<le> j" "j < p + n"
    | "i < p \<or> p + n \<le> i" "j < p \<or> p + n \<le> j" using ij by linarith
  then show "(\<exists>(q, m) \<in> set (ss' @ ss). q \<le> i \<and> j < q + m) \<or> le (ys ! i) (ys ! j)"
  proof cases
    case 1
    then show ?thesis using new [of "i - p" "j - p"] ij by fastforce
  next
    case 2
    then obtain k where k: "p \<le> k" "k < p + n" "ys ! i = xs ! k" using orig by blast
    moreover have "\<not> (\<exists>(q, m) \<in> set ss. q \<le> k \<and> j < q + m)" using apart k 2 by fastforce
    ultimately show ?thesis using old [of k j] 2 ij len out [of j] by auto
  next
    case 3
    then obtain k where k: "p \<le> k" "k < p + n" "ys ! j = xs ! k" using orig by blast
    moreover have "\<not> (\<exists>(q, m) \<in> set ss. q \<le> i \<and> k < q + m)" using apart k 3 by fastforce
    ultimately show ?thesis using old [of i k] 3 ij len out [of i] by auto
  next
    case 4
    then show ?thesis using old [of i j] ij out by fastforce
  qed
qed

lemma three_way_ordered:
  assumes "three_way cmp v ys p lt gt n" "i < j" "j < n"
  shows "j < lt \<or> gt \<le> i \<or> le (ys ! (p + i)) (ys ! (p + j))"
proof -
  have low: "le (ys ! (p + i)) v" if "i < gt" using assms that le_of_pivot [where p = v and x = "ys ! (p + i)"]
    by (cases "i < lt") (auto simp: three_way_def)
  have high: "le v (ys ! (p + j))" if "lt \<le> j" using assms that le_of_pivot [where p = v and x = "ys ! (p + j)"]
    by (cases "j < gt") (auto simp: three_way_def)
  show ?thesis using low high cmp_trans by (meson not_le)
qed

lemma rq_sorted_step:
  assumes i: "rq_sorted xs0 lo hi xs ((p, n) # ss)" and s: "seg_perm p (p + n) xs ys"
    and inside: "\<And>q m. (q, m) \<in> set ss' \<Longrightarrow> p \<le> q \<and> q + m \<le> p + n" and "apart ss'"
    and new: "\<And>i j. i < j \<Longrightarrow> j < n \<Longrightarrow> (\<exists>(q, m) \<in> set ss'. q \<le> p + i \<and> p + j < q + m) \<or> le (ys ! (p + i)) (ys ! (p + j))"
  shows "rq_sorted xs0 lo hi ys (ss' @ ss)"
proof -
  have r: "rq_safe xs0 lo hi xs ((p, n) # ss)" "apart ((p, n) # ss)" "ordered_except xs lo hi ((p, n) # ss)"
    using i by (auto simp: rq_sorted_def)
  have "rq_safe xs0 lo hi ys (ss' @ ss)" by (rule rq_safe_step [OF r(1) s]) (use inside in auto)
  moreover have "lo \<le> p" "p + n \<le> hi" using r(1) by (auto simp: rq_safe_def)
  then have "ordered_except ys lo hi (ss' @ ss)"
    using ordered_except_step [OF r(3,2) s rq_safe_bound [OF r(1)]] new by blast
  moreover have "apart (ss' @ ss)"
    using r(2) assms(4) inside by (fastforce simp: apart_def sorted_wrt_append)
  ultimately show ?thesis by (simp add: rq_sorted_def)
qed

end

sublocale comparator < rq: rq_invariant cmp "rq_sorted xs0 lo hi" for xs0 lo hi
proof
  fix xs p n ss
  assume i: "rq_sorted xs0 lo hi xs ((p, n) # ss)"
  then have b: "p + n \<le> length xs" by (auto simp: rq_sorted_def dest: rq_safe_bound)
  { assume "n > 6"
    then obtain ys lt gt v where q: "rq_partition cmp xs p n = Inr (ys, lt, gt)" "seg_perm p (p + n) xs ys"
      "three_way cmp v ys p lt gt n" "lt < gt" "gt \<le> n"
      using rq_partition_spec [OF _ b] by blast
    have "rq_sorted xs0 lo hi ys ([(p, lt), (p + gt, n - gt)] @ ss)"
      by (rule rq_sorted_step [OF i q(2)]) (use q three_way_ordered [OF q(3)] in \<open>auto simp: apart_def\<close>)
    moreover have "rq_sorted xs0 lo hi ys ([(p + gt, n - gt), (p, lt)] @ ss)"
      by (rule rq_sorted_step [OF i q(2)]) (use q three_way_ordered [OF q(3)] in \<open>auto simp: apart_def\<close>)
    ultimately show "\<exists>ys lt gt. rq_partition cmp xs p n = Inr (ys, lt, gt) \<and> lt < gt \<and> gt \<le> n \<and>
        rq_sorted xs0 lo hi ys ((p, lt) # (p + gt, n - gt) # ss) \<and> rq_sorted xs0 lo hi ys ((p + gt, n - gt) # (p, lt) # ss)"
      using q by auto }
  obtain ys where y: "heapsortx cmp xs p n = Inr ys" "seg_perm p (p + n) xs ys" using heapsortx_safe [OF b] by blast
  have "rq_sorted xs0 lo hi ys ([(p, 0)] @ ss)"
    by (rule rq_sorted_step [OF i y(2)]) (use heapsortx_sorted [OF b y(1)] in \<open>auto simp: apart_def\<close>)
  then show "\<exists>ys. heapsortx cmp xs p n = Inr ys \<and> rq_sorted xs0 lo hi ys ((p, 0) # ss)" using y by auto
  obtain zs where z: "insertion_loop cmp xs p 1 n = Inr zs" "seg_perm p (p + n) xs zs" using insertion_loop_safe [OF b] by blast
  have "le (zs ! (p + i)) (zs ! (p + j))" if "i < j" "j < n" for i j
    by (rule insertion_loop_sorted [OF _ b _ z(1) that]) (use that in auto)
  then have "rq_sorted xs0 lo hi zs ([] @ ss)"
    by (intro rq_sorted_step [OF i z(2)]) (auto simp: apart_def)
  then show "\<exists>ys. insertion_loop cmp xs p 1 n = Inr ys \<and> rq_sorted xs0 lo hi ys ss" using z by auto
qed

context comparator
begin

lemma rqsort_sorted:
  assumes "base + n \<le> length xs"
  shows "\<exists>ys. rqsort cmp xs base n = Inr ys \<and> seg_perm base (base + n) xs ys \<and>
    sorted_wrt le (take n (drop base ys))"
proof -
  have "rq_safe xs base (base + n) xs [(base, n)]" "rq_safe xs base (base + n) xs []"
    using assms by (auto simp: rq_safe_def)
  moreover have "ordered_except xs base (base + n) [(base, n)]" by (auto simp: ordered_except_def)
  moreover have "ordered_except xs base (base + n) []" if "n < 2" using that by (auto simp: ordered_except_def)
  ultimately obtain ys where y: "rqsort cmp xs base n = Inr ys" "rq_sorted xs base (base + n) ys []"
    using rq.rqsort_keeps [of xs base "base + n" xs base n] by (auto simp: rq_sorted_def apart_def)
  then have s: "seg_perm base (base + n) xs ys" and o: "ordered_except ys base (base + n) []"
    by (auto simp: rq_sorted_def rq_safe_def)
  have "sorted_wrt le (take n (drop base ys))"
    using o assms seg_perm_length [OF s] by (auto simp: sorted_wrt_iff_nth_less ordered_except_def)
  then show ?thesis using y s by blast
qed

end

text \<open>
  C1. For a comparison function with the contract the C standard asks of \<open>qsort\<close> (antisymmetric
  sign, transitive), \<open>rqsort\<close> returns with the \<open>nmemb\<close> elements at \<open>base\<close> permuted into ascending
  order and everything else unchanged, including when the depth limit hands over to \<open>heapsortx\<close>.
\<close>

theorem rqsort_sorts:
  assumes "comparator cmp" "base + nmemb \<le> length xs"
  shows "\<exists>ys. rqsort cmp xs base nmemb = Inr ys \<and> mset ys = mset xs \<and>
    take base ys = take base xs \<and> drop (base + nmemb) ys = drop (base + nmemb) xs \<and>
    sorted_wrt (\<lambda>x y. cmp x y \<le> 0) (take nmemb (drop base ys))"
proof -
  obtain ys where y: "rqsort cmp xs base nmemb = Inr ys" "seg_perm base (base + nmemb) xs ys"
    "sorted_wrt (\<lambda>x y. cmp x y \<le> 0) (take nmemb (drop base ys))"
    using comparator.rqsort_sorted [OF assms] by blast
  then show ?thesis
    by (auto simp: seg_perm_length seg_perm_mset seg_perm_outside intro!: nth_equalityI)
qed

lemma int_diff_comparator: "comparator (\<lambda>x y :: int. x - y)"
  by unfold_locales (auto simp: sgn_if)

theorem rqsort_sorts_witness:
  "\<exists>ys. rqsort (\<lambda>x y. x - y) [5, 9, 3, 7, 1, 8, 2, 6, 4 :: int] 1 8 = Inr ys \<and>
    mset ys = mset [5, 9, 3, 7, 1, 8, 2, 6, 4] \<and> take 1 ys = [5] \<and> sorted_wrt (\<lambda>x y. x - y \<le> 0) (take 8 (drop 1 ys))"
  using rqsort_sorts [OF int_diff_comparator, of 1 8 "[5, 9, 3, 7, 1, 8, 2, 6, 4]"] by auto

end
