(* ===== verification/Range_Sort.thy ===== *)
theory Range_Sort
  imports Char_Range Rqsort_Sorted
begin

text \<open>
  \<open>cr_sort_and_remove_overlap\<close> of \<^verbatim>\<open>libunicode.c\<close>: a list of intervals in any order, possibly overlapping, is
  sorted by \<open>rqsort\<close> and merged in place into the canonical point list of their union.
\<close>

section \<open>Definitions\<close>

text \<open>\<open>rqsort\<close> sees the array of points as an array of elements of two points each.\<close>

fun as_pairs :: "'a list \<Rightarrow> ('a \<times> 'a) list" where
  "as_pairs (a # b # xs) = (a, b) # as_pairs xs"
| "as_pairs _ = []"

fun un_pairs :: "('a \<times> 'a) list \<Rightarrow> 'a list" where
  "un_pairs [] = []"
| "un_pairs ((a, b) # ps) = a # b # un_pairs ps"

definition point_cmp :: "(u32 \<times> u32) cmp_f" where
  "point_cmp p1 p2 =
     (let v1 = fst p1; v2 = fst p2 in (if v1 > v2 then 1 else 0) - (if v1 < v2 then 1 else 0))"

definition sort_points :: "char_range \<Rightarrow> u32 list cres" where
  "sort_points cr =
     (let n = cr_len cr div 2 in
      cbind (rqsort point_cmp (as_pairs (take (2 * n) (cr_points cr))) 0 n) (\<lambda>ps.
      Inr (un_pairs ps @ drop (2 * n) (cr_points cr))))"

text \<open>The inner loop extends \<open>end\<close> over the intervals that start at or before it.\<close>

function merge_run :: "u32 list \<Rightarrow> nat \<Rightarrow> u32 \<Rightarrow> nat \<Rightarrow> (u32 \<times> nat) cres" where
  "merge_run pt len en i =
     (if i < len then
        cbind (rd pt i) (\<lambda>start1. cbind (rd pt (i + 1)) (\<lambda>end1.
          if start1 > en then Inr (en, i)
          else if end1 \<le> en then merge_run pt len en (i + 2)
          else merge_run pt len end1 (i + 2)))
      else Inr (en, i))"
  by pat_completeness auto
termination by (relation "measure (\<lambda>(pt, len, en, i). len - i)") auto

declare merge_run.simps [simp del]

lemma merge_run_ge: "merge_run pt len en i = Inr (en', i') \<Longrightarrow> i \<le> i'"
proof (induction "len - i" arbitrary: en i rule: less_induct)
  case less
  show ?case using less.prems less.hyps [of "i + 2"]
    by (fastforce simp: merge_run.simps [of pt len en i] split: if_splits)
qed

function overlap_loop :: "u32 list \<Rightarrow> nat \<Rightarrow> nat \<Rightarrow> nat \<Rightarrow> (u32 list \<times> nat) cres" where
  "overlap_loop pt len i j =
     (if i < len then
        cbind (rd pt i) (\<lambda>start. cbind (rd pt (i + 1)) (\<lambda>en.
        cbind (merge_run pt len en (i + 2)) (\<lambda>(en, i).
        cbind (wr pt j start) (\<lambda>pt. cbind (wr pt (j + 1) en) (\<lambda>pt.
        overlap_loop pt len i (j + 2))))))
      else Inr (pt, j))"
  by pat_completeness auto
termination
  by (relation "measure (\<lambda>(pt, len, i, j). len - i)") (auto dest!: merge_run_ge)

declare overlap_loop.simps [simp del]

definition cr_sort_and_remove_overlap :: "char_range \<Rightarrow> char_range cres" where
  "cr_sort_and_remove_overlap cr =
     cbind (sort_points cr) (\<lambda>pt.
     cbind (overlap_loop pt (cr_len cr) 0 0) (\<lambda>(pt, j).
     Inr (cr\<lparr>cr_points := pt, cr_len := j\<rparr>)))"

section \<open>The order of the intervals\<close>

interpretation points: comparator point_cmp
  by unfold_locales (auto simp: point_cmp_def Let_def split: if_splits)

lemma point_cmp_le: "point_cmp p q \<le> 0 \<longleftrightarrow> fst p \<le> fst q"
  by (auto simp: point_cmp_def Let_def)

lemma length_as_pairs: "length (as_pairs xs) = length xs div 2"
  by (induction xs rule: as_pairs.induct) auto

lemma length_un_pairs [simp]: "length (un_pairs ps) = 2 * length ps"
  by (induction ps rule: un_pairs.induct) auto

lemma un_pairs_as_pairs: "even (length xs) \<Longrightarrow> un_pairs (as_pairs xs) = xs"
  by (induction xs rule: as_pairs.induct) auto

lemma as_pairs_un_pairs [simp]: "as_pairs (un_pairs ps) = ps"
  by (induction ps rule: un_pairs.induct) auto

lemma as_pairs_drop: "i + 1 < length xs \<Longrightarrow> as_pairs (drop i xs) = (xs ! i, xs ! (i + 1)) # as_pairs (drop (i + 2) xs)"
  by (metis Cons_nth_drop_Suc Suc_eq_plus1 Suc_lessD add_2_eq_Suc' as_pairs.simps(1))

lemma sort_points_spec:
  assumes "cr_inv cr" "even (cr_len cr)"
  obtains ps where "sort_points cr = Inr (un_pairs ps @ drop (cr_len cr) (cr_points cr))"
    "mset ps = mset (as_pairs (cr_contents cr))" "sorted (map fst ps)"
proof -
  let ?xs = "as_pairs (cr_contents cr)"
  have len: "length ?xs = cr_len cr div 2" using assms(1) by (simp add: length_as_pairs)
  then obtain ps where ps: "rqsort point_cmp ?xs 0 (cr_len cr div 2) = Inr ps" "seg_perm 0 (0 + cr_len cr div 2) ?xs ps"
    "sorted_wrt (\<lambda>x y. point_cmp x y \<le> 0) (take (cr_len cr div 2) (drop 0 ps))"
    using points.rqsort_sorted [of 0 "cr_len cr div 2" ?xs] by auto
  have "length ps = cr_len cr div 2" using ps(2) len by (simp add: seg_perm_length)
  then have "sorted (map fst ps)" using ps(3) by (simp add: point_cmp_le sorted_wrt_map)
  moreover have "mset ps = mset ?xs" using ps(2) by (simp add: seg_perm_mset)
  moreover have "sort_points cr = Inr (un_pairs ps @ drop (cr_len cr) (cr_points cr))"
    using ps(1) assms(2) by (simp add: sort_points_def Let_def cr_contents_def)
  ultimately show ?thesis using that by blast
qed

section \<open>Merging\<close>

fun merge_from :: "u32 \<Rightarrow> u32 \<Rightarrow> (u32 \<times> u32) list \<Rightarrow> (u32 \<times> u32) list" where
  "merge_from s e [] = [(s, e)]"
| "merge_from s e ((s1, e1) # ps) =
     (if s1 > e then (s, e) # merge_from s1 e1 ps else merge_from s (max e e1) ps)"

fun merge_all :: "(u32 \<times> u32) list \<Rightarrow> (u32 \<times> u32) list" where
  "merge_all [] = []"
| "merge_all ((s, e) # ps) = merge_from s e ps"

lemma merge_run_spec:
  assumes "len \<le> length pt" "even len" "even i" "i \<le> len"
  shows "\<exists>en' i'. merge_run pt len en i = Inr (en', i') \<and> i \<le> i' \<and> i' \<le> len \<and> even i' \<and>
    merge_from s en (as_pairs (drop i (take len pt))) = (s, en') # merge_all (as_pairs (drop i' (take len pt)))"
  using assms(3,4)
proof (induction "len - i" arbitrary: en i rule: less_induct)
  case less
  show ?case
  proof (cases "i < len")
    case False
    with less.prems show ?thesis by (simp add: merge_run.simps)
  next
    case True
    then have i: "i + 1 < len" "i + 2 \<le> len" using less.prems assms(2) by presburger+
    note d = as_pairs_drop [of i "take len pt"]
    have run: "merge_run pt len en i = (if pt ! i > en then Inr (en, i) else if pt ! (i + 1) \<le> en then merge_run pt len en (i + 2)
        else merge_run pt len (pt ! (i + 1)) (i + 2))"
      using True i(1) assms(1) by (simp add: merge_run.simps [of pt len en i])
    show ?thesis
    proof (cases "pt ! i > en")
      case True
      then show ?thesis unfolding run using less.prems d i assms(1) by simp
    next
      case False
      then have "merge_run pt len en i = merge_run pt len (max en (pt ! (i + 1))) (i + 2)" unfolding run max_def by auto
      moreover have "merge_from s en (as_pairs (drop i (take len pt))) =
          merge_from s (max en (pt ! (i + 1))) (as_pairs (drop (i + 2) (take len pt)))"
        using d False i assms(1) by simp
      ultimately show ?thesis
        using less.hyps [of "i + 2" "max en (pt ! (i + 1))"] less.prems i by (fastforce intro: add_leD1)
    qed
  qed
qed

lemma overlap_loop_spec:
  assumes "len \<le> length pt" "even len" "even i" "i \<le> len" "j \<le> i"
  shows "\<exists>pt' j'. overlap_loop pt len i j = Inr (pt', j') \<and> length pt' = length pt \<and> j' \<le> len \<and>
    take j' pt' = take j pt @ un_pairs (merge_all (as_pairs (drop i (take len pt))))"
  using assms
proof (induction "len - i" arbitrary: pt i j rule: less_induct)
  case less
  show ?case
  proof (cases "i < len")
    case False
    with less.prems show ?thesis by (simp add: overlap_loop.simps)
  next
    case True
    then have i: "i + 1 < len" "i + 2 \<le> len" using less.prems by presburger+
    obtain en' i' where m: "merge_run pt len (pt ! (i + 1)) (i + 2) = Inr (en', i')" "i + 2 \<le> i'" "i' \<le> len" "even i'"
      "merge_from (pt ! i) (pt ! (i + 1)) (as_pairs (drop (i + 2) (take len pt))) =
        (pt ! i, en') # merge_all (as_pairs (drop i' (take len pt)))"
      using merge_run_spec [of len pt "i + 2" "pt ! (i + 1)" "pt ! i"] less.prems i by auto
    let ?pt = "pt[j := pt ! i, j + 1 := en']"
    have "overlap_loop pt len i j = overlap_loop ?pt len i' (j + 2)"
      using True i m(1) less.prems by (simp add: overlap_loop.simps [of pt len i j])
    moreover have "drop i' (take len ?pt) = drop i' (take len pt)" "take (j + 2) ?pt = take j pt @ [pt ! i, en']"
      using m(2,3) less.prems i by (auto simp: drop_take list_eq_iff_nth_eq nth_append nth_list_update less_Suc_eq)
    moreover have "merge_all (as_pairs (drop i (take len pt))) = (pt ! i, en') # merge_all (as_pairs (drop i' (take len pt)))"
      using as_pairs_drop [of i "take len pt"] less.prems i m(5) by simp
    ultimately show ?thesis
      using less.hyps [of i' ?pt "j + 2"] less.prems m(2-4) True by simp
  qed
qed

section \<open>The result\<close>

definition pair_set :: "(u32 \<times> u32) list \<Rightarrow> u32 set" where
  "pair_set ps = {x. \<exists>(a, b)\<in>set ps. a \<le> x \<and> x < b}"

lemma pair_set_simps [simp]: "pair_set [] = {}" "pair_set ((a, b) # ps) = {a..<b} \<union> pair_set ps"
  by (auto simp: pair_set_def)

lemma merge_from_spec:
  assumes "\<forall>p\<in>set ps. fst p < snd p" "sorted (s # map fst ps)" "s < e"
  shows "sorted_wrt (<) (un_pairs (merge_from s e ps)) \<and> (\<forall>p\<in>set (un_pairs (merge_from s e ps)). s \<le> p) \<and>
    pair_set (merge_from s e ps) = {s..<e} \<union> pair_set ps"
  using assms
proof (induction s e ps rule: merge_from.induct)
  case (2 s e s1 e1 ps)
  show ?case
  proof (cases "s1 > e")
    case True
    have ih: "sorted_wrt (<) (un_pairs (merge_from s1 e1 ps))" "\<forall>p\<in>set (un_pairs (merge_from s1 e1 ps)). s1 \<le> p"
        "pair_set (merge_from s1 e1 ps) = {s1..<e1} \<union> pair_set ps"
      using "2.IH"(1) [OF True] "2.prems" by simp_all
    have "\<forall>p\<in>set (un_pairs (merge_from s1 e1 ps)). e < p" using ih(2) True by (meson order_less_le_trans)
    moreover from this have "\<forall>p\<in>set (un_pairs (merge_from s1 e1 ps)). s < p" using "2.prems"(3) by (meson order_less_trans)
    ultimately show ?thesis using True "2.prems"(3) ih(1,3) by (auto simp: less_imp_le)
  next
    case False
    have "s < max e e1" using "2.prems" by (simp add: less_max_iff_disj)
    then have "sorted_wrt (<) (un_pairs (merge_from s (max e e1) ps)) \<and> (\<forall>p\<in>set (un_pairs (merge_from s (max e e1) ps)). s \<le> p) \<and>
        pair_set (merge_from s (max e e1) ps) = {s..<max e e1} \<union> pair_set ps"
      using "2.IH"(2) [OF False] "2.prems" by simp
    moreover have "{s..<max e e1} = {s..<e} \<union> {s1..<e1}" using False "2.prems" by (auto simp: max_def)
    ultimately show ?thesis using False by (simp add: Un_assoc)
  qed
qed auto

lemma merge_all_spec:
  assumes "\<forall>p\<in>set ps. fst p < snd p" "sorted (map fst ps)"
  shows "canonical (un_pairs (merge_all ps))" "pair_set (merge_all ps) = pair_set ps"
proof -
  have m: "sorted_wrt (<) (un_pairs (merge_all ps)) \<and> pair_set (merge_all ps) = pair_set ps"
  proof (cases ps)
    case (Cons p qs)
    obtain s e where ps: "ps = (s, e) # qs" using Cons by (cases p) simp
    have "\<forall>p\<in>set qs. fst p < snd p" "sorted (s # map fst qs)" "s < e" using assms unfolding ps by simp_all
    note m = merge_from_spec [OF this]
    show ?thesis unfolding ps merge_all.simps pair_set_simps using m by blast
  qed simp
  from m show "pair_set (merge_all ps) = pair_set ps" by (rule conjunct2)
  show "canonical (un_pairs (merge_all ps))" unfolding canonical_def using conjunct1 [OF m] by simp
qed

lemma cr_set_un_pairs: "sorted (un_pairs ps) \<Longrightarrow> cr_set (un_pairs ps) = pair_set ps"
proof (induction ps rule: un_pairs.induct)
  case (2 a b ps)
  then have ih: "cr_set (un_pairs ps) = pair_set ps" by simp
  have "x \<in> cr_set (un_pairs ((a, b) # ps)) \<longleftrightarrow> x \<in> pair_set ((a, b) # ps)" for x
  proof (cases "b \<le> x")
    case True
    moreover from True have "a \<le> x" using "2.prems" by auto
    ultimately show ?thesis by (auto simp: cr_set_def simp flip: ih)
  next
    case False
    then have "below x (un_pairs ps) = 0" using "2.prems" by (force simp: below_0_iff)
    moreover from this have "x \<notin> pair_set ps" by (simp add: cr_set_def flip: ih)
    ultimately show ?thesis using False by (auto simp: cr_set_def)
  qed
  then show ?case by blast
qed (simp add: cr_set_def)

lemma cr_sort_and_remove_overlap_spec:
  assumes "cr_inv cr" "even (cr_len cr)" "\<forall>(a, b)\<in>set (as_pairs (cr_contents cr)). a < b"
  shows "\<exists>cr'. cr_sort_and_remove_overlap cr = Inr cr' \<and> cr_inv cr' \<and> cr_size cr' = cr_size cr \<and> canonical (cr_contents cr') \<and>
    cr_set (cr_contents cr') = {x. \<exists>(a, b)\<in>set (as_pairs (cr_contents cr)). a \<le> x \<and> x < b}"
proof -
  obtain ps where ps: "sort_points cr = Inr (un_pairs ps @ drop (cr_len cr) (cr_points cr))"
    "mset ps = mset (as_pairs (cr_contents cr))" "sorted (map fst ps)"
    using sort_points_spec [OF assms(1,2)] .
  let ?pt = "un_pairs ps @ drop (cr_len cr) (cr_points cr)"
  have "length ps = cr_len cr div 2"
    using mset_eq_length [OF ps(2)] assms(1) by (simp add: length_as_pairs)
  then have len: "length (un_pairs ps) = cr_len cr" using assms(2) by simp
  have set_eq: "set ps = set (as_pairs (cr_contents cr))" using ps(2) by (rule mset_eq_setD)
  note m = merge_all_spec [of ps, OF _ ps(3)]
  have pos: "\<forall>p\<in>set ps. fst p < snd p" using assms(3) by (auto simp: set_eq)
  obtain pt' j' where l: "overlap_loop ?pt (cr_len cr) 0 0 = Inr (pt', j')" "length pt' = length ?pt" "j' \<le> cr_len cr"
    "take j' pt' = un_pairs (merge_all ps)"
    using overlap_loop_spec [of "cr_len cr" ?pt 0 0] assms(2) len by auto
  let ?cr = "cr\<lparr>cr_points := pt', cr_len := j'\<rparr>"
  have "cr_sort_and_remove_overlap cr = Inr ?cr" using ps(1) l(1) by (simp add: cr_sort_and_remove_overlap_def)
  moreover have "cr_inv ?cr" using assms(1) l(2,3) len by (auto simp: cr_inv_def)
  moreover have "cr_contents ?cr = un_pairs (merge_all ps)" using l(4) by (simp add: cr_contents_def)
  moreover have "cr_set (un_pairs (merge_all ps)) = {x. \<exists>(a, b)\<in>set (as_pairs (cr_contents cr)). a \<le> x \<and> x < b}"
    using cr_set_un_pairs [OF canonical_sorted [OF m(1) [OF pos]]] m(2) [OF pos] by (simp add: pair_set_def set_eq)
  ultimately show ?thesis using m(1) [OF pos] by auto
qed

text \<open>
  C22. On any list of non-empty intervals, in any order and overlapping or not, \<open>cr_sort_and_remove_overlap\<close>
  stays inside the array, allocates nothing, and leaves the strictly increasing point list that denotes
  exactly the union of the intervals.
\<close>

theorem cr_sort_and_remove_overlap_correct:
  assumes "cr_inv cr" "even (cr_len cr)" "\<forall>(a, b)\<in>set (as_pairs (cr_contents cr)). a < b"
  shows "\<exists>cr'. cr_sort_and_remove_overlap cr = Inr cr' \<and> cr_inv cr' \<and> cr_size cr' = cr_size cr \<and> canonical (cr_contents cr') \<and>
    cr_set (cr_contents cr') = {x. \<exists>(a, b)\<in>set (as_pairs (cr_contents cr)). a \<le> x \<and> x < b}"
  using assms by (rule cr_sort_and_remove_overlap_spec)

theorem cr_sort_and_remove_overlap_correct_witness:
  "\<exists>cr'. cr_sort_and_remove_overlap \<lparr>cr_len = 6, cr_size = 7, cr_points = [20, 30, 1, 5, 4, 9, 0], cr_realloc_func = cr_default_realloc 9\<rparr> = Inr cr' \<and>
    canonical (cr_contents cr') \<and> 25 \<in> cr_set (cr_contents cr') \<and> 8 \<in> cr_set (cr_contents cr') \<and> 9 \<notin> cr_set (cr_contents cr')"
  using cr_sort_and_remove_overlap_correct
    [of "\<lparr>cr_len = 6, cr_size = 7, cr_points = [20, 30, 1, 5, 4, 9, 0], cr_realloc_func = cr_default_realloc 9\<rparr>"]
  by (auto simp: cr_inv_def cr_contents_def cr_default_realloc_law)

end
