(* ===== verification/Unicode_Lookup.thy ===== *)
theory Unicode_Lookup
  imports Prelude
begin

text \<open>
  The run length encoded property tables of \<^verbatim>\<open>libunicode.c\<close>: \<open>get_index_pos\<close> finds the block of a
  character in the index of a table, and \<open>lre_is_in_table\<close> decodes the block up to the character. The
  specification decodes the whole table; the locale \<open>indexed_table\<close> states what ties an index to its table.
\<close>

section \<open>Definitions\<close>

definition get_le24 :: "u8 list \<Rightarrow> nat \<Rightarrow> u32 cres" where
  "get_le24 ptr p =
     cbind (rd ptr p) (\<lambda>a. cbind (rd ptr (p + 1)) (\<lambda>b. cbind (rd ptr (p + 2)) (\<lambda>d.
       Inr (ucast a OR push_bit 8 (ucast b) OR push_bit 16 (ucast d)))))"

abbreviation (input) UNICODE_INDEX_BLOCK_LEN :: nat where
  "UNICODE_INDEX_BLOCK_LEN \<equiv> 32"

function index_loop :: "u32 \<Rightarrow> u8 list \<Rightarrow> nat \<Rightarrow> nat \<Rightarrow> nat cres" where
  "index_loop c index_table idx_min idx_max =
     (if idx_max - idx_min > 1 then
        let idx = (idx_max + idx_min) div 2 in
        cbind (get_le24 index_table (idx * 3)) (\<lambda>v.
          if c < v AND (2 ^ 21 - 1) then index_loop c index_table idx_min idx
          else index_loop c index_table idx idx_max)
      else Inr idx_min)"
  by pat_completeness auto
termination
  by (relation "measure (\<lambda>(_, _, idx_min, idx_max). idx_max - idx_min)") auto

declare index_loop.simps [simp del]

definition get_index_pos :: "u32 \<Rightarrow> u8 list \<Rightarrow> nat \<Rightarrow> (nat \<times> u32) option cres" where
  "get_index_pos c index_table index_table_len =
     cbind (get_le24 index_table 0) (\<lambda>v.
     if c < v AND (2 ^ 21 - 1) then Inr (Some (0, 0))
     else
       let idx_max = index_table_len - 1 in
       cbind (get_le24 index_table (idx_max * 3)) (\<lambda>code.
       if c \<ge> code then Inr None
       else
         cbind (index_loop c index_table 0 idx_max) (\<lambda>idx_min.
         cbind (get_le24 index_table (idx_min * 3)) (\<lambda>v.
         Inr (Some ((idx_min + 1) * UNICODE_INDEX_BLOCK_LEN + unat (drop_bit 21 v), v AND (2 ^ 21 - 1)))))))"

text \<open>
  The length of the run a byte \<open>b\<close> of at least 64 encodes, with its extra bytes, and the pointer behind it.
  \<open>lre_is_in_table\<close> and \<open>unicode_prop1\<close> decode such a byte in the same way.
\<close>

definition run_code :: "u8 list \<Rightarrow> nat \<Rightarrow> u32 \<Rightarrow> (nat \<times> u32) cres" where
  "run_code table p b =
     (if b \<ge> 0x80 then Inr (p + 1, b - 0x80 + 1)
      else if b < 0x60 then
        cbind (rd table (p + 1)) (\<lambda>x. Inr (p + 2, (push_bit 8 (b - 0x40) OR ucast x) + 1))
      else
        cbind (rd table (p + 1)) (\<lambda>x. cbind (rd table (p + 2)) (\<lambda>y.
        Inr (p + 3, (push_bit 16 (b - 0x60) OR push_bit 8 (ucast x) OR ucast y) + 1))))"

text \<open>
  One turn of the decoding loop: \<open>Inl\<close> is the return between the two runs of a packed byte, \<open>Inr\<close> the
  pointer, the end of the run and the bit at the test that closes the loop body.
\<close>

definition in_table_next :: "u8 list \<Rightarrow> nat \<Rightarrow> u32 \<Rightarrow> u32 \<Rightarrow> bool \<Rightarrow> (bool + nat \<times> u32 \<times> bool) cres" where
  "in_table_next table p c code bt =
     cbind (rd table p) (\<lambda>b8. let b = ucast b8 :: u32 in
       if b < 64 then
         let code = code + (drop_bit 3 b + 1) in
         if c < code then Inr (Inl bt)
         else Inr (Inr (p + 1, code + ((b AND 7) + 1), \<not> bt))
       else
         cbind (run_code table p b) (\<lambda>(p', n). Inr (Inr (p', code + n, bt))))"

lemma in_table_next_progress:
  "in_table_next table p c code bt = Inr (Inr (p', code', bt')) \<Longrightarrow> p < p' \<and> p < length table"
  by (auto simp: in_table_next_def run_code_def rd_def Let_def split: if_splits)

function in_table_loop :: "u8 list \<Rightarrow> nat \<Rightarrow> u32 \<Rightarrow> u32 \<Rightarrow> bool \<Rightarrow> bool cres" where
  "in_table_loop table p c code bt =
     cbind (in_table_next table p c code bt) (\<lambda>r. case r of
       Inl res \<Rightarrow> Inr res
     | Inr (p', code', bt') \<Rightarrow>
         if c < code' then Inr bt' else in_table_loop table p' c code' (\<not> bt'))"
  by pat_completeness auto
termination
  by (relation "measure (\<lambda>(table, p, _, _, _). length table - p)")
    (auto dest!: in_table_next_progress)

declare in_table_loop.simps [simp del]

definition lre_is_in_table :: "u32 \<Rightarrow> u8 list \<Rightarrow> u8 list \<Rightarrow> nat \<Rightarrow> bool cres" where
  "lre_is_in_table c table index_table index_table_len =
     cbind (get_index_pos c index_table index_table_len) (\<lambda>r. case r of
       None \<Rightarrow> Inr False
     | Some (pos, code) \<Rightarrow> in_table_loop table pos c code False)"

section \<open>Specification\<close>

text \<open>The lengths of the runs of an encoded table, \<open>None\<close> when the last code is cut short.\<close>

fun run_lengths :: "u8 list \<Rightarrow> int list option" where
  "run_lengths [] = Some []"
| "run_lengths (b # p) =
     (if b < 64 then map_option (\<lambda>r. (uint b div 8 + 1) # (uint b mod 8 + 1) # r) (run_lengths p)
      else if b \<ge> 128 then map_option (\<lambda>r. (uint b - 127) # r) (run_lengths p)
      else if b < 96 then
        (case p of x # p \<Rightarrow> map_option (\<lambda>r. ((uint b - 64) * 256 + uint x + 1) # r) (run_lengths p)
         | _ \<Rightarrow> None)
      else
        (case p of
           x # y # p \<Rightarrow> map_option (\<lambda>r. ((uint b - 96) * 65536 + uint x * 256 + uint y + 1) # r) (run_lengths p)
         | _ \<Rightarrow> None))"

text \<open>The runs alternate between outside and inside the set.\<close>

fun in_runs :: "int \<Rightarrow> int \<Rightarrow> bool \<Rightarrow> int list \<Rightarrow> bool" where
  "in_runs c code bt [] = False"
| "in_runs c code bt (r # rs) = (if c < code + r then bt else in_runs c (code + r) (\<not> bt) rs)"

text \<open>The blocks of an index: position and first code point, the end of the table last.\<close>

fun index_words :: "u8 list \<Rightarrow> u32 list" where
  "index_words (a # b # d # r) = (ucast a OR push_bit 8 (ucast b) OR push_bit 16 (ucast d)) # index_words r"
| "index_words _ = []"

fun index_blocks :: "nat \<Rightarrow> nat \<Rightarrow> u32 list \<Rightarrow> (nat \<times> int) list" where
  "index_blocks n k [] = []"
| "index_blocks n k [v] = [(n, uint v)]"
| "index_blocks n k (v # w # ws) =
     ((k + 1) * 32 + unat (drop_bit 21 v), uint (v AND 0x1fffff)) # index_blocks n (k + 1) (w # ws)"

text \<open>Between two block boundaries lies an even number of runs that spans the code points between them.\<close>

fun blocks_ok :: "u8 list \<Rightarrow> nat \<Rightarrow> int \<Rightarrow> (nat \<times> int) list \<Rightarrow> bool" where
  "blocks_ok t p code [] \<longleftrightarrow> t = []"
| "blocks_ok t p code ((q, k) # ib) \<longleftrightarrow>
     p < q \<and>
     (case run_lengths (take (q - p) t) of
        Some rs \<Rightarrow> even (length rs) \<and> code + sum_list rs = k
      | None \<Rightarrow> False) \<and>
     blocks_ok (drop (q - p) t) q k ib"

section \<open>Decoding\<close>

lemma drop_Suc_tl: "drop (Suc n) xs = tl (drop n xs)"
  by (simp add: drop_Suc tl_drop)

lemma uint_ucast_u32 [simp]: "uint (ucast (b :: u8) :: u32) = uint b"
  by (rule uint_up_ucast) (simp add: is_up)

lemma ucast_u32_less [simp]:
  "(ucast (b :: u8) :: u32) < 64 \<longleftrightarrow> b < 64" "(ucast b :: u32) < 0x60 \<longleftrightarrow> b < 0x60"
  "0x80 \<le> (ucast b :: u32) \<longleftrightarrow> 0x80 \<le> b"
  by (simp_all add: word_less_def word_le_def)

lemma uint_u8_bounds: "0 \<le> uint (b :: u8)" "uint b < 256"
  using uint_lt2p [of b] by simp_all

lemma uint_shr3: "uint (drop_bit 3 (ucast (b :: u8)) :: u32) = uint b div 8"
  by (simp add: uint_shr)

lemma uint_and7: "uint ((ucast (b :: u8) :: u32) AND 7) = uint b mod 8"
proof -
  have "(ucast b :: u32) AND 7 = take_bit 3 (ucast b)" by (simp add: take_bit_eq_mask mask_eq_exp_minus_1)
  then show ?thesis by (simp only: uint_low_bits uint_ucast_u32) simp
qed

lemma uint_add_u32: "uint a + uint b < 2 ^ 32 \<Longrightarrow> uint (a + b :: u32) = uint a + uint b"
  by (simp add: uint_word_ariths)

lemma uint_sub_u32: "b \<le> a \<Longrightarrow> uint (a - b :: u32) = uint a - uint b"
  by (simp add: uint_sub_lem word_le_def)

lemma uint_push_bit_u32: "uint v * 2 ^ n < 2 ^ 32 \<Longrightarrow> uint (push_bit n v :: u32) = uint v * 2 ^ n"
  unfolding unsigned_push_bit_eq by (simp add: push_bit_eq_mult take_bit_int_eq_self)

lemma uint_or_low: 
  assumes "uint v < 2 ^ 24"
  shows "uint (push_bit 8 v OR ucast (x :: u8) :: u32) = uint v * 256 + uint x"
proof -
  have "push_bit 8 v OR ucast x = push_bit 8 v + (ucast x :: u32)"
    by (rule disjunctive_add [symmetric]) (auto simp: bit_simps)
  with assms uint_u8_bounds [of x] show ?thesis
    by (simp add: uint_add_u32 uint_push_bit_u32)
qed

lemma uint_or_low2:
  assumes "uint v < 2 ^ 16"
  shows "uint (push_bit 16 v OR push_bit 8 (ucast (x :: u8)) OR ucast (y :: u8) :: u32) =
    uint v * 65536 + uint x * 256 + uint y"
proof -
  have "push_bit 16 v OR push_bit 8 (ucast x) OR ucast y =
      push_bit 8 (push_bit 8 v OR (ucast x :: u32)) OR ucast y"
    by (simp add: push_bit_or or.assoc)
  moreover have "uint (push_bit 8 v OR ucast x) = uint v * 256 + uint x"
    using assms by (simp add: uint_or_low)
  moreover from this have "uint (push_bit 8 v OR ucast x) < 2 ^ 24"
    using assms uint_u8_bounds [of x] by simp
  ultimately show ?thesis by (simp only: uint_or_low) simp
qed

lemma run_lengths_ConsE:
  assumes "run_lengths (b # p) = Some rs"
  obtains (two) rs' where "b < 64" "run_lengths p = Some rs'"
      "rs = (uint b div 8 + 1) # (uint b mod 8 + 1) # rs'"
  | (one) rs' where "64 \<le> uint b" "128 \<le> b" "run_lengths p = Some rs'" "rs = (uint b - 127) # rs'"
  | (ext) x q rs' where "p = x # q" "64 \<le> uint b" "\<not> 128 \<le> b" "b < 96" "run_lengths q = Some rs'"
      "rs = ((uint b - 64) * 256 + uint x + 1) # rs'"
  | (ext2) x y q rs' where "p = x # y # q" "96 \<le> uint b" "\<not> 128 \<le> b" "\<not> b < 96" "run_lengths q = Some rs'"
      "rs = ((uint b - 96) * 65536 + uint x * 256 + uint y + 1) # rs'"
proof -
  consider "b < 64" | "\<not> b < 64" "128 \<le> b" | "\<not> b < 64" "\<not> 128 \<le> b" "b < 96"
    | "\<not> b < 64" "\<not> 128 \<le> b" "\<not> b < 96" by blast
  then show thesis
  proof cases
    case 1
    with assms two show thesis by auto
  next
    case 2
    with assms one show thesis by (auto simp: word_less_def)
  next
    case 3
    with assms obtain x q where "p = x # q" by (cases p) auto
    with 3 assms ext show thesis by (auto simp: word_less_def)
  next
    case 4
    with assms obtain x q where "p = x # q" by (cases p) auto
    with 4 assms obtain y q' where "p = x # y # q'" by (cases q) auto
    with 4 assms ext2 show thesis by (auto simp: word_less_def)
  qed
qed

lemma code_pos: "0 \<le> a \<Longrightarrow> 0 \<le> b \<Longrightarrow> 0 \<le> d \<Longrightarrow> 1 \<le> k \<Longrightarrow> 1 \<le> a * 65536 + b * 256 + d + (k :: int)"
  by simp

lemma run_lengths_pos: "run_lengths t = Some rs \<Longrightarrow> r \<in> set rs \<Longrightarrow> 1 \<le> r"
proof (induction "length t" arbitrary: t rs rule: less_induct)
  case less
  show ?case
  proof (cases t)
    case Nil
    with less.prems show ?thesis by simp
  next
    case (Cons b p)
    have "0 \<le> uint b div 8" "0 \<le> uint b mod 8" by (simp_all add: pos_imp_zdiv_nonneg_iff)
    show ?thesis
      using less.prems(1) [unfolded Cons]
    proof (cases rule: run_lengths_ConsE)
      case (two rs')
      then show ?thesis
        using less.hyps [of p rs'] less.prems(2) Cons \<open>0 \<le> uint b div 8\<close> \<open>0 \<le> uint b mod 8\<close> by auto
    next
      case (one rs')
      then show ?thesis
        using less.hyps [of p rs'] less.prems(2) Cons by (auto simp: word_le_def)
    next
      case (ext x q rs')
      have "1 \<le> (uint b - 64) * 256 + uint x + 1" using code_pos [of 0 "uint b - 64" "uint x" 1] ext(2) by simp
      with ext show ?thesis
        using less.hyps [of q rs'] less.prems(2) Cons by auto
    next
      case (ext2 x y q rs')
      have "1 \<le> (uint b - 96) * 65536 + uint x * 256 + uint y + 1"
        by (rule code_pos) (use ext2(2) in simp_all)
      with ext2 show ?thesis
        using less.hyps [of q rs'] less.prems(2) Cons by auto
    qed
  qed
qed

lemma sum_list_nonneg_runs: "run_lengths t = Some rs \<Longrightarrow> 0 \<le> sum_list rs"
  by (rule sum_list_nonneg) (auto dest!: run_lengths_pos)


text \<open>A byte is one code, of two runs or of one.\<close>

lemma run_lengths_rd_cases:
  assumes "run_lengths (drop p table) = Some rs" "rs \<noteq> []"
  obtains (two) b rs' n1 n2 where "rd table p = Inr b" "(ucast b :: u32) < 64" "p < length table"
      "rs = uint n1 # uint n2 # rs'" "run_lengths (drop (p + 1) table) = Some rs'"
      "n1 = drop_bit 3 (ucast b) + (1 :: u32)" "n2 = (ucast b AND 7) + (1 :: u32)"
  | (one) b rs' p' n where "rd table p = Inr b" "\<not> (ucast b :: u32) < 64" "p < length table" "p < p'"
      "rs = uint n # rs'" "run_lengths (drop p' table) = Some rs'" "run_code table p (ucast b) = Inr (p', n)"
proof -
  from assms have p: "p < length table" by (cases "p < length table") auto
  define b where "b = table ! p"
  have dr: "drop p table = b # drop (p + 1) table" using p by (simp add: b_def Cons_nth_drop_Suc)
  have rd: "rd table p = Inr b" using p by (simp add: b_def)
  note ub = uint_u8_bounds [of b]
  show thesis
    using assms(1) [unfolded dr]
  proof (cases rule: run_lengths_ConsE)
    case (two rs')
    have d8: "0 \<le> uint b div 8" "uint b div 8 < 32" "0 \<le> uint b mod 8" "uint b mod 8 < 8"
      using ub by (auto simp: pos_imp_zdiv_nonneg_iff)
    have u1: "uint (drop_bit 3 (ucast b) + 1 :: u32) = uint b div 8 + 1"
      using d8 by (subst uint_add_u32) (simp_all add: uint_shr3)
    have u2: "uint ((ucast b AND 7) + 1 :: u32) = uint b mod 8 + 1"
      using d8 by (subst uint_add_u32) (simp_all add: uint_and7)
    show thesis
      by (rule that(1) [OF rd _ p _ two(2) refl refl]) (use two in \<open>simp_all only: u1 u2 ucast_u32_less\<close>)
  next
    case (one rs')
    have "128 \<le> uint b" using one(2) by (simp add: word_le_def)
    then have "uint (ucast b - 127 :: u32) = uint b - 127"
      by (subst uint_sub_u32) (simp_all add: word_le_def)
    then show thesis
      by (intro that(2) [of b "p + 1" "ucast b - 127" rs'])
        (use one p rd in \<open>simp_all add: run_code_def word_less_def\<close>)
  next
    case (ext x q rs')
    have d1: "drop (Suc p) table = x # q" using ext(1) by simp
    then have q: "q = drop (p + 2) table"
      using drop_Suc_tl [of "Suc p" table] by simp
    have x: "rd table (Suc p) = Inr x" using nth_via_drop [OF d1] d1 by (cases "Suc p < length table") auto
    have lt: "uint b < 96" using ext(4) by (simp add: word_less_def)
    have v: "uint (ucast b - 0x40 :: u32) = uint b - 64"
      using ext(2) by (subst uint_sub_u32) (simp_all add: word_le_def)
    have o: "uint (push_bit 8 (ucast b - 0x40) OR ucast x :: u32) = (uint b - 64) * 256 + uint x"
      using lt by (subst uint_or_low) (simp_all add: v)
    have u1: "uint ((push_bit 8 (ucast b - 0x40) OR ucast x) + 1 :: u32) = (uint b - 64) * 256 + uint x + 1"
      using lt uint_u8_bounds [of x] by (subst uint_add_u32) (simp_all add: o)
    show thesis
      by (rule that(2) [OF rd _ p _ _ ext(5) [unfolded q], where n = "(push_bit 8 (ucast b - 0x40) OR ucast x) + 1"])
        (use ext(2,3,4,6) in \<open>simp_all add: run_code_def x u1 word_less_def\<close>)
  next
    case (ext2 x y q rs')
    have d1: "drop (Suc p) table = x # y # q" using ext2(1) by simp
    then have d2: "drop (Suc (Suc p)) table = y # q" by (simp add: drop_Suc_tl)
    then have q: "q = drop (p + 3) table"
      using drop_Suc_tl [of "Suc (Suc p)" table] by (simp add: eval_nat_numeral)
    have x: "rd table (Suc p) = Inr x" using nth_via_drop [OF d1] d1 by (cases "Suc p < length table") auto
    have y: "rd table (Suc (Suc p)) = Inr y" using nth_via_drop [OF d2] d2 by (cases "Suc (Suc p) < length table") auto
    have lt: "uint b < 128" using ext2(3) by (simp add: word_le_def)
    have v: "uint (ucast b - 0x60 :: u32) = uint b - 96"
      using ext2(2) by (subst uint_sub_u32) (simp_all add: word_le_def)
    have o: "uint (push_bit 16 (ucast b - 0x60) OR push_bit 8 (ucast x) OR ucast y :: u32) =
        (uint b - 96) * 65536 + uint x * 256 + uint y"
      using lt by (subst uint_or_low2) (simp_all add: v)
    have u1: "uint ((push_bit 16 (ucast b - 0x60) OR push_bit 8 (ucast x) OR ucast y) + 1 :: u32) =
        (uint b - 96) * 65536 + uint x * 256 + uint y + 1"
      using lt uint_u8_bounds [of x] uint_u8_bounds [of y] by (subst uint_add_u32) (simp_all add: o)
    show thesis
      by (rule that(2) [OF rd _ p _ _ ext2(5) [unfolded q],
            where n = "(push_bit 16 (ucast b - 0x60) OR push_bit 8 (ucast x) OR ucast y) + 1"])
        (use ext2(2,3,4,6) in \<open>simp_all add: run_code_def x y u1 word_less_def\<close>)
  qed
qed

lemma in_table_next_cases:
  assumes "run_lengths (drop p table) = Some rs" "rs \<noteq> []" "uint code + sum_list rs < 2 ^ 32"
  obtains (two) r1 r2 rs' code1 code2 where "rs = r1 # r2 # rs'" "run_lengths (drop (p + 1) table) = Some rs'"
      "p < length table" "uint code1 = uint code + r1" "uint code2 = uint code + r1 + r2"
      "in_table_next table p c code bt = Inr (if c < code1 then Inl bt else Inr (p + 1, code2, \<not> bt))"
  | (one) r rs' p' code' where "rs = r # rs'" "run_lengths (drop p' table) = Some rs'" "p < p'"
      "p < length table" "uint code' = uint code + r"
      "in_table_next table p c code bt = Inr (Inr (p', code', bt))"
proof (cases rule: run_lengths_rd_cases [OF assms(1,2)])
  case (1 b rs' n1 n2)
  have s: "0 \<le> sum_list rs'" by (rule sum_list_nonneg_runs [OF 1(5)])
  have "0 \<le> uint n2" by simp
  with assms(3) s have "uint code + uint n1 < 2 ^ 32" unfolding 1(4) sum_list.Cons by linarith
  then have c1: "uint (code + n1) = uint code + uint n1" by (rule uint_add_u32)
  have c2: "uint (code + n1 + n2) = uint code + uint n1 + uint n2"
    using assms(3) s 1(4) by (subst uint_add_u32) (auto simp: c1)
  show thesis
    by (rule that(1) [OF 1(4,5,3) c1 c2]) (use 1 in \<open>simp add: in_table_next_def Let_def\<close>)
next
  case (2 b rs' p' n)
  have s: "0 \<le> sum_list rs'" by (rule sum_list_nonneg_runs [OF 2(6)])
  have c1: "uint (code + n) = uint code + uint n"
    using assms(3) s 2(5) by (intro uint_add_u32) auto
  show thesis
    by (rule that(2) [OF 2(5,6,4,3) c1]) (use 2 in \<open>simp add: in_table_next_def Let_def\<close>)
qed

lemma in_table_loop_runs:
  assumes "run_lengths (drop p table) = Some rs" "uint code + sum_list rs < 2 ^ 32"
    and "code \<le> c" "uint c < uint code + sum_list rs"
  shows "in_table_loop table p c code bt = Inr (in_runs (uint c) (uint code) bt rs)"
  using assms
proof (induction "length table - p" arbitrary: p rs code bt rule: less_induct)
  case less
  have ne: "rs \<noteq> []" using less.prems(3,4) by (auto simp: word_le_def)
  show ?case
  proof (cases rule: in_table_next_cases [OF less.prems(1) ne less.prems(2), of c bt])
    case (1 r1 r2 rs' code1 code2)
    note two = this
    then have *: "length table - (p + 1) < length table - p" by linarith
    show ?thesis
    proof (cases "c < code1 \<or> c < code2")
      case True
      with two show ?thesis by (auto simp: in_table_loop.simps [of table p c code bt] word_less_def)
    next
      case False
      with less.hyps [OF *, of rs' code2 bt] less.prems two show ?thesis
        by (auto simp: in_table_loop.simps [of table p c code bt] word_less_def word_le_def not_less)
    qed
  next
    case (2 r rs' p' code')
    note one = this
    then have *: "length table - p' < length table - p" by linarith
    show ?thesis
    proof (cases "c < code'")
      case True
      with one show ?thesis by (auto simp: in_table_loop.simps [of table p c code bt] word_less_def)
    next
      case False
      with less.hyps [OF *, of rs' code' "\<not> bt"] less.prems one show ?thesis
        by (auto simp: in_table_loop.simps [of table p c code bt] word_less_def word_le_def not_less)
    qed
  qed
qed

section \<open>Blocks\<close>

lemma run_lengths_append:
  "run_lengths xs = Some a \<Longrightarrow> run_lengths (xs @ ys) = map_option ((@) a) (run_lengths ys)"
proof (induction "length xs" arbitrary: xs a rule: less_induct)
  case less
  show ?case
  proof (cases xs)
    case Nil
    with less.prems show ?thesis by (cases "run_lengths ys") auto
  next
    case (Cons b p)
    note ih = less.hyps [unfolded Cons list.size add_0_right]
    show ?thesis
      using less.prems [unfolded Cons]
    proof (cases rule: run_lengths_ConsE)
      case (two rs')
      with ih [of p rs'] Cons show ?thesis by (cases "run_lengths ys") auto
    next
      case (one rs')
      then have "\<not> b < 64" by (simp add: word_less_def)
      with one ih [of p rs'] Cons show ?thesis by (cases "run_lengths ys") auto
    next
      case (ext x q rs')
      then have "\<not> b < 64" by (simp add: word_less_def)
      with ext ih [of q rs'] Cons show ?thesis by (cases "run_lengths ys") auto
    next
      case (ext2 x y q rs')
      then have "\<not> b < 64" by (simp add: word_less_def)
      with ext2 ih [of q rs'] Cons show ?thesis by (cases "run_lengths ys") auto
    qed
  qed
qed

lemma in_runs_append:
  assumes "\<And>r. r \<in> set pre \<Longrightarrow> 0 \<le> r" "code + sum_list pre \<le> c"
  shows "in_runs c code bt (pre @ post) = in_runs c (code + sum_list pre) (bt \<noteq> odd (length pre)) post"
  using assms
proof (induction pre arbitrary: code bt)
  case (Cons r pre)
  then have "0 \<le> sum_list pre" by (intro sum_list_nonneg) auto
  with Cons.prems have "\<not> c < code + r" by simp
  moreover have "in_runs c (code + r) (\<not> bt) (pre @ post) =
      in_runs c (code + r + sum_list pre) ((\<not> bt) \<noteq> odd (length pre)) post"
    using Cons.prems by (intro Cons.IH) (auto simp: algebra_simps)
  ultimately show ?case by (simp add: algebra_simps)
qed simp

text \<open>A block boundary: an even number of runs lies before it, and they span \<open>k\<close> code points.\<close>

definition block_at :: "u8 list \<Rightarrow> int list \<Rightarrow> nat \<Rightarrow> int \<Rightarrow> bool" where
  "block_at t rs q k \<longleftrightarrow> (\<exists>pre post. run_lengths (take q t) = Some pre \<and>
     run_lengths (drop q t) = Some post \<and> rs = pre @ post \<and> even (length pre) \<and> sum_list pre = k)"

lemma block_atE:
  assumes "block_at t rs q k"
  obtains pre post where "run_lengths (take q t) = Some pre" "run_lengths (drop q t) = Some post"
    "rs = pre @ post" "even (length pre)" "sum_list pre = k"
  using assms unfolding block_at_def by blast

lemma block_at_drop:
  assumes "block_at (drop p t) post q k" "run_lengths (take p t) = Some pre" "even (length pre)"
  shows "block_at t (pre @ post) (p + q) (sum_list pre + k)"
proof (rule block_atE [OF assms(1)])
  fix pre' post'
  assume *: "run_lengths (take q (drop p t)) = Some pre'" "run_lengths (drop q (drop p t)) = Some post'"
    "post = pre' @ post'" "even (length pre')" "sum_list pre' = k"
  have "run_lengths (take (p + q) t) = Some (pre @ pre')"
    using run_lengths_append [OF assms(2)] *(1) by (simp add: take_add)
  with * assms(3) show ?thesis
    unfolding block_at_def by (intro exI [of _ "pre @ pre'"] exI [of _ post']) (auto simp: add.commute)
qed

lemma blocks_ok_runs:
  "blocks_ok t p code ib \<Longrightarrow>
     \<exists>rs. run_lengths t = Some rs \<and> (\<forall>(q, k)\<in>set ib. p < q \<and> block_at t rs (q - p) (k - code))"
proof (induction ib arbitrary: t p code)
  case Nil
  then show ?case by simp
next
  case (Cons a ib)
  obtain q k where a: "a = (q, k)" by (cases a)
  with Cons.prems obtain pre where pre: "p < q" "run_lengths (take (q - p) t) = Some pre" "even (length pre)"
    "code + sum_list pre = k" and ok: "blocks_ok (drop (q - p) t) q k ib"
    by (auto split: option.splits)
  from Cons.IH [OF ok] obtain post where post: "run_lengths (drop (q - p) t) = Some post"
    and rest: "\<forall>(q', k')\<in>set ib. q < q' \<and> block_at (drop (q - p) t) post (q' - q) (k' - k)"
    by blast
  have all: "run_lengths t = Some (pre @ post)"
    using run_lengths_append [OF pre(2), of "drop (q - p) t"] post by simp
  have "p < q' \<and> block_at t (pre @ post) (q' - p) (k' - code)" if "(q', k') \<in> set ib" for q' k'
  proof -
    from rest that have "q < q'" "block_at (drop (q - p) t) post (q' - q) (k' - k)" by auto
    with block_at_drop [OF this(2) pre(2,3)] pre show ?thesis by (auto simp: algebra_simps)
  qed
  moreover have "block_at t (pre @ post) (q - p) (k - code)"
    unfolding block_at_def using pre post by auto
  ultimately show ?case using all pre(1) a by auto
qed

lemma length_index_words: "length (index_words ix) = length ix div 3"
  by (induction ix rule: index_words.induct) auto

lemma get_le24_words:
  "k < length ix div 3 \<Longrightarrow> get_le24 ix (k * 3) = Inr (index_words ix ! k)"
proof (induction ix arbitrary: k rule: index_words.induct)
  case (1 a b d r)
  show ?case
  proof (cases k)
    case 0
    then show ?thesis by (simp add: get_le24_def rd_def)
  next
    case (Suc j)
    then have "get_le24 r (j * 3) = Inr (index_words r ! j)" using 1 by simp
    moreover have "get_le24 (a # b # d # r) (Suc j * 3) = get_le24 r (j * 3)"
      by (simp add: get_le24_def rd_def)
    ultimately show ?thesis using Suc by simp
  qed
qed auto

lemma length_index_blocks: "length (index_blocks n k ws) = length ws"
  by (induction n k ws rule: index_blocks.induct) auto

lemma index_blocks_nth:
  "Suc j < length ws \<Longrightarrow>
     index_blocks n k ws ! j = ((k + j + 1) * 32 + unat (drop_bit 21 (ws ! j)), uint (ws ! j AND 0x1fffff))"
proof (induction n k ws arbitrary: j rule: index_blocks.induct)
  case (3 n k v w ws)
  then show ?case by (cases j) (auto simp: algebra_simps)
qed auto

lemma index_blocks_last:
  "ws \<noteq> [] \<Longrightarrow> index_blocks n k ws ! (length ws - 1) = (n, uint (last ws))"
  by (induction n k ws rule: index_blocks.induct) auto

section \<open>Indexed tables\<close>

text \<open>Membership of a character in the set a table encodes.\<close>

definition table_mem :: "u8 list \<Rightarrow> u32 \<Rightarrow> bool" where
  "table_mem table c = (case run_lengths table of Some rs \<Rightarrow> in_runs (uint c) 0 False rs | None \<Rightarrow> False)"

lemma in_runs_beyond: "(\<And>r. r \<in> set rs \<Longrightarrow> 0 \<le> r) \<Longrightarrow> code + sum_list rs \<le> c \<Longrightarrow> \<not> in_runs c code bt rs"
  using in_runs_append [of rs code c bt "[]"] by simp

locale indexed_table =
  fixes table index :: "u8 list" and n :: nat
  assumes index_len: "length index = 3 * n" "2 \<le> n"
    and blocks: "blocks_ok table 0 0 (index_blocks (length table) 0 (index_words index))"
begin

abbreviation ws :: "u32 list" where "ws \<equiv> index_words index"

lemma len_ws: "length ws = n"
  using index_len by (simp add: length_index_words)

lemma le24: "k < n \<Longrightarrow> get_le24 index (k * 3) = Inr (ws ! k)"
  using index_len by (simp add: get_le24_words)

lemma le24_first: "get_le24 index 0 = Inr (ws ! 0)"
  using le24 [of 0] index_len by simp

lemma index_loop_found:
  assumes "lo < hi" "hi \<le> n - 1" "ws ! lo AND (2 ^ 21 - 1) \<le> c"
  shows "\<exists>k. index_loop c index lo hi = Inr k \<and> k < n - 1 \<and> ws ! k AND (2 ^ 21 - 1) \<le> c"
  using assms
proof (induction "hi - lo" arbitrary: lo hi rule: less_induct)
  case less
  show ?case
  proof (cases "hi - lo > 1")
    case False
    with less.prems show ?thesis by (simp add: index_loop.simps [of c index lo hi])
  next
    case True
    define i where "i = (hi + lo) div 2"
    have i: "lo < i" "i < hi" using True by (auto simp: i_def)
    then have rdi: "get_le24 index (i * 3) = Inr (ws ! i)" using less.prems by (intro le24) linarith
    have step: "index_loop c index lo hi =
        (if c < ws ! i AND (2 ^ 21 - 1) then index_loop c index lo i else index_loop c index i hi)"
      unfolding index_loop.simps [of c index lo hi] using True rdi by (simp flip: i_def)
    have "i - lo < hi - lo" "hi - i < hi - lo" using i by linarith+
    with less.hyps [of i lo] less.hyps [of hi i] less.prems i step show ?thesis
      by (cases "c < ws ! i AND (2 ^ 21 - 1)") (auto simp: not_less)
  qed
qed

lemma runs:
  obtains rs where "run_lengths table = Some rs" "uint (ws ! (n - 1)) = sum_list rs"
    "\<And>k. k < n - 1 \<Longrightarrow>
      block_at table rs ((k + 1) * 32 + unat (drop_bit 21 (ws ! k))) (uint (ws ! k AND 0x1fffff))"
proof -
  let ?ib = "index_blocks (length table) 0 ws"
  have len: "length ?ib = n" by (simp add: length_index_blocks len_ws)
  from blocks_ok_runs [OF blocks] obtain rs where rs: "run_lengths table = Some rs"
    and at: "\<And>q k. (q, k) \<in> set ?ib \<Longrightarrow> block_at table rs q k"
    by auto
  have "?ib ! (n - 1) = (length table, uint (ws ! (n - 1)))"
    using index_blocks_last [of ws "length table" 0] len_ws index_len by (cases ws) (auto simp: last_conv_nth)
  then have "(length table, uint (ws ! (n - 1))) \<in> set ?ib"
    using len index_len nth_mem [of "n - 1" ?ib] by simp
  from at [OF this] rs have "uint (ws ! (n - 1)) = sum_list rs" by (auto elim!: block_atE)
  moreover have "block_at table rs ((k + 1) * 32 + unat (drop_bit 21 (ws ! k))) (uint (ws ! k AND 0x1fffff))"
    if "k < n - 1" for k
  proof -
    have "?ib ! k = ((k + 1) * 32 + unat (drop_bit 21 (ws ! k)), uint (ws ! k AND 0x1fffff))"
      using that len_ws by (subst index_blocks_nth) simp_all
    with that len show ?thesis using nth_mem [of k ?ib] by (intro at) simp
  qed
  ultimately show thesis using that rs by blast
qed

theorem in_table: "lre_is_in_table c table index n = Inr (table_mem table c)"
proof -
  obtain rs where rs: "run_lengths table = Some rs" and upper: "uint (ws ! (n - 1)) = sum_list rs"
    and at_block: "\<And>k. k < n - 1 \<Longrightarrow>
      block_at table rs ((k + 1) * 32 + unat (drop_bit 21 (ws ! k))) (uint (ws ! k AND 0x1fffff))"
    by (rule runs) blast
  have nonneg: "0 \<le> r" if "r \<in> set rs" for r using run_lengths_pos [OF rs that] by simp
  have bound: "sum_list rs < 2 ^ 32" using upper uint_lt2p [of "ws ! (n - 1)"] by simp
  have mem: "table_mem table c = in_runs (uint c) 0 False rs" by (simp add: table_mem_def rs)
  have last: "get_le24 index ((n - 1) * 3) = Inr (ws ! (n - 1))" using index_len by (intro le24) simp
  consider (beyond) "ws ! (n - 1) \<le> c" "\<not> c < ws ! 0 AND (2 ^ 21 - 1)"
    | (first) "c < ws ! 0 AND (2 ^ 21 - 1)"
    | (block) "c < ws ! (n - 1)" "ws ! 0 AND (2 ^ 21 - 1) \<le> c"
    by (meson not_le)
  then show ?thesis
  proof cases
    case beyond
    then have "\<not> in_runs (uint c) 0 False rs"
      using nonneg upper by (intro in_runs_beyond) (auto simp: word_le_def)
    with beyond mem show ?thesis
      by (simp add: lre_is_in_table_def get_index_pos_def le24_first last [simplified] Let_def)
  next
    case first
    from at_block [of 0] index_len obtain pre post where "rs = pre @ post"
      "sum_list pre = uint (ws ! 0 AND 0x1fffff)" by (auto elim!: block_atE)
    moreover have "0 \<le> sum_list post" using \<open>rs = pre @ post\<close> nonneg by (intro sum_list_nonneg) auto
    ultimately have "uint c < sum_list rs" using first by (simp add: word_less_def)
    then have "in_table_loop table 0 c 0 False = Inr (in_runs (uint c) 0 False rs)"
      using in_table_loop_runs [of 0 table rs 0 c False] rs bound by simp
    with first mem show ?thesis
      by (simp add: lre_is_in_table_def get_index_pos_def le24_first)
  next
    case block
    with index_loop_found [of 0 "n - 1" c] index_len
    obtain k where k: "index_loop c index 0 (n - 1) = Inr k" "k < n - 1" "ws ! k AND (2 ^ 21 - 1) \<le> c"
      by auto
    from at_block [OF k(2)] obtain pre post where
      *: "run_lengths (drop ((k + 1) * 32 + unat (drop_bit 21 (ws ! k))) table) = Some post"
        "rs = pre @ post" "even (length pre)" "sum_list pre = uint (ws ! k AND 0x1fffff)"
      by (rule block_atE)
    have lt: "uint c < sum_list rs" using block(1) upper by (simp add: word_less_def)
    have le: "sum_list pre \<le> uint c" using k(3) * by (simp add: word_le_def)
    have "in_runs (uint c) 0 False rs = in_runs (uint c) (sum_list pre) False post"
      using in_runs_append [of pre 0 "uint c" False post] nonneg * le by simp
    moreover have "in_table_loop table ((k + 1) * 32 + unat (drop_bit 21 (ws ! k))) c (ws ! k AND 0x1fffff) False =
        Inr (in_runs (uint c) (uint (ws ! k AND 0x1fffff)) False post)"
      by (rule in_table_loop_runs) (use * bound lt k(3) in simp_all)
    moreover have "get_le24 index (k * 3) = Inr (ws ! k)" using k(2) by (intro le24) simp
    moreover have "\<not> ws ! (n - 1) \<le> c" "\<not> c < ws ! 0 AND (2 ^ 21 - 1)"
      using block by (auto simp: not_le not_less)
    ultimately show ?thesis
      using k(1) mem *(4) by (simp add: lre_is_in_table_def get_index_pos_def le24_first last [simplified] Let_def)
  qed
qed

end

end
