(* ===== verification/Run_Search.thy ===== *)
theory Run_Search
  imports Prelude
begin

text \<open>
  The binary search of \<^verbatim>\<open>libunicode.c\<close> over a table of packed runs. \<open>lre_case_conv\<close>,
  \<open>lre_canonicalize\<close>, \<open>lre_is_cased\<close> and \<open>unicode_decomp_char\<close> all contain this loop; they
  differ in how a table word gives the first code point and the length of its run, which are
  the arguments \<open>code\<close> and \<open>len\<close> here. The locale \<open>sorted_runs\<close> states what the code relies on,
  that the runs are in increasing order and do not overlap; the tables interpret it.
\<close>

section \<open>The loop\<close>

function run_search ::
  "(u32 \<Rightarrow> u32) \<Rightarrow> (u32 \<Rightarrow> u32) \<Rightarrow> u32 list \<Rightarrow> u32 \<Rightarrow> int \<Rightarrow> int \<Rightarrow> (nat \<times> u32) option cres"
where
  "run_search code len table c idx_min idx_max =
     (if idx_min \<le> idx_max then
        let idx = (idx_max + idx_min) div 2 in
        cbind (rd table (nat idx)) (\<lambda>v.
          if c < code v then run_search code len table c idx_min (idx - 1)
          else if c \<ge> code v + len v then run_search code len table c (idx + 1) idx_max
          else Inr (Some (nat idx, v)))
      else Inr None)"
  by pat_completeness auto
termination
  by (relation "measure (\<lambda>(_, _, _, _, idx_min, idx_max). nat (idx_max - idx_min + 1))") auto

declare run_search.simps [simp del]

section \<open>Specification\<close>

text \<open>The run of a table word, and the first entry of a table whose run holds \<open>c\<close>.\<close>

definition covers :: "(u32 \<Rightarrow> u32) \<Rightarrow> (u32 \<Rightarrow> u32) \<Rightarrow> u32 \<Rightarrow> u32 \<Rightarrow> bool" where
  "covers code len v c \<longleftrightarrow> code v \<le> c \<and> c < code v + len v"

definition run_lookup :: "(u32 \<Rightarrow> u32) \<Rightarrow> (u32 \<Rightarrow> u32) \<Rightarrow> u32 list \<Rightarrow> u32 \<Rightarrow> (nat \<times> u32) option" where
  "run_lookup code len table c =
     map_option (\<lambda>i. (i, table ! i)) (find (\<lambda>i. covers code len (table ! i) c) [0..<length table])"

lemma run_lookup_SomeD:
  "run_lookup code len table c = Some (i, v) \<Longrightarrow>
     i < length table \<and> v = table ! i \<and> covers code len v c"
  by (auto simp: run_lookup_def find_Some_iff)

lemma run_lookup_None_iff:
  "run_lookup code len table c = None \<longleftrightarrow> (\<forall>v\<in>set table. \<not> covers code len v c)"
  by (auto simp: run_lookup_def find_None_iff all_set_conv_all_nth)

text \<open>Introduction rules that take a table apart entry by entry.\<close>

lemma successively_single_I: "successively P [x]"
  by simp

lemma successively_Cons_Cons_I: "P x y \<Longrightarrow> successively P (y # xs) \<Longrightarrow> successively P (x # y # xs)"
  by simp

locale sorted_runs =
  fixes table :: "u32 list" and code len :: "u32 \<Rightarrow> u32"
  assumes no_wrap: "unat (code v) + unat (len v) < 2 ^ 32"
    and ordered: "successively (\<lambda>v w. code v + len v \<le> code w) table"
begin

lemma code_le_end: "code v \<le> code v + len v"
  using no_wrap [of v] by (simp add: word_le_nat_alt unat_word_ariths)

lemma ordered_nth:
  assumes "i < j" "j < length table"
  shows "code (table ! i) + len (table ! i) \<le> code (table ! j)"
proof -
  have "transp (\<lambda>v w. code v + len v \<le> code w)"
  proof (rule transpI)
    fix v w u
    assume "code v + len v \<le> code w" "code w + len w \<le> code u"
    then show "code v + len v \<le> code u"
      by (meson code_le_end order_trans)
  qed
  with ordered have "sorted_wrt (\<lambda>v w. code v + len v \<le> code w) table"
    by (simp add: successively_conv_sorted_wrt)
  with assms show ?thesis by (simp add: sorted_wrt_iff_nth_less)
qed

lemma below_not_covered:
  assumes "c < code (table ! k)" "k \<le> i" "i < length table"
  shows "\<not> covers code len (table ! i) c"
  using assms ordered_nth [of k i] code_le_end [of "table ! k"]
  by (cases "k = i") (auto simp: covers_def)

lemma above_not_covered:
  assumes "c \<ge> code (table ! k) + len (table ! k)" "i \<le> k" "k < length table"
  shows "\<not> covers code len (table ! i) c"
  using assms ordered_nth [of i k] code_le_end [of "table ! k"]
  by (cases "k = i") (auto simp: covers_def)

lemma covered_unique:
  assumes "covers code len (table ! i) c" "covers code len (table ! j) c"
    and "i < length table" "j < length table"
  shows "i = j"
proof (rule ccontr)
  assume "i \<noteq> j"
  then consider "i < j" | "j < i" by linarith
  then show False
    using assms ordered_nth [of i j] ordered_nth [of j i] by cases (auto simp: covers_def)
qed

lemma search_from:
  assumes "0 \<le> lo" "hi < int (length table)"
  shows "(\<exists>i. run_search code len table c lo hi = Inr (Some (i, table ! i)) \<and>
              i < length table \<and> covers code len (table ! i) c) \<or>
         (run_search code len table c lo hi = Inr None \<and>
              (\<forall>i. lo \<le> int i \<and> int i \<le> hi \<longrightarrow> \<not> covers code len (table ! i) c))"
  using assms
proof (induction "nat (hi - lo + 1)" arbitrary: lo hi rule: less_induct)
  case less
  show ?case
  proof (cases "lo \<le> hi")
    case False
    then show ?thesis by (auto simp: run_search.simps [of code len table c lo hi])
  next
    case True
    define k where "k = nat ((hi + lo) div 2)"
    have k: "int k = (hi + lo) div 2" "lo \<le> int k" "int k \<le> hi"
      using True less.prems by (auto simp: k_def)
    then have kl: "k < length table" using less.prems by linarith
    have step: "run_search code len table c lo hi =
        (if c < code (table ! k) then run_search code len table c lo (int k - 1)
         else if c \<ge> code (table ! k) + len (table ! k) then run_search code len table c (int k + 1) hi
         else Inr (Some (k, table ! k)))"
      using True kl by (simp add: run_search.simps [of code len table c lo hi] flip: k(1))
    consider (lo) "c < code (table ! k)" | (hi) "\<not> c < code (table ! k)" "c \<ge> code (table ! k) + len (table ! k)"
      | (here) "covers code len (table ! k) c"
      unfolding covers_def by (meson not_le)
    then show ?thesis
    proof cases
      case lo
      have "nat (int k - 1 - lo + 1) < nat (hi - lo + 1)" using k by linarith
      from less.hyps [OF this] less.prems k
      have "(\<exists>i. run_search code len table c lo (int k - 1) = Inr (Some (i, table ! i)) \<and>
              i < length table \<and> covers code len (table ! i) c) \<or>
         (run_search code len table c lo (int k - 1) = Inr None \<and>
              (\<forall>i. lo \<le> int i \<and> int i \<le> int k - 1 \<longrightarrow> \<not> covers code len (table ! i) c))"
        by simp
      moreover have "\<not> covers code len (table ! i) c" if "int k \<le> int i" "int i \<le> hi" for i
        using below_not_covered [OF lo, of i] that less.prems by simp
      ultimately show ?thesis using lo step by (auto simp: not_le) (meson not_le)
    next
      case hi
      have "nat (hi - (int k + 1) + 1) < nat (hi - lo + 1)" using k by linarith
      from less.hyps [OF this] less.prems k
      have "(\<exists>i. run_search code len table c (int k + 1) hi = Inr (Some (i, table ! i)) \<and>
              i < length table \<and> covers code len (table ! i) c) \<or>
         (run_search code len table c (int k + 1) hi = Inr None \<and>
              (\<forall>i. int k + 1 \<le> int i \<and> int i \<le> hi \<longrightarrow> \<not> covers code len (table ! i) c))"
        by simp
      moreover have "int k + 1 \<le> int i" if "covers code len (table ! i) c" for i
        using above_not_covered [OF hi(2), of i] that kl by (cases "i \<le> k") auto
      ultimately show ?thesis using hi step by auto
    next
      case here
      then show ?thesis using step kl by (auto simp: covers_def)
    qed
  qed
qed

text \<open>The search over the whole table is the linear lookup, and no access leaves the table.\<close>

lemma search:
  "run_search code len table c 0 (int (length table) - 1) = Inr (run_lookup code len table c)"
proof -
  have "(\<exists>i. run_search code len table c 0 (int (length table) - 1) = Inr (Some (i, table ! i)) \<and>
              i < length table \<and> covers code len (table ! i) c) \<or>
         (run_search code len table c 0 (int (length table) - 1) = Inr None \<and>
              (\<forall>i. 0 \<le> int i \<and> int i \<le> int (length table) - 1 \<longrightarrow> \<not> covers code len (table ! i) c))"
    by (rule search_from) auto
  then show ?thesis
  proof (elim disjE exE conjE)
    fix i
    assume i: "run_search code len table c 0 (int (length table) - 1) = Inr (Some (i, table ! i))"
      "i < length table" "covers code len (table ! i) c"
    then have "run_lookup code len table c \<noteq> None" by (auto simp: run_lookup_None_iff)
    then obtain j v where "run_lookup code len table c = Some (j, v)" by auto
    with run_lookup_SomeD [OF this] covered_unique [of i c j] i show ?thesis by auto
  next
    assume none: "run_search code len table c 0 (int (length table) - 1) = Inr None"
      "\<forall>i. 0 \<le> int i \<and> int i \<le> int (length table) - 1 \<longrightarrow> \<not> covers code len (table ! i) c"
    then have "run_lookup code len table c = None"
      by (auto simp: run_lookup_None_iff in_set_conv_nth)
    with none show ?thesis by simp
  qed
qed

end

end
