(* ===== verification/Case_Conv.thy ===== *)
theory Case_Conv
  imports Case_Tables Run_Search
begin

text \<open>
  Case conversion and regular expression case folding of \<^verbatim>\<open>libunicode.c\<close>, over the tables of
  \<open>Case_Tables\<close>. The array \<open>res\<close> the C functions fill and the count they return are the
  list of the codes written. Every access to the three tables is checked.
\<close>

section \<open>Definitions\<close>

abbreviation (input) RUN_TYPE_U :: u32 where "RUN_TYPE_U \<equiv> 0"
abbreviation (input) RUN_TYPE_L :: u32 where "RUN_TYPE_L \<equiv> 1"
abbreviation (input) RUN_TYPE_UF :: u32 where "RUN_TYPE_UF \<equiv> 2"
abbreviation (input) RUN_TYPE_LF :: u32 where "RUN_TYPE_LF \<equiv> 3"
abbreviation (input) RUN_TYPE_UL :: u32 where "RUN_TYPE_UL \<equiv> 4"
abbreviation (input) RUN_TYPE_LSU :: u32 where "RUN_TYPE_LSU \<equiv> 5"
abbreviation (input) RUN_TYPE_U2L_399_EXT2 :: u32 where "RUN_TYPE_U2L_399_EXT2 \<equiv> 6"
abbreviation (input) RUN_TYPE_UF_D20 :: u32 where "RUN_TYPE_UF_D20 \<equiv> 7"
abbreviation (input) RUN_TYPE_UF_D1_EXT :: u32 where "RUN_TYPE_UF_D1_EXT \<equiv> 8"
abbreviation (input) RUN_TYPE_U_EXT :: u32 where "RUN_TYPE_U_EXT \<equiv> 9"
abbreviation (input) RUN_TYPE_LF_EXT :: u32 where "RUN_TYPE_LF_EXT \<equiv> 10"
abbreviation (input) RUN_TYPE_UF_EXT2 :: u32 where "RUN_TYPE_UF_EXT2 \<equiv> 11"
abbreviation (input) RUN_TYPE_LF_EXT2 :: u32 where "RUN_TYPE_LF_EXT2 \<equiv> 12"
abbreviation (input) RUN_TYPE_UF_EXT3 :: u32 where "RUN_TYPE_UF_EXT3 \<equiv> 13"

definition LRE_CC_RES_LEN_MAX :: nat where
  "LRE_CC_RES_LEN_MAX = 3"

text \<open>The fields of a word of \<open>case_conv_table1\<close>.\<close>

definition case_code :: "u32 \<Rightarrow> u32" where
  "case_code v = drop_bit 15 v"

definition case_len :: "u32 \<Rightarrow> u32" where
  "case_len v = drop_bit 8 v AND 0x7f"

definition case_type :: "u32 \<Rightarrow> u32" where
  "case_type v = drop_bit 4 v AND 0xf"

definition case_find :: "u32 \<Rightarrow> (nat \<times> u32) option cres" where
  "case_find c = run_search case_code case_len case_conv_table1 c 0 (int (length case_conv_table1) - 1)"

abbreviation rd_ext :: "u32 \<Rightarrow> u32 cres" where
  "rd_ext i \<equiv> cbind (rd case_conv_ext (unat i)) (\<lambda>x. Inr (ucast x))"

function lre_case_conv1 :: "u32 \<Rightarrow> int \<Rightarrow> u32 cres"
  and lre_case_conv_entry :: "u32 \<Rightarrow> int \<Rightarrow> nat \<Rightarrow> u32 \<Rightarrow> u32 list cres"
  and lre_case_conv :: "u32 \<Rightarrow> int \<Rightarrow> u32 list cres"
where
  "lre_case_conv1 c conv_type = cbind (lre_case_conv c conv_type) (\<lambda>res. rd res 0)"
| "lre_case_conv_entry c conv_type idx v =
     (let is_lower = (if conv_type \<noteq> 0 then 1 else 0 :: u32); type = case_type v; code = case_code v in
      cbind (rd case_conv_table2 idx) (\<lambda>low.
      let data = push_bit 8 (v AND 0xf) OR ucast low in
      if type = RUN_TYPE_U \<or> type = RUN_TYPE_L \<or> type = RUN_TYPE_UF \<or> type = RUN_TYPE_LF then
        if conv_type = uint (type AND 1) \<or> type \<ge> RUN_TYPE_UF \<and> conv_type = 2 then
          cbind (rd case_conv_table1 (unat data)) (\<lambda>v'. Inr [c - code + drop_bit 15 v'])
        else Inr [c]
      else if type = RUN_TYPE_UL then
        let a = c - code in
        if a AND 1 \<noteq> 1 - is_lower then Inr [c] else Inr [(a XOR 1) + code]
      else if type = RUN_TYPE_LSU then
        let a = c - code in
        if a = 1 then Inr [c + (2 * is_lower - 1)]
        else if a = (1 - is_lower) * 2 then Inr [c + (2 * is_lower - 1) * 2]
        else Inr [c]
      else if type = RUN_TYPE_U2L_399_EXT2 then
        if is_lower = 0 then
          cbind (rd_ext (drop_bit 6 data)) (\<lambda>x. Inr [c - code + x, 0x399])
        else
          cbind (rd_ext (data AND 0x3f)) (\<lambda>x. Inr [c - code + x])
      else if type = RUN_TYPE_UF_D20 then
        if conv_type = 1 then Inr [c]
        else Inr [data + (if conv_type = 2 then 0x20 else 0)]
      else if type = RUN_TYPE_UF_D1_EXT then
        if conv_type = 1 then Inr [c]
        else cbind (rd_ext data) (\<lambda>x. Inr [x + (if conv_type = 2 then 1 else 0)])
      else if type = RUN_TYPE_U_EXT \<or> type = RUN_TYPE_LF_EXT then
        if is_lower \<noteq> type - RUN_TYPE_U_EXT then Inr [c]
        else cbind (rd_ext data) (\<lambda>x. Inr [x])
      else if type = RUN_TYPE_LF_EXT2 then
        if is_lower = 0 then Inr [c]
        else
          cbind (rd_ext (drop_bit 6 data)) (\<lambda>x.
          cbind (rd_ext (data AND 0x3f)) (\<lambda>y. Inr [c - code + x, y]))
      else if type = RUN_TYPE_UF_EXT2 then
        if conv_type = 1 then Inr [c]
        else
          cbind (rd_ext (drop_bit 6 data)) (\<lambda>x.
          cbind (rd_ext (data AND 0x3f)) (\<lambda>y.
          if conv_type = 2 then
            cbind (lre_case_conv1 (c - code + x) 1) (\<lambda>x.
            cbind (lre_case_conv1 y 1) (\<lambda>y. Inr [x, y]))
          else Inr [c - code + x, y]))
      else
        if conv_type = 1 then Inr [c]
        else
          cbind (rd_ext (drop_bit 8 data)) (\<lambda>x.
          cbind (rd_ext (drop_bit 4 data AND 0xf)) (\<lambda>y.
          cbind (rd_ext (data AND 0xf)) (\<lambda>z.
          if conv_type = 2 then
            cbind (lre_case_conv1 x 1) (\<lambda>x.
            cbind (lre_case_conv1 y 1) (\<lambda>y.
            cbind (lre_case_conv1 z 1) (\<lambda>z. Inr [x, y, z])))
          else Inr [x, y, z])))))"
| "lre_case_conv c conv_type =
     (if c < 128 then
        if conv_type \<noteq> 0 then
          if c \<ge> 0x41 \<and> c \<le> 0x5a then Inr [c - 0x41 + 0x61] else Inr [c]
        else
          if c \<ge> 0x61 \<and> c \<le> 0x7a then Inr [c - 0x61 + 0x41] else Inr [c]
      else
        cbind (case_find c) (\<lambda>r. case r of
          Some (idx, v) \<Rightarrow> lre_case_conv_entry c conv_type idx v
        | None \<Rightarrow> Inr [c]))"
  by pat_completeness auto
termination
  by (relation "measure (\<lambda>x. case x of
        Inl (c, t) \<Rightarrow> (if t = 2 then 3 else 0) + 2
      | Inr (Inl (c, t, idx, v)) \<Rightarrow> (if t = 2 then 3 else 0)
      | Inr (Inr (c, t)) \<Rightarrow> (if t = 2 then 3 else 0) + 1)") auto

declare lre_case_conv1.simps [simp del] lre_case_conv_entry.simps [simp del] lre_case_conv.simps [simp del]

definition lre_case_folding_entry :: "u32 \<Rightarrow> nat \<Rightarrow> u32 \<Rightarrow> bool \<Rightarrow> u32 cres" where
  "lre_case_folding_entry c idx v is_unicode =
     (if is_unicode then
        cbind (lre_case_conv_entry c 2 idx v) (\<lambda>res.
        if length res = 1 then rd res 0
        else if c = 0xfb06 then Inr 0xfb05
        else if c = 0x01fd3 then Inr 0x390
        else if c = 0x01fe3 then Inr 0x3b0
        else Inr c)
      else if c < 128 then
        if c \<ge> 0x61 \<and> c \<le> 0x7a then Inr (c - 0x61 + 0x41) else Inr c
      else
        cbind (lre_case_conv_entry c 0 idx v) (\<lambda>res.
        if length res = 1 then
          cbind (rd res 0) (\<lambda>r. if r \<ge> 128 then Inr r else Inr c)
        else Inr c))"

definition lre_canonicalize :: "u32 \<Rightarrow> bool \<Rightarrow> u32 cres" where
  "lre_canonicalize c is_unicode =
     (if c < 128 then
        if is_unicode then
          if c \<ge> 0x41 \<and> c \<le> 0x5a then Inr (c - 0x41 + 0x61) else Inr c
        else
          if c \<ge> 0x61 \<and> c \<le> 0x7a then Inr (c - 0x61 + 0x41) else Inr c
      else
        cbind (case_find c) (\<lambda>r. case r of
          Some (idx, v) \<Rightarrow> lre_case_folding_entry c idx v is_unicode
        | None \<Rightarrow> Inr c))"

section \<open>The tables\<close>

lemma length_case_conv_table1: "length case_conv_table1 = 370"
  by (simp add: case_conv_table1_def case_conv_table1_0_def case_conv_table1_1_def
      case_conv_table1_2_def case_conv_table1_3_def)

lemma length_case_conv_table2: "length case_conv_table2 = 370"
  by (simp add: case_conv_table2_def case_conv_table2_0_def case_conv_table2_1_def
      case_conv_table2_2_def case_conv_table2_3_def)

lemma length_case_conv_ext: "length case_conv_ext = 58"
  by (simp add: case_conv_ext_def)

lemmas case_conv_table1_defs = case_conv_table1_def case_conv_table1_0_def case_conv_table1_1_def
  case_conv_table1_2_def case_conv_table1_3_def concat.simps append.simps append_Nil2

lemmas case_conv_table2_defs = case_conv_table2_def case_conv_table2_0_def case_conv_table2_1_def
  case_conv_table2_2_def case_conv_table2_3_def concat.simps append.simps append_Nil2

lemma case_runs_ordered:
  "successively (\<lambda>v w. case_code v + case_len v \<le> case_code w) case_conv_table1"
  unfolding case_conv_table1_defs
  by (intro successively_Cons_Cons_I successively_single_I; simp add: case_code_def case_len_def)

lemma case_no_wrap: "unat (case_code v) + unat (case_len v) < 2 ^ 32"
proof -
  have "unat (case_code v) < 2 ^ 17"
    unfolding case_code_def unat_shr using u32_unat_lt [of v] by (simp add: less_mult_imp_div_less)
  moreover have "case_len v \<le> 0x7f"
    unfolding case_len_def by (rule word_and_le1)
  then have "unat (case_len v) \<le> 127"
    by (simp add: word_le_nat_alt)
  ultimately show ?thesis by simp
qed

interpretation case_runs: sorted_runs case_conv_table1 case_code case_len
  by unfold_locales (simp_all only: case_no_wrap case_runs_ordered)

text \<open>Every entry refers to cells that exist.\<close>

definition entry_ok :: "u32 \<Rightarrow> u8 \<Rightarrow> bool" where
  "entry_ok v low =
     (let type = case_type v; data = push_bit 8 (v AND 0xf) OR ucast low :: u32 in
      if type < 4 then data < 370
      else if type = 6 \<or> type = 11 \<or> type = 12 then drop_bit 6 data < 58 \<and> data AND 0x3f < 58
      else if type = 8 \<or> type = 9 \<or> type = 10 then data < 58
      else True)"

lemma entries_ok: "list_all2 entry_ok case_conv_table1 case_conv_table2"
  unfolding case_conv_table1_defs case_conv_table2_defs
  by (intro list.rel_intros; simp add: entry_ok_def case_type_def)

end
