(* ===== verification/Gc_Tables.thy ===== *)
theory Gc_Tables
  imports Prelude
begin

text \<open>
  The general category and script tables of \<^verbatim>\<open>libunicode-table.h\<close>, transcribed row by row.
\<close>

definition unicode_gc_table_0 :: "u8 list" where
  "unicode_gc_table_0 = [
    0xfa, 0x18, 0x17, 0x56, 0x0d, 0x56, 0x12, 0x13,
    0x16, 0x0c, 0x16, 0x11, 0x36, 0xe9, 0x02, 0x36,
    0x4c, 0x36, 0xe1, 0x12, 0x12, 0x16, 0x13, 0x0e,
    0x10, 0x0e, 0xe2, 0x12, 0x12, 0x0c, 0x13, 0x0c,
    0xfa, 0x19, 0x17, 0x16, 0x6d, 0x0f, 0x16, 0x0e,
    0x0f, 0x05, 0x14, 0x0c, 0x1b, 0x0f, 0x0e, 0x0f,
    0x0c, 0x2b, 0x0e, 0x02, 0x36, 0x0e, 0x0b, 0x05,
    0x15, 0x4b, 0x16, 0xe1, 0x0f, 0x0c, 0xc1, 0xe2,
    0x10, 0x0c, 0xe2, 0x00, 0xff, 0x30, 0x02, 0xff,
    0x08, 0x02, 0xff, 0x27, 0xbf, 0x22, 0x21, 0x02,
    0x5f, 0x5f, 0x21, 0x22, 0x61, 0x02, 0x21, 0x02,
    0x41, 0x42, 0x21, 0x02, 0x21, 0x02, 0x9f, 0x7f,
    0x02, 0x5f, 0x5f, 0x21, 0x02, 0x5f, 0x3f, 0x02,
    0x05, 0x3f, 0x22, 0x65, 0x01, 0x03, 0x02, 0x01,
    0x03, 0x02, 0x01, 0x03, 0x02, 0xff, 0x08, 0x02,
    0xff, 0x0a, 0x02, 0x01, 0x03, 0x02, 0x5f, 0x21]"

definition unicode_gc_table_1 :: "u8 list" where
  "unicode_gc_table_1 = [
    0x02, 0xff, 0x32, 0xa2, 0x21, 0x02, 0x21, 0x22,
    0x5f, 0x41, 0x02, 0xff, 0x00, 0xe2, 0x3c, 0x05,
    0xe2, 0x13, 0xe4, 0x0a, 0x6e, 0xe4, 0x04, 0xee,
    0x06, 0x84, 0xce, 0x04, 0x0e, 0x04, 0xee, 0x09,
    0xe6, 0x68, 0x7f, 0x04, 0x0e, 0x3f, 0x20, 0x04,
    0x42, 0x16, 0x01, 0x60, 0x2e, 0x01, 0x16, 0x41,
    0x00, 0x01, 0x00, 0x21, 0x02, 0xe1, 0x09, 0x00,
    0xe1, 0x01, 0xe2, 0x1b, 0x3f, 0x02, 0x41, 0x42,
    0xff, 0x10, 0x62, 0x3f, 0x0c, 0x5f, 0x3f, 0x02,
    0xe1, 0x2b, 0xe2, 0x28, 0xff, 0x1a, 0x0f, 0x86,
    0x28, 0xff, 0x2f, 0xff, 0x06, 0x02, 0xff, 0x58,
    0x00, 0xe1, 0x1e, 0x20, 0x04, 0xb6, 0xe2, 0x21,
    0x16, 0x11, 0x20, 0x2f, 0x0d, 0x00, 0xe6, 0x25,
    0x11, 0x06, 0x16, 0x26, 0x16, 0x26, 0x16, 0x06,
    0xe0, 0x00, 0xe5, 0x13, 0x60, 0x65, 0x36, 0xe0,
    0x03, 0xbb, 0x4c, 0x36, 0x0d, 0x36, 0x2f, 0xe6]"

definition unicode_gc_table_2 :: "u8 list" where
  "unicode_gc_table_2 = [
    0x03, 0x16, 0x1b, 0x56, 0xe5, 0x18, 0x04, 0xe5,
    0x02, 0xe6, 0x0d, 0xe9, 0x02, 0x76, 0x25, 0x06,
    0xe5, 0x5b, 0x16, 0x05, 0xc6, 0x1b, 0x0f, 0xa6,
    0x24, 0x26, 0x0f, 0x66, 0x25, 0xe9, 0x02, 0x45,
    0x2f, 0x05, 0xf6, 0x06, 0x00, 0x1b, 0x05, 0x06,
    0xe5, 0x16, 0xe6, 0x13, 0x20, 0xe5, 0x51, 0xe6,
    0x03, 0x05, 0xe0, 0x06, 0xe9, 0x02, 0xe5, 0x19,
    0xe6, 0x01, 0x24, 0x0f, 0x56, 0x04, 0x20, 0x06,
    0x2d, 0xe5, 0x0e, 0x66, 0x04, 0xe6, 0x01, 0x04,
    0x46, 0x04, 0x86, 0x20, 0xf6, 0x07, 0x00, 0xe5,
    0x11, 0x46, 0x20, 0x16, 0x00, 0xe5, 0x03, 0x80,
    0xe5, 0x10, 0x0e, 0xa5, 0x00, 0x3b, 0xa0, 0xe6,
    0x00, 0xe5, 0x21, 0x04, 0xe6, 0x10, 0x1b, 0xe6,
    0x18, 0x07, 0xe5, 0x2e, 0x06, 0x07, 0x06, 0x05,
    0x47, 0xe6, 0x00, 0x67, 0x06, 0x27, 0x05, 0xc6,
    0xe5, 0x02, 0x26, 0x36, 0xe9, 0x02, 0x16, 0x04]"

definition unicode_gc_table_3 :: "u8 list" where
  "unicode_gc_table_3 = [
    0xe5, 0x07, 0x06, 0x27, 0x00, 0xe5, 0x00, 0x20,
    0x25, 0x20, 0xe5, 0x0e, 0x00, 0xc5, 0x00, 0x05,
    0x40, 0x65, 0x20, 0x06, 0x05, 0x47, 0x66, 0x20,
    0x27, 0x20, 0x27, 0x06, 0x05, 0xe0, 0x00, 0x07,
    0x60, 0x25, 0x00, 0x45, 0x26, 0x20, 0xe9, 0x02,
    0x25, 0x2d, 0xab, 0x0f, 0x0d, 0x05, 0x16, 0x06,
    0x20, 0x26, 0x07, 0x00, 0xa5, 0x60, 0x25, 0x20,
    0xe5, 0x0e, 0x00, 0xc5, 0x00, 0x25, 0x00, 0x25,
    0x00, 0x25, 0x20, 0x06, 0x00, 0x47, 0x26, 0x60,
    0x26, 0x20, 0x46, 0x40, 0x06, 0xc0, 0x65, 0x00,
    0x05, 0xc0, 0xe9, 0x02, 0x26, 0x45, 0x06, 0x16,
    0xe0, 0x02, 0x26, 0x07, 0x00, 0xe5, 0x01, 0x00,
    0x45, 0x00, 0xe5, 0x0e, 0x00, 0xc5, 0x00, 0x25,
    0x00, 0x85, 0x20, 0x06, 0x05, 0x47, 0x86, 0x00,
    0x26, 0x07, 0x00, 0x27, 0x06, 0x20, 0x05, 0xe0,
    0x07, 0x25, 0x26, 0x20, 0xe9, 0x02, 0x16, 0x0d]"

definition unicode_gc_table_4 :: "u8 list" where
  "unicode_gc_table_4 = [
    0xc0, 0x05, 0xa6, 0x00, 0x06, 0x27, 0x00, 0xe5,
    0x00, 0x20, 0x25, 0x20, 0xe5, 0x0e, 0x00, 0xc5,
    0x00, 0x25, 0x00, 0x85, 0x20, 0x06, 0x05, 0x07,
    0x06, 0x07, 0x66, 0x20, 0x27, 0x20, 0x27, 0x06,
    0xc0, 0x26, 0x07, 0x60, 0x25, 0x00, 0x45, 0x26,
    0x20, 0xe9, 0x02, 0x0f, 0x05, 0xab, 0xe0, 0x02,
    0x06, 0x05, 0x00, 0xa5, 0x40, 0x45, 0x00, 0x65,
    0x40, 0x25, 0x00, 0x05, 0x00, 0x25, 0x40, 0x25,
    0x40, 0x45, 0x40, 0xe5, 0x04, 0x60, 0x27, 0x06,
    0x27, 0x40, 0x47, 0x00, 0x47, 0x06, 0x20, 0x05,
    0xa0, 0x07, 0xe0, 0x06, 0xe9, 0x02, 0x4b, 0xaf,
    0x0d, 0x0f, 0x80, 0x06, 0x47, 0x06, 0xe5, 0x00,
    0x00, 0x45, 0x00, 0xe5, 0x0f, 0x00, 0xe5, 0x08,
    0x20, 0x06, 0x05, 0x46, 0x67, 0x00, 0x46, 0x00,
    0x66, 0xc0, 0x26, 0x00, 0x45, 0x20, 0x05, 0x20,
    0x25, 0x26, 0x20, 0xe9, 0x02, 0xc0, 0x16, 0xcb]"

definition unicode_gc_table_5 :: "u8 list" where
  "unicode_gc_table_5 = [
    0x0f, 0x05, 0x06, 0x27, 0x16, 0xe5, 0x00, 0x00,
    0x45, 0x00, 0xe5, 0x0f, 0x00, 0xe5, 0x02, 0x00,
    0x85, 0x20, 0x06, 0x05, 0x07, 0x06, 0x87, 0x00,
    0x06, 0x27, 0x00, 0x27, 0x26, 0xc0, 0x27, 0xa0,
    0x25, 0x00, 0x25, 0x26, 0x20, 0xe9, 0x02, 0x00,
    0x25, 0x07, 0xe0, 0x04, 0x26, 0x27, 0xe5, 0x01,
    0x00, 0x45, 0x00, 0xe5, 0x21, 0x26, 0x05, 0x47,
    0x66, 0x00, 0x47, 0x00, 0x47, 0x06, 0x05, 0x0f,
    0x60, 0x45, 0x07, 0xcb, 0x45, 0x26, 0x20, 0xe9,
    0x02, 0xeb, 0x01, 0x0f, 0xa5, 0x00, 0x06, 0x27,
    0x00, 0xe5, 0x0a, 0x40, 0xe5, 0x10, 0x00, 0xe5,
    0x01, 0x00, 0x05, 0x20, 0xc5, 0x40, 0x06, 0x60,
    0x47, 0x46, 0x00, 0x06, 0x00, 0xe7, 0x00, 0xa0,
    0xe9, 0x02, 0x20, 0x27, 0x16, 0xe0, 0x04, 0xe5,
    0x28, 0x06, 0x25, 0xc6, 0x60, 0x0d, 0xa5, 0x04,
    0xe6, 0x00, 0x16, 0xe9, 0x02, 0x36, 0xe0, 0x1d]"

definition unicode_gc_table_6 :: "u8 list" where
  "unicode_gc_table_6 = [
    0x25, 0x00, 0x05, 0x00, 0x85, 0x00, 0xe5, 0x10,
    0x00, 0x05, 0x00, 0xe5, 0x02, 0x06, 0x25, 0xe6,
    0x01, 0x05, 0x20, 0x85, 0x00, 0x04, 0x00, 0xc6,
    0x00, 0xe9, 0x02, 0x20, 0x65, 0xe0, 0x18, 0x05,
    0x4f, 0xf6, 0x07, 0x0f, 0x16, 0x4f, 0x26, 0xaf,
    0xe9, 0x02, 0xeb, 0x02, 0x0f, 0x06, 0x0f, 0x06,
    0x0f, 0x06, 0x12, 0x13, 0x12, 0x13, 0x27, 0xe5,
    0x00, 0x00, 0xe5, 0x1c, 0x60, 0xe6, 0x06, 0x07,
    0x86, 0x16, 0x26, 0x85, 0xe6, 0x03, 0x00, 0xe6,
    0x1c, 0x00, 0xef, 0x00, 0x06, 0xaf, 0x00, 0x2f,
    0x96, 0x6f, 0x36, 0xe0, 0x1d, 0xe5, 0x23, 0x27,
    0x66, 0x07, 0xa6, 0x07, 0x26, 0x27, 0x26, 0x05,
    0xe9, 0x02, 0xb6, 0xa5, 0x27, 0x26, 0x65, 0x46,
    0x05, 0x47, 0x25, 0xc7, 0x45, 0x66, 0xe5, 0x05,
    0x06, 0x27, 0x26, 0xa7, 0x06, 0x05, 0x07, 0xe9,
    0x02, 0x47, 0x06, 0x2f, 0xe1, 0x1e, 0x00, 0x01]"

definition unicode_gc_table_7 :: "u8 list" where
  "unicode_gc_table_7 = [
    0x80, 0x01, 0x20, 0xe2, 0x23, 0x16, 0x04, 0x42,
    0xe5, 0x80, 0xc1, 0x00, 0x65, 0x20, 0xc5, 0x00,
    0x05, 0x00, 0x65, 0x20, 0xe5, 0x21, 0x00, 0x65,
    0x20, 0xe5, 0x19, 0x00, 0x65, 0x20, 0xc5, 0x00,
    0x05, 0x00, 0x65, 0x20, 0xe5, 0x07, 0x00, 0xe5,
    0x31, 0x00, 0x65, 0x20, 0xe5, 0x3b, 0x20, 0x46,
    0xf6, 0x01, 0xeb, 0x0c, 0x40, 0xe5, 0x08, 0xef,
    0x02, 0xa0, 0xe1, 0x4e, 0x20, 0xa2, 0x20, 0x11,
    0xe5, 0x81, 0xe4, 0x0f, 0x16, 0xe5, 0x09, 0x17,
    0xe5, 0x12, 0x12, 0x13, 0x40, 0xe5, 0x43, 0x56,
    0x4a, 0xe5, 0x00, 0xc0, 0xe5, 0x0a, 0x46, 0x07,
    0xe0, 0x01, 0xe5, 0x0b, 0x26, 0x07, 0x36, 0xe0,
    0x01, 0xe5, 0x0a, 0x26, 0xe0, 0x04, 0xe5, 0x05,
    0x00, 0x45, 0x00, 0x26, 0xe0, 0x04, 0xe5, 0x2c,
    0x26, 0x07, 0xc6, 0xe7, 0x00, 0x06, 0x27, 0xe6,
    0x03, 0x56, 0x04, 0x56, 0x0d, 0x05, 0x06, 0x20]"

definition unicode_gc_table_8 :: "u8 list" where
  "unicode_gc_table_8 = [
    0xe9, 0x02, 0xa0, 0xeb, 0x02, 0xa0, 0xb6, 0x11,
    0x76, 0x46, 0x1b, 0x06, 0xe9, 0x02, 0xa0, 0xe5,
    0x1b, 0x04, 0xe5, 0x2d, 0xc0, 0x85, 0x26, 0xe5,
    0x1a, 0x06, 0x05, 0x80, 0xe5, 0x3e, 0xe0, 0x02,
    0xe5, 0x17, 0x00, 0x46, 0x67, 0x26, 0x47, 0x60,
    0x27, 0x06, 0xa7, 0x46, 0x60, 0x0f, 0x40, 0x36,
    0xe9, 0x02, 0xe5, 0x16, 0x20, 0x85, 0xe0, 0x03,
    0xe5, 0x24, 0x60, 0xe5, 0x12, 0xa0, 0xe9, 0x02,
    0x0b, 0x40, 0xef, 0x1a, 0xe5, 0x0f, 0x26, 0x27,
    0x06, 0x20, 0x36, 0xe5, 0x2d, 0x07, 0x06, 0x07,
    0xc6, 0x00, 0x06, 0x07, 0x06, 0x27, 0xe6, 0x00,
    0xa7, 0xe6, 0x02, 0x20, 0x06, 0xe9, 0x02, 0xa0,
    0xe9, 0x02, 0xa0, 0xd6, 0x04, 0xb6, 0x20, 0xe6,
    0x06, 0x08, 0xe6, 0x08, 0xe0, 0x29, 0x66, 0x07,
    0xe5, 0x27, 0x06, 0x07, 0x86, 0x07, 0x06, 0x87,
    0x06, 0x27, 0xe5, 0x00, 0x40, 0xe9, 0x02, 0xd6]"

definition unicode_gc_table_9 :: "u8 list" where
  "unicode_gc_table_9 = [
    0xef, 0x02, 0xe6, 0x01, 0xef, 0x01, 0x36, 0x00,
    0x26, 0x07, 0xe5, 0x16, 0x07, 0x66, 0x27, 0x26,
    0x07, 0x46, 0x25, 0xe9, 0x02, 0xe5, 0x24, 0x06,
    0x07, 0x26, 0x47, 0x06, 0x07, 0x46, 0x27, 0xe0,
    0x00, 0x76, 0xe5, 0x1c, 0xe7, 0x00, 0xe6, 0x00,
    0x27, 0x26, 0x40, 0x96, 0xe9, 0x02, 0x40, 0x45,
    0xe9, 0x02, 0xe5, 0x16, 0xa4, 0x36, 0xe2, 0x01,
    0xc0, 0xe1, 0x23, 0x20, 0x41, 0xf6, 0x00, 0xe0,
    0x00, 0x46, 0x16, 0xe6, 0x05, 0x07, 0xc6, 0x65,
    0x06, 0xa5, 0x06, 0x25, 0x07, 0x26, 0x05, 0x80,
    0xe2, 0x24, 0xe4, 0x37, 0xe2, 0x05, 0x04, 0xe2,
    0x1a, 0xe4, 0x1d, 0xe6, 0x38, 0xff, 0x80, 0x0e,
    0xe2, 0x00, 0xff, 0x5a, 0xe2, 0x00, 0xe1, 0x00,
    0xa2, 0x20, 0xa1, 0x20, 0xe2, 0x00, 0xe1, 0x00,
    0xe2, 0x00, 0xe1, 0x00, 0xa2, 0x20, 0xa1, 0x20,
    0xe2, 0x00, 0x00, 0x01, 0x00, 0x01, 0x00, 0x01]"

definition unicode_gc_table_10 :: "u8 list" where
  "unicode_gc_table_10 = [
    0x00, 0x3f, 0xc2, 0xe1, 0x00, 0xe2, 0x06, 0x20,
    0xe2, 0x00, 0xe3, 0x00, 0xe2, 0x00, 0xe3, 0x00,
    0xe2, 0x00, 0xe3, 0x00, 0x82, 0x00, 0x22, 0x61,
    0x03, 0x0e, 0x02, 0x4e, 0x42, 0x00, 0x22, 0x61,
    0x03, 0x4e, 0x62, 0x20, 0x22, 0x61, 0x00, 0x4e,
    0xe2, 0x00, 0x81, 0x4e, 0x20, 0x42, 0x00, 0x22,
    0x61, 0x03, 0x2e, 0x00, 0xf7, 0x03, 0x9b, 0xb1,
    0x36, 0x14, 0x15, 0x12, 0x34, 0x15, 0x12, 0x14,
    0xf6, 0x00, 0x18, 0x19, 0x9b, 0x17, 0xf6, 0x01,
    0x14, 0x15, 0x76, 0x30, 0x56, 0x0c, 0x12, 0x13,
    0xf6, 0x03, 0x0c, 0x16, 0x10, 0xf6, 0x02, 0x17,
    0x9b, 0x00, 0xfb, 0x02, 0x0b, 0x04, 0x20, 0xab,
    0x4c, 0x12, 0x13, 0x04, 0xeb, 0x02, 0x4c, 0x12,
    0x13, 0x00, 0xe4, 0x05, 0x40, 0xed, 0x19, 0xe0,
    0x07, 0xe6, 0x05, 0x68, 0x06, 0x48, 0xe6, 0x04,
    0xe0, 0x07, 0x2f, 0x01, 0x6f, 0x01, 0x2f, 0x02]"

definition unicode_gc_table_11 :: "u8 list" where
  "unicode_gc_table_11 = [
    0x41, 0x22, 0x41, 0x02, 0x0f, 0x01, 0x2f, 0x0c,
    0x81, 0xaf, 0x01, 0x0f, 0x01, 0x0f, 0x01, 0x0f,
    0x61, 0x0f, 0x02, 0x61, 0x02, 0x65, 0x02, 0x2f,
    0x22, 0x21, 0x8c, 0x3f, 0x42, 0x0f, 0x0c, 0x2f,
    0x02, 0x0f, 0xeb, 0x08, 0xea, 0x1b, 0x3f, 0x6a,
    0x0b, 0x2f, 0x60, 0x8c, 0x8f, 0x2c, 0x6f, 0x0c,
    0x2f, 0x0c, 0x2f, 0x0c, 0xcf, 0x0c, 0xef, 0x17,
    0x2c, 0x2f, 0x0c, 0x0f, 0x0c, 0xef, 0x17, 0xec,
    0x80, 0x84, 0xef, 0x00, 0x12, 0x13, 0x12, 0x13,
    0xef, 0x0c, 0x2c, 0xcf, 0x12, 0x13, 0xef, 0x49,
    0x0c, 0xef, 0x16, 0xec, 0x11, 0xef, 0x20, 0xac,
    0xef, 0x3d, 0xe0, 0x11, 0xef, 0x03, 0xe0, 0x0d,
    0xeb, 0x34, 0xef, 0x46, 0xeb, 0x0e, 0xef, 0x80,
    0x2f, 0x0c, 0xef, 0x01, 0x0c, 0xef, 0x2e, 0xec,
    0x00, 0xef, 0x67, 0x0c, 0xef, 0x80, 0x70, 0x12,
    0x13, 0x12, 0x13, 0x12, 0x13, 0x12, 0x13, 0x12]"

definition unicode_gc_table_12 :: "u8 list" where
  "unicode_gc_table_12 = [
    0x13, 0x12, 0x13, 0x12, 0x13, 0xeb, 0x16, 0xef,
    0x24, 0x8c, 0x12, 0x13, 0xec, 0x17, 0x12, 0x13,
    0x12, 0x13, 0x12, 0x13, 0x12, 0x13, 0x12, 0x13,
    0xec, 0x08, 0xef, 0x80, 0x78, 0xec, 0x7b, 0x12,
    0x13, 0x12, 0x13, 0x12, 0x13, 0x12, 0x13, 0x12,
    0x13, 0x12, 0x13, 0x12, 0x13, 0x12, 0x13, 0x12,
    0x13, 0x12, 0x13, 0x12, 0x13, 0xec, 0x37, 0x12,
    0x13, 0x12, 0x13, 0xec, 0x18, 0x12, 0x13, 0xec,
    0x80, 0x7a, 0xef, 0x28, 0xec, 0x0d, 0x2f, 0xac,
    0xef, 0x1f, 0x20, 0xef, 0x18, 0x00, 0xef, 0x61,
    0xe1, 0x28, 0xe2, 0x28, 0x5f, 0x21, 0x22, 0xdf,
    0x41, 0x02, 0x3f, 0x02, 0x3f, 0x82, 0x24, 0x41,
    0x02, 0xff, 0x5a, 0x02, 0xaf, 0x7f, 0x46, 0x3f,
    0x80, 0x76, 0x0b, 0x36, 0xe2, 0x1e, 0x00, 0x02,
    0x80, 0x02, 0x20, 0xe5, 0x30, 0xc0, 0x04, 0x16,
    0xe0, 0x06, 0x06, 0xe5, 0x0f, 0xe0, 0x01, 0xc5]"

definition unicode_gc_table_13 :: "u8 list" where
  "unicode_gc_table_13 = [
    0x00, 0xc5, 0x00, 0xc5, 0x00, 0xc5, 0x00, 0xc5,
    0x00, 0xc5, 0x00, 0xc5, 0x00, 0xc5, 0x00, 0xe6,
    0x18, 0x36, 0x14, 0x15, 0x14, 0x15, 0x56, 0x14,
    0x15, 0x16, 0x14, 0x15, 0xf6, 0x01, 0x11, 0x36,
    0x11, 0x16, 0x14, 0x15, 0x36, 0x14, 0x15, 0x12,
    0x13, 0x12, 0x13, 0x12, 0x13, 0x12, 0x13, 0x96,
    0x04, 0xf6, 0x02, 0x31, 0x76, 0x11, 0x16, 0x12,
    0xf6, 0x05, 0x2f, 0x56, 0x12, 0x13, 0x12, 0x13,
    0x12, 0x13, 0x12, 0x13, 0x11, 0xe0, 0x1a, 0xef,
    0x12, 0x00, 0xef, 0x51, 0xe0, 0x04, 0xef, 0x80,
    0x4e, 0xe0, 0x12, 0xef, 0x04, 0x60, 0x17, 0x56,
    0x0f, 0x04, 0x05, 0x0a, 0x12, 0x13, 0x12, 0x13,
    0x12, 0x13, 0x12, 0x13, 0x12, 0x13, 0x2f, 0x12,
    0x13, 0x12, 0x13, 0x12, 0x13, 0x12, 0x13, 0x11,
    0x12, 0x33, 0x0f, 0xea, 0x01, 0x66, 0x27, 0x11,
    0x84, 0x2f, 0x4a, 0x04, 0x05, 0x16, 0x2f, 0x00]"

definition unicode_gc_table_14 :: "u8 list" where
  "unicode_gc_table_14 = [
    0xe5, 0x4e, 0x20, 0x26, 0x2e, 0x24, 0x05, 0x11,
    0xe5, 0x52, 0x16, 0x44, 0x05, 0x80, 0xe5, 0x23,
    0x00, 0xe5, 0x56, 0x00, 0x2f, 0x6b, 0xef, 0x02,
    0xe5, 0x18, 0xef, 0x1c, 0xe0, 0x04, 0xe5, 0x08,
    0xef, 0x17, 0x00, 0xeb, 0x02, 0xef, 0x16, 0xeb,
    0x00, 0x0f, 0xeb, 0x07, 0xef, 0x18, 0xeb, 0x02,
    0xef, 0x1f, 0xeb, 0x07, 0xef, 0x80, 0xb8, 0xe5,
    0x99, 0x38, 0xef, 0x38, 0xe5, 0xc0, 0x11, 0x8d,
    0x04, 0xe5, 0x83, 0xef, 0x40, 0xef, 0x2f, 0xe0,
    0x01, 0xe5, 0x20, 0xa4, 0x36, 0xe5, 0x80, 0x84,
    0x04, 0x56, 0xe5, 0x08, 0xe9, 0x02, 0x25, 0xe0,
    0x0c, 0xff, 0x26, 0x05, 0x06, 0x48, 0x16, 0xe6,
    0x02, 0x16, 0x04, 0xff, 0x14, 0x24, 0x26, 0xe5,
    0x3e, 0xea, 0x02, 0x26, 0xb6, 0xe0, 0x00, 0xee,
    0x0f, 0xe4, 0x01, 0x2e, 0xff, 0x06, 0x22, 0xff,
    0x36, 0x04, 0xe2, 0x00, 0x9f, 0xff, 0x02, 0x04]"

definition unicode_gc_table_15 :: "u8 list" where
  "unicode_gc_table_15 = [
    0x2e, 0x7f, 0x05, 0x7f, 0x22, 0xff, 0x0d, 0x61,
    0x02, 0x81, 0x02, 0xff, 0x07, 0x41, 0x02, 0x3f,
    0x80, 0x3f, 0x00, 0x02, 0x00, 0x02, 0x7f, 0xe0,
    0x10, 0x44, 0x3f, 0x05, 0x24, 0x02, 0xc5, 0x06,
    0x45, 0x06, 0x65, 0x06, 0xe5, 0x0f, 0x27, 0x26,
    0x07, 0x6f, 0x06, 0x40, 0xab, 0x2f, 0x0d, 0x0f,
    0xa0, 0xe5, 0x2c, 0x76, 0xe0, 0x00, 0x27, 0xe5,
    0x2a, 0xe7, 0x08, 0x26, 0xe0, 0x00, 0x36, 0xe9,
    0x02, 0xa0, 0xe6, 0x0a, 0xa5, 0x56, 0x05, 0x16,
    0x25, 0x06, 0xe9, 0x02, 0xe5, 0x14, 0xe6, 0x00,
    0x36, 0xe5, 0x0f, 0xe6, 0x03, 0x27, 0xe0, 0x03,
    0x16, 0xe5, 0x15, 0x40, 0x46, 0x07, 0xe5, 0x27,
    0x06, 0x27, 0x66, 0x27, 0x26, 0x47, 0xf6, 0x05,
    0x00, 0x04, 0xe9, 0x02, 0x60, 0x36, 0x85, 0x06,
    0x04, 0xe5, 0x01, 0xe9, 0x02, 0x85, 0x00, 0xe5,
    0x21, 0xa6, 0x27, 0x26, 0x27, 0x26, 0xe0, 0x01]"

definition unicode_gc_table_16 :: "u8 list" where
  "unicode_gc_table_16 = [
    0x45, 0x06, 0xe5, 0x00, 0x06, 0x07, 0x20, 0xe9,
    0x02, 0x20, 0x76, 0xe5, 0x08, 0x04, 0xa5, 0x4f,
    0x05, 0x07, 0x06, 0x07, 0xe5, 0x2a, 0x06, 0x05,
    0x46, 0x25, 0x26, 0x85, 0x26, 0x05, 0x06, 0x05,
    0xe0, 0x10, 0x25, 0x04, 0x36, 0xe5, 0x03, 0x07,
    0x26, 0x27, 0x36, 0x05, 0x24, 0x07, 0x06, 0xe0,
    0x02, 0xa5, 0x20, 0xa5, 0x20, 0xa5, 0xe0, 0x01,
    0xc5, 0x00, 0xc5, 0x00, 0xe2, 0x23, 0x0e, 0x64,
    0xe2, 0x01, 0x04, 0x2e, 0x60, 0xe2, 0x48, 0xe5,
    0x1b, 0x27, 0x06, 0x27, 0x06, 0x27, 0x16, 0x07,
    0x06, 0x20, 0xe9, 0x02, 0xa0, 0xe5, 0xab, 0x1c,
    0xe0, 0x04, 0xe5, 0x0f, 0x60, 0xe5, 0x29, 0x60,
    0xfc, 0x87, 0x78, 0xfd, 0x98, 0x78, 0xe5, 0x80,
    0xe6, 0x20, 0xe5, 0x62, 0xe0, 0x1e, 0xc2, 0xe0,
    0x04, 0x82, 0x80, 0x05, 0x06, 0xe5, 0x02, 0x0c,
    0xe5, 0x05, 0x00, 0x85, 0x00, 0x05, 0x00, 0x25]"

definition unicode_gc_table_17 :: "u8 list" where
  "unicode_gc_table_17 = [
    0x00, 0x25, 0x00, 0xe5, 0x64, 0xee, 0x09, 0xe0,
    0x08, 0xe5, 0x80, 0xe3, 0x13, 0x12, 0xef, 0x08,
    0xe5, 0x38, 0x20, 0xe5, 0x2e, 0xc0, 0x0f, 0xe0,
    0x18, 0xe5, 0x04, 0x0d, 0x4f, 0xe6, 0x08, 0xd6,
    0x12, 0x13, 0x16, 0xa0, 0xe6, 0x08, 0x16, 0x31,
    0x30, 0x12, 0x13, 0x12, 0x13, 0x12, 0x13, 0x12,
    0x13, 0x12, 0x13, 0x12, 0x13, 0x12, 0x13, 0x12,
    0x13, 0x36, 0x12, 0x13, 0x76, 0x50, 0x56, 0x00,
    0x76, 0x11, 0x12, 0x13, 0x12, 0x13, 0x12, 0x13,
    0x56, 0x0c, 0x11, 0x4c, 0x00, 0x16, 0x0d, 0x36,
    0x60, 0x85, 0x00, 0xe5, 0x7f, 0x20, 0x1b, 0x00,
    0x56, 0x0d, 0x56, 0x12, 0x13, 0x16, 0x0c, 0x16,
    0x11, 0x36, 0xe9, 0x02, 0x36, 0x4c, 0x36, 0xe1,
    0x12, 0x12, 0x16, 0x13, 0x0e, 0x10, 0x0e, 0xe2,
    0x12, 0x12, 0x0c, 0x13, 0x0c, 0x12, 0x13, 0x16,
    0x12, 0x13, 0x36, 0xe5, 0x02, 0x04, 0xe5, 0x25]"

definition unicode_gc_table_18 :: "u8 list" where
  "unicode_gc_table_18 = [
    0x24, 0xe5, 0x17, 0x40, 0xa5, 0x20, 0xa5, 0x20,
    0xa5, 0x20, 0x45, 0x40, 0x2d, 0x0c, 0x0e, 0x0f,
    0x2d, 0x00, 0x0f, 0x6c, 0x2f, 0xe0, 0x02, 0x5b,
    0x2f, 0x20, 0xe5, 0x04, 0x00, 0xe5, 0x12, 0x00,
    0xe5, 0x0b, 0x00, 0x25, 0x00, 0xe5, 0x07, 0x20,
    0xe5, 0x06, 0xe0, 0x1a, 0xe5, 0x73, 0x80, 0x56,
    0x60, 0xeb, 0x25, 0x40, 0xef, 0x01, 0xea, 0x2d,
    0x6b, 0xef, 0x09, 0x2b, 0x4f, 0x00, 0xef, 0x05,
    0x40, 0x0f, 0xe0, 0x27, 0xef, 0x25, 0x06, 0xe0,
    0x7a, 0xe5, 0x15, 0x40, 0xe5, 0x29, 0xe0, 0x07,
    0x06, 0xeb, 0x13, 0x60, 0xe5, 0x18, 0x6b, 0xe0,
    0x01, 0xe5, 0x0c, 0x0a, 0xe5, 0x00, 0x0a, 0x80,
    0xe5, 0x1e, 0x86, 0x80, 0xe5, 0x16, 0x00, 0x16,
    0xe5, 0x1c, 0x60, 0xe5, 0x00, 0x16, 0x8a, 0xe0,
    0x22, 0xe1, 0x20, 0xe2, 0x20, 0xe5, 0x46, 0x20,
    0xe9, 0x02, 0xa0, 0xe1, 0x1c, 0x60, 0xe2, 0x1c]"

definition unicode_gc_table_19 :: "u8 list" where
  "unicode_gc_table_19 = [
    0x60, 0xe5, 0x20, 0xe0, 0x00, 0xe5, 0x2c, 0xe0,
    0x03, 0x16, 0xe1, 0x03, 0x00, 0xe1, 0x07, 0x00,
    0xc1, 0x00, 0x21, 0x00, 0xe2, 0x03, 0x00, 0xe2,
    0x07, 0x00, 0xc2, 0x00, 0x22, 0xe0, 0x3b, 0xe5,
    0x80, 0xaf, 0xe0, 0x01, 0xe5, 0x0e, 0xe0, 0x02,
    0xe5, 0x00, 0xe0, 0x10, 0xa4, 0x00, 0xe4, 0x22,
    0x00, 0xe4, 0x01, 0xe0, 0x3d, 0xa5, 0x20, 0x05,
    0x00, 0xe5, 0x24, 0x00, 0x25, 0x40, 0x05, 0x20,
    0xe5, 0x0f, 0x00, 0x16, 0xeb, 0x00, 0xe5, 0x0f,
    0x2f, 0xcb, 0xe5, 0x17, 0xe0, 0x00, 0xeb, 0x01,
    0xe0, 0x28, 0xe5, 0x0b, 0x00, 0x25, 0x80, 0x8b,
    0xe5, 0x0e, 0xab, 0x40, 0x16, 0xe5, 0x12, 0x80,
    0x16, 0xe0, 0x38, 0xe5, 0x30, 0x60, 0x2b, 0x25,
    0xeb, 0x08, 0x20, 0xeb, 0x26, 0x05, 0x46, 0x00,
    0x26, 0x80, 0x66, 0x65, 0x00, 0x45, 0x00, 0xe5,
    0x15, 0x20, 0x46, 0x60, 0x06, 0xeb, 0x01, 0xc0]"

definition unicode_gc_table_20 :: "u8 list" where
  "unicode_gc_table_20 = [
    0xf6, 0x01, 0xc0, 0xe5, 0x15, 0x2b, 0x16, 0xe5,
    0x15, 0x4b, 0xe0, 0x18, 0xe5, 0x00, 0x0f, 0xe5,
    0x14, 0x26, 0x60, 0x8b, 0xd6, 0xe0, 0x01, 0xe5,
    0x2e, 0x40, 0xd6, 0xe5, 0x0e, 0x20, 0xeb, 0x00,
    0xe5, 0x0b, 0x80, 0xeb, 0x00, 0xe5, 0x0a, 0xc0,
    0x76, 0xe0, 0x04, 0xcb, 0xe0, 0x48, 0xe5, 0x41,
    0xe0, 0x2f, 0xe1, 0x2b, 0xe0, 0x05, 0xe2, 0x2b,
    0xc0, 0xab, 0xe5, 0x1c, 0x66, 0xe0, 0x00, 0xe9,
    0x02, 0xe0, 0x80, 0x9e, 0xeb, 0x17, 0x00, 0xe5,
    0x22, 0x00, 0x26, 0x11, 0x20, 0x25, 0xe0, 0x43,
    0x46, 0xe5, 0x15, 0xeb, 0x02, 0x05, 0xe0, 0x00,
    0xe5, 0x0e, 0xe6, 0x03, 0x6b, 0x96, 0xe0, 0x0e,
    0xe5, 0x0a, 0x66, 0x76, 0xe0, 0x1e, 0xe5, 0x0d,
    0xcb, 0xe0, 0x0c, 0xe5, 0x0f, 0xe0, 0x01, 0x07,
    0x06, 0x07, 0xe5, 0x2d, 0xe6, 0x07, 0xd6, 0x60,
    0xeb, 0x0c, 0xe9, 0x02, 0x06, 0x25, 0x26, 0x05]"

definition unicode_gc_table_21 :: "u8 list" where
  "unicode_gc_table_21 = [
    0xe0, 0x01, 0x46, 0x07, 0xe5, 0x25, 0x47, 0x66,
    0x27, 0x26, 0x36, 0x1b, 0x76, 0x06, 0xe0, 0x02,
    0x1b, 0x20, 0xe5, 0x11, 0xc0, 0xe9, 0x02, 0xa0,
    0x46, 0xe5, 0x1c, 0x86, 0x07, 0xe6, 0x00, 0x00,
    0xe9, 0x02, 0x76, 0x05, 0x27, 0x05, 0xe0, 0x00,
    0xe5, 0x1b, 0x06, 0x36, 0x05, 0xe0, 0x01, 0x26,
    0x07, 0xe5, 0x28, 0x47, 0xe6, 0x01, 0x27, 0x65,
    0x76, 0x66, 0x16, 0x07, 0x06, 0xe9, 0x02, 0x05,
    0x16, 0x05, 0x56, 0x00, 0xeb, 0x0c, 0xe0, 0x03,
    0xe5, 0x0a, 0x00, 0xe5, 0x11, 0x47, 0x46, 0x27,
    0x06, 0x07, 0x26, 0xb6, 0x06, 0x25, 0x06, 0xe0,
    0x36, 0xc5, 0x00, 0x05, 0x00, 0x65, 0x00, 0xe5,
    0x07, 0x00, 0xe5, 0x02, 0x16, 0xa0, 0xe5, 0x27,
    0x06, 0x47, 0xe6, 0x00, 0x80, 0xe9, 0x02, 0xa0,
    0x26, 0x27, 0x00, 0xe5, 0x00, 0x20, 0x25, 0x20,
    0xe5, 0x0e, 0x00, 0xc5, 0x00, 0x25, 0x00, 0x85]"

definition unicode_gc_table_22 :: "u8 list" where
  "unicode_gc_table_22 = [
    0x00, 0x26, 0x05, 0x27, 0x06, 0x67, 0x20, 0x27,
    0x20, 0x47, 0x20, 0x05, 0xa0, 0x07, 0x80, 0x85,
    0x27, 0x20, 0xc6, 0x40, 0x86, 0xe0, 0x80, 0x03,
    0xe5, 0x2d, 0x47, 0xe6, 0x00, 0x27, 0x46, 0x07,
    0x06, 0x65, 0x96, 0xe9, 0x02, 0x36, 0x00, 0x16,
    0x06, 0x45, 0xe0, 0x16, 0xe5, 0x28, 0x47, 0xa6,
    0x07, 0x06, 0x67, 0x26, 0x07, 0x26, 0x25, 0x16,
    0x05, 0xe0, 0x00, 0xe9, 0x02, 0xe0, 0x80, 0x1e,
    0xe5, 0x27, 0x47, 0x66, 0x20, 0x67, 0x26, 0x07,
    0x26, 0xf6, 0x0f, 0x65, 0x26, 0xe0, 0x1a, 0xe5,
    0x28, 0x47, 0xe6, 0x00, 0x27, 0x06, 0x07, 0x26,
    0x56, 0x05, 0xe0, 0x03, 0xe9, 0x02, 0xa0, 0xf6,
    0x05, 0xe0, 0x0b, 0xe5, 0x23, 0x06, 0x07, 0x06,
    0x27, 0xa6, 0x07, 0x06, 0x05, 0x16, 0xa0, 0xe9,
    0x02, 0xe0, 0x2e, 0xe5, 0x13, 0x20, 0x46, 0x27,
    0x66, 0x07, 0x86, 0x60, 0xe9, 0x02, 0x2b, 0x56]"

definition unicode_gc_table_23 :: "u8 list" where
  "unicode_gc_table_23 = [
    0x0f, 0xc5, 0xe0, 0x80, 0x31, 0xe5, 0x24, 0x47,
    0xe6, 0x01, 0x07, 0x26, 0x16, 0xe0, 0x5c, 0xe1,
    0x18, 0xe2, 0x18, 0xe9, 0x02, 0xeb, 0x01, 0xe0,
    0x04, 0xe5, 0x00, 0x20, 0x05, 0x20, 0xe5, 0x00,
    0x00, 0x25, 0x00, 0xe5, 0x10, 0xa7, 0x00, 0x27,
    0x20, 0x26, 0x07, 0x06, 0x05, 0x07, 0x05, 0x07,
    0x06, 0x56, 0xe0, 0x01, 0xe9, 0x02, 0xe0, 0x3e,
    0xe5, 0x00, 0x20, 0xe5, 0x1f, 0x47, 0x66, 0x20,
    0x26, 0x67, 0x06, 0x05, 0x16, 0x05, 0x07, 0xe0,
    0x13, 0x05, 0xe6, 0x02, 0xe5, 0x20, 0xa6, 0x07,
    0x05, 0x66, 0xf6, 0x00, 0x06, 0xe0, 0x00, 0x05,
    0xa6, 0x27, 0x46, 0xe5, 0x26, 0xe6, 0x05, 0x07,
    0x26, 0x56, 0x05, 0x96, 0xe0, 0x05, 0xe5, 0x41,
    0xc0, 0xf6, 0x02, 0xe0, 0x80, 0x6e, 0xe5, 0x01,
    0x00, 0xe5, 0x1d, 0x07, 0xc6, 0x00, 0xa6, 0x07,
    0x06, 0x05, 0x96, 0xe0, 0x02, 0xe9, 0x02, 0xeb]"

definition unicode_gc_table_24 :: "u8 list" where
  "unicode_gc_table_24 = [
    0x0b, 0x40, 0x36, 0xe5, 0x16, 0x20, 0xe6, 0x0e,
    0x00, 0x07, 0xc6, 0x07, 0x26, 0x07, 0x26, 0xe0,
    0x41, 0xc5, 0x00, 0x25, 0x00, 0xe5, 0x1e, 0xa6,
    0x40, 0x06, 0x00, 0x26, 0x00, 0xc6, 0x05, 0x06,
    0xe0, 0x00, 0xe9, 0x02, 0xa0, 0xa5, 0x00, 0x25,
    0x00, 0xe5, 0x18, 0x87, 0x00, 0x26, 0x00, 0x27,
    0x06, 0x07, 0x06, 0x05, 0xc0, 0xe9, 0x02, 0xe0,
    0x80, 0xae, 0xe5, 0x0b, 0x26, 0x27, 0x36, 0xc0,
    0x26, 0x05, 0x07, 0xe5, 0x05, 0x00, 0xe5, 0x1a,
    0x27, 0x86, 0x40, 0x27, 0x06, 0x07, 0x06, 0xf6,
    0x05, 0xe9, 0x02, 0xe0, 0x4e, 0x05, 0xe0, 0x07,
    0xeb, 0x0d, 0xef, 0x00, 0x6d, 0xef, 0x09, 0xe0,
    0x05, 0x16, 0xe5, 0x83, 0x12, 0xe0, 0x5e, 0xea,
    0x67, 0x00, 0x96, 0xe0, 0x03, 0xe5, 0x80, 0x3c,
    0xe0, 0x89, 0xc4, 0xe5, 0x59, 0x36, 0xe0, 0x05,
    0xe5, 0x83, 0xa8, 0xfb, 0x08, 0x06, 0xa5, 0xe6]"

definition unicode_gc_table_25 :: "u8 list" where
  "unicode_gc_table_25 = [
    0x07, 0xe0, 0x8f, 0x22, 0xe5, 0x81, 0xbf, 0xe0,
    0xa1, 0x31, 0xe5, 0x81, 0xb1, 0xc0, 0xe5, 0x17,
    0x00, 0xe9, 0x02, 0x60, 0x36, 0xe5, 0x47, 0x00,
    0xe9, 0x02, 0xa0, 0xe5, 0x16, 0x20, 0x86, 0x16,
    0xe0, 0x02, 0xe5, 0x28, 0xc6, 0x96, 0x6f, 0x64,
    0x16, 0x0f, 0xe0, 0x02, 0xe9, 0x02, 0x00, 0xcb,
    0x00, 0xe5, 0x0d, 0x80, 0xe5, 0x0b, 0xe0, 0x82,
    0x28, 0xe1, 0x18, 0xe2, 0x18, 0xeb, 0x0f, 0x76,
    0xe0, 0x5d, 0xe5, 0x43, 0x60, 0x06, 0x05, 0xe7,
    0x2f, 0xc0, 0x66, 0xe4, 0x05, 0xe0, 0x38, 0x24,
    0x16, 0x04, 0x06, 0xe0, 0x03, 0x27, 0xe0, 0x06,
    0xe5, 0x97, 0x70, 0xe0, 0x00, 0xe5, 0x84, 0x4e,
    0xe0, 0x22, 0xe5, 0x01, 0xe0, 0xa2, 0x5f, 0x64,
    0x00, 0xc4, 0x00, 0x24, 0x00, 0xe5, 0x80, 0x9b,
    0xe0, 0x07, 0x05, 0xe0, 0x15, 0x45, 0x20, 0x05,
    0xe0, 0x06, 0x65, 0xe0, 0x00, 0xe5, 0x81, 0x04]"

definition unicode_gc_table_26 :: "u8 list" where
  "unicode_gc_table_26 = [
    0xe0, 0x88, 0x7c, 0xe5, 0x63, 0x80, 0xe5, 0x05,
    0x40, 0xe5, 0x01, 0xc0, 0xe5, 0x02, 0x20, 0x0f,
    0x26, 0x16, 0x7b, 0xe0, 0x91, 0xd4, 0xe6, 0x26,
    0x20, 0xe6, 0x0f, 0xe0, 0x01, 0xef, 0x6c, 0xe0,
    0x34, 0xef, 0x80, 0x6e, 0xe0, 0x02, 0xef, 0x1f,
    0x20, 0xef, 0x34, 0x27, 0x46, 0x4f, 0xa7, 0xfb,
    0x00, 0xe6, 0x00, 0x2f, 0xc6, 0xef, 0x16, 0x66,
    0xef, 0x35, 0xe0, 0x0d, 0xef, 0x3a, 0x46, 0x0f,
    0xe0, 0x72, 0xeb, 0x0c, 0xe0, 0x04, 0xeb, 0x0c,
    0xe0, 0x04, 0xef, 0x4f, 0xe0, 0x01, 0xeb, 0x11,
    0xe0, 0x7f, 0xe1, 0x12, 0xe2, 0x12, 0xe1, 0x12,
    0xc2, 0x00, 0xe2, 0x0a, 0xe1, 0x12, 0xe2, 0x12,
    0x01, 0x00, 0x21, 0x20, 0x01, 0x20, 0x21, 0x20,
    0x61, 0x00, 0xe1, 0x00, 0x62, 0x00, 0x02, 0x00,
    0xc2, 0x00, 0xe2, 0x03, 0xe1, 0x12, 0xe2, 0x12,
    0x21, 0x00, 0x61, 0x20, 0xe1, 0x00, 0x00, 0xc1]"

definition unicode_gc_table_27 :: "u8 list" where
  "unicode_gc_table_27 = [
    0x00, 0xe2, 0x12, 0x21, 0x00, 0x61, 0x00, 0x81,
    0x00, 0x01, 0x40, 0xc1, 0x00, 0xe2, 0x12, 0xe1,
    0x12, 0xe2, 0x12, 0xe1, 0x12, 0xe2, 0x12, 0xe1,
    0x12, 0xe2, 0x12, 0xe1, 0x12, 0xe2, 0x12, 0xe1,
    0x12, 0xe2, 0x12, 0xe1, 0x12, 0xe2, 0x14, 0x20,
    0xe1, 0x11, 0x0c, 0xe2, 0x11, 0x0c, 0xa2, 0xe1,
    0x11, 0x0c, 0xe2, 0x11, 0x0c, 0xa2, 0xe1, 0x11,
    0x0c, 0xe2, 0x11, 0x0c, 0xa2, 0xe1, 0x11, 0x0c,
    0xe2, 0x11, 0x0c, 0xa2, 0xe1, 0x11, 0x0c, 0xe2,
    0x11, 0x0c, 0xa2, 0x3f, 0x20, 0xe9, 0x2a, 0xef,
    0x81, 0x78, 0xe6, 0x2f, 0x6f, 0xe6, 0x2a, 0xef,
    0x00, 0x06, 0xef, 0x06, 0x06, 0x2f, 0x96, 0xe0,
    0x07, 0x86, 0x00, 0xe6, 0x07, 0xe0, 0x83, 0xc8,
    0xe2, 0x02, 0x05, 0xe2, 0x0c, 0xa0, 0xa2, 0xe0,
    0x80, 0x4d, 0xc6, 0x00, 0xe6, 0x09, 0x20, 0xc6,
    0x00, 0x26, 0x00, 0x86, 0x80, 0xe4, 0x36, 0xe0]"

definition unicode_gc_table_28 :: "u8 list" where
  "unicode_gc_table_28 = [
    0x19, 0x06, 0xe0, 0x68, 0xe5, 0x25, 0x40, 0xc6,
    0xc4, 0x20, 0xe9, 0x02, 0x60, 0x05, 0x0f, 0xe0,
    0x80, 0xb8, 0xe5, 0x16, 0x06, 0xe0, 0x09, 0xe5,
    0x24, 0x66, 0xe9, 0x02, 0x80, 0x0d, 0xe0, 0x81,
    0x48, 0xe5, 0x13, 0x04, 0x66, 0xe9, 0x02, 0xe0,
    0x82, 0x5e, 0xc5, 0x00, 0x65, 0x00, 0x25, 0x00,
    0xe5, 0x07, 0x00, 0xe5, 0x80, 0x3d, 0x20, 0xeb,
    0x01, 0xc6, 0xe0, 0x21, 0xe1, 0x1a, 0xe2, 0x1a,
    0xc6, 0x04, 0x60, 0xe9, 0x02, 0x60, 0x36, 0xe0,
    0x82, 0x89, 0xeb, 0x33, 0x0f, 0x4b, 0x0d, 0x6b,
    0xe0, 0x44, 0xeb, 0x25, 0x0f, 0xeb, 0x07, 0xe0,
    0x80, 0x3a, 0x65, 0x00, 0xe5, 0x13, 0x00, 0x25,
    0x00, 0x05, 0x20, 0x05, 0x00, 0xe5, 0x02, 0x00,
    0x65, 0x00, 0x05, 0x00, 0x05, 0xa0, 0x05, 0x60,
    0x05, 0x00, 0x05, 0x00, 0x05, 0x00, 0x45, 0x00,
    0x25, 0x00, 0x05, 0x20, 0x05, 0x00, 0x05, 0x00]"

definition unicode_gc_table_29 :: "u8 list" where
  "unicode_gc_table_29 = [
    0x05, 0x00, 0x05, 0x00, 0x05, 0x00, 0x25, 0x00,
    0x05, 0x20, 0x65, 0x00, 0xc5, 0x00, 0x65, 0x00,
    0x65, 0x00, 0x05, 0x00, 0xe5, 0x02, 0x00, 0xe5,
    0x09, 0x80, 0x45, 0x00, 0x85, 0x00, 0xe5, 0x09,
    0xe0, 0x2c, 0x2c, 0xe0, 0x80, 0x86, 0xef, 0x24,
    0x60, 0xef, 0x5c, 0xe0, 0x04, 0xef, 0x07, 0x20,
    0xef, 0x07, 0x00, 0xef, 0x07, 0x00, 0xef, 0x1d,
    0xe0, 0x02, 0xeb, 0x05, 0xef, 0x80, 0x19, 0xe0,
    0x30, 0xef, 0x15, 0xe0, 0x05, 0xef, 0x24, 0x60,
    0xef, 0x01, 0xc0, 0x2f, 0xe0, 0x06, 0xaf, 0xe0,
    0x80, 0x12, 0xef, 0x80, 0x73, 0x8e, 0xef, 0x82,
    0x50, 0x60, 0xef, 0x09, 0x40, 0xef, 0x05, 0x40,
    0xef, 0x6f, 0x60, 0xef, 0x57, 0xa0, 0xef, 0x04,
    0x60, 0x0f, 0xe0, 0x07, 0xef, 0x04, 0x60, 0xef,
    0x30, 0xe0, 0x00, 0xef, 0x02, 0xa0, 0xef, 0x20,
    0xe0, 0x00, 0xef, 0x16, 0x20, 0x2f, 0xe0, 0x46]"

definition unicode_gc_table_30 :: "u8 list" where
  "unicode_gc_table_30 = [
    0xef, 0x80, 0xcc, 0xe0, 0x04, 0xef, 0x06, 0x20,
    0xef, 0x05, 0x40, 0xef, 0x01, 0xc0, 0xef, 0x26,
    0x00, 0xcf, 0xe0, 0x00, 0xef, 0x06, 0x60, 0xef,
    0x01, 0xc0, 0xef, 0x01, 0xc0, 0xef, 0x80, 0x0b,
    0x00, 0xef, 0x2f, 0xe0, 0x1d, 0xe9, 0x02, 0xe0,
    0x83, 0x7e, 0xe5, 0xc0, 0x66, 0x58, 0xe0, 0x18,
    0xe5, 0x8f, 0xb2, 0xa0, 0xe5, 0x80, 0x56, 0x20,
    0xe5, 0x95, 0xfa, 0xe0, 0x06, 0xe5, 0x9c, 0xa9,
    0xe0, 0x8b, 0x97, 0xe5, 0x81, 0x96, 0xe0, 0x85,
    0x5a, 0xe5, 0x92, 0xc3, 0x80, 0xe5, 0x8f, 0xd8,
    0xe0, 0xca, 0x9b, 0xc9, 0x1b, 0xe0, 0x16, 0xfb,
    0x58, 0xe0, 0x78, 0xe6, 0x80, 0x68, 0xe0, 0xc0,
    0xbd, 0x88, 0xfd, 0xc0, 0xbf, 0x76, 0x20, 0xfd,
    0xc0, 0xbf, 0x76, 0x20]"

definition unicode_gc_table :: "u8 list" where
  "unicode_gc_table = concat [
    unicode_gc_table_0, unicode_gc_table_1, unicode_gc_table_2, unicode_gc_table_3,
    unicode_gc_table_4, unicode_gc_table_5, unicode_gc_table_6, unicode_gc_table_7,
    unicode_gc_table_8, unicode_gc_table_9, unicode_gc_table_10, unicode_gc_table_11,
    unicode_gc_table_12, unicode_gc_table_13, unicode_gc_table_14, unicode_gc_table_15,
    unicode_gc_table_16, unicode_gc_table_17, unicode_gc_table_18, unicode_gc_table_19,
    unicode_gc_table_20, unicode_gc_table_21, unicode_gc_table_22, unicode_gc_table_23,
    unicode_gc_table_24, unicode_gc_table_25, unicode_gc_table_26, unicode_gc_table_27,
    unicode_gc_table_28, unicode_gc_table_29, unicode_gc_table_30]"

definition unicode_script_table_0 :: "u8 list" where
  "unicode_script_table_0 = [
    0xc0, 0x19, 0x99, 0x47, 0x85, 0x19, 0x99, 0x47,
    0xae, 0x19, 0x80, 0x47, 0x8e, 0x19, 0x80, 0x47,
    0x84, 0x19, 0x96, 0x47, 0x80, 0x19, 0x9e, 0x47,
    0x80, 0x19, 0xe1, 0x60, 0x47, 0xa6, 0x19, 0x84,
    0x47, 0x84, 0x19, 0x81, 0x0d, 0x93, 0x19, 0xe0,
    0x0f, 0x38, 0x83, 0x2c, 0x80, 0x19, 0x82, 0x2c,
    0x01, 0x83, 0x2c, 0x80, 0x19, 0x80, 0x2c, 0x03,
    0x80, 0x2c, 0x80, 0x19, 0x80, 0x2c, 0x80, 0x19,
    0x82, 0x2c, 0x00, 0x80, 0x2c, 0x00, 0x93, 0x2c,
    0x00, 0xbe, 0x2c, 0x8d, 0x1a, 0x8f, 0x2c, 0xe0,
    0x24, 0x1d, 0x81, 0x38, 0xe0, 0x48, 0x1d, 0x00,
    0xa5, 0x05, 0x01, 0xb1, 0x05, 0x01, 0x82, 0x05,
    0x00, 0xb6, 0x35, 0x07, 0x9a, 0x35, 0x03, 0x85,
    0x35, 0x0a, 0x84, 0x04, 0x80, 0x19, 0x85, 0x04,
    0x80, 0x19, 0x8d, 0x04, 0x80, 0x19, 0x82, 0x04,
    0x80, 0x19, 0x9f, 0x04, 0x80, 0x19, 0x89, 0x04]"

definition unicode_script_table_1 :: "u8 list" where
  "unicode_script_table_1 = [
    0x8a, 0x38, 0x99, 0x04, 0x80, 0x38, 0xe0, 0x0b,
    0x04, 0x80, 0x19, 0xa1, 0x04, 0x8d, 0x8b, 0x00,
    0xbb, 0x8b, 0x01, 0x82, 0x8b, 0xaf, 0x04, 0xb1,
    0x95, 0x0d, 0xba, 0x66, 0x01, 0x82, 0x66, 0xad,
    0x7f, 0x01, 0x8e, 0x7f, 0x00, 0x9b, 0x52, 0x01,
    0x80, 0x52, 0x00, 0x8a, 0x8b, 0x04, 0x9e, 0x04,
    0x00, 0x81, 0x04, 0x05, 0xc9, 0x04, 0x80, 0x19,
    0x9c, 0x04, 0xd0, 0x20, 0x83, 0x38, 0x8e, 0x20,
    0x81, 0x19, 0x99, 0x20, 0x83, 0x0b, 0x00, 0x87,
    0x0b, 0x01, 0x81, 0x0b, 0x01, 0x95, 0x0b, 0x00,
    0x86, 0x0b, 0x00, 0x80, 0x0b, 0x02, 0x83, 0x0b,
    0x01, 0x88, 0x0b, 0x01, 0x81, 0x0b, 0x01, 0x83,
    0x0b, 0x07, 0x80, 0x0b, 0x03, 0x81, 0x0b, 0x00,
    0x84, 0x0b, 0x01, 0x98, 0x0b, 0x01, 0x82, 0x2f,
    0x00, 0x85, 0x2f, 0x03, 0x81, 0x2f, 0x01, 0x95,
    0x2f, 0x00, 0x86, 0x2f, 0x00, 0x81, 0x2f, 0x00]"

definition unicode_script_table_2 :: "u8 list" where
  "unicode_script_table_2 = [
    0x81, 0x2f, 0x00, 0x81, 0x2f, 0x01, 0x80, 0x2f,
    0x00, 0x84, 0x2f, 0x03, 0x81, 0x2f, 0x01, 0x82,
    0x2f, 0x02, 0x80, 0x2f, 0x06, 0x83, 0x2f, 0x00,
    0x80, 0x2f, 0x06, 0x90, 0x2f, 0x09, 0x82, 0x2d,
    0x00, 0x88, 0x2d, 0x00, 0x82, 0x2d, 0x00, 0x95,
    0x2d, 0x00, 0x86, 0x2d, 0x00, 0x81, 0x2d, 0x00,
    0x84, 0x2d, 0x01, 0x89, 0x2d, 0x00, 0x82, 0x2d,
    0x00, 0x82, 0x2d, 0x01, 0x80, 0x2d, 0x0e, 0x83,
    0x2d, 0x01, 0x8b, 0x2d, 0x06, 0x86, 0x2d, 0x00,
    0x82, 0x74, 0x00, 0x87, 0x74, 0x01, 0x81, 0x74,
    0x01, 0x95, 0x74, 0x00, 0x86, 0x74, 0x00, 0x81,
    0x74, 0x00, 0x84, 0x74, 0x01, 0x88, 0x74, 0x01,
    0x81, 0x74, 0x01, 0x82, 0x74, 0x06, 0x82, 0x74,
    0x03, 0x81, 0x74, 0x00, 0x84, 0x74, 0x01, 0x91,
    0x74, 0x09, 0x81, 0x92, 0x00, 0x85, 0x92, 0x02,
    0x82, 0x92, 0x00, 0x83, 0x92, 0x02, 0x81, 0x92]"

definition unicode_script_table_3 :: "u8 list" where
  "unicode_script_table_3 = [
    0x00, 0x80, 0x92, 0x00, 0x81, 0x92, 0x02, 0x81,
    0x92, 0x02, 0x82, 0x92, 0x02, 0x8b, 0x92, 0x03,
    0x84, 0x92, 0x02, 0x82, 0x92, 0x00, 0x83, 0x92,
    0x01, 0x80, 0x92, 0x05, 0x80, 0x92, 0x0d, 0x94,
    0x92, 0x04, 0x8c, 0x94, 0x00, 0x82, 0x94, 0x00,
    0x96, 0x94, 0x00, 0x8f, 0x94, 0x01, 0x88, 0x94,
    0x00, 0x82, 0x94, 0x00, 0x83, 0x94, 0x06, 0x81,
    0x94, 0x00, 0x82, 0x94, 0x01, 0x80, 0x94, 0x01,
    0x83, 0x94, 0x01, 0x89, 0x94, 0x06, 0x88, 0x94,
    0x8c, 0x3d, 0x00, 0x82, 0x3d, 0x00, 0x96, 0x3d,
    0x00, 0x89, 0x3d, 0x00, 0x84, 0x3d, 0x01, 0x88,
    0x3d, 0x00, 0x82, 0x3d, 0x00, 0x83, 0x3d, 0x06,
    0x81, 0x3d, 0x05, 0x81, 0x3d, 0x00, 0x83, 0x3d,
    0x01, 0x89, 0x3d, 0x00, 0x82, 0x3d, 0x0b, 0x8c,
    0x51, 0x00, 0x82, 0x51, 0x00, 0xb2, 0x51, 0x00,
    0x82, 0x51, 0x00, 0x85, 0x51, 0x03, 0x8f, 0x51]"

definition unicode_script_table_4 :: "u8 list" where
  "unicode_script_table_4 = [
    0x01, 0x99, 0x51, 0x00, 0x82, 0x85, 0x00, 0x91,
    0x85, 0x02, 0x97, 0x85, 0x00, 0x88, 0x85, 0x00,
    0x80, 0x85, 0x01, 0x86, 0x85, 0x02, 0x80, 0x85,
    0x03, 0x85, 0x85, 0x00, 0x80, 0x85, 0x00, 0x87,
    0x85, 0x05, 0x89, 0x85, 0x01, 0x82, 0x85, 0x0b,
    0xb9, 0x96, 0x03, 0x80, 0x19, 0x9b, 0x96, 0x24,
    0x81, 0x46, 0x00, 0x80, 0x46, 0x00, 0x84, 0x46,
    0x00, 0x97, 0x46, 0x00, 0x80, 0x46, 0x00, 0x96,
    0x46, 0x01, 0x84, 0x46, 0x00, 0x80, 0x46, 0x00,
    0x86, 0x46, 0x00, 0x89, 0x46, 0x01, 0x83, 0x46,
    0x1f, 0xc7, 0x97, 0x00, 0xa3, 0x97, 0x03, 0xa6,
    0x97, 0x00, 0xa3, 0x97, 0x00, 0x8e, 0x97, 0x00,
    0x86, 0x97, 0x83, 0x19, 0x81, 0x97, 0x24, 0xe0,
    0x3f, 0x60, 0xa5, 0x28, 0x00, 0x80, 0x28, 0x04,
    0x80, 0x28, 0x01, 0xaa, 0x28, 0x80, 0x19, 0x83,
    0x28, 0xe0, 0x9f, 0x31, 0xc8, 0x27, 0x00, 0x83]"

definition unicode_script_table_5 :: "u8 list" where
  "unicode_script_table_5 = [
    0x27, 0x01, 0x86, 0x27, 0x00, 0x80, 0x27, 0x00,
    0x83, 0x27, 0x01, 0xa8, 0x27, 0x00, 0x83, 0x27,
    0x01, 0xa0, 0x27, 0x00, 0x83, 0x27, 0x01, 0x86,
    0x27, 0x00, 0x80, 0x27, 0x00, 0x83, 0x27, 0x01,
    0x8e, 0x27, 0x00, 0xb8, 0x27, 0x00, 0x83, 0x27,
    0x01, 0xc2, 0x27, 0x01, 0x9f, 0x27, 0x02, 0x99,
    0x27, 0x05, 0xd5, 0x17, 0x01, 0x85, 0x17, 0x01,
    0xe2, 0x1f, 0x12, 0x9c, 0x69, 0x02, 0xca, 0x7e,
    0x82, 0x19, 0x8a, 0x7e, 0x06, 0x95, 0x8c, 0x08,
    0x80, 0x8c, 0x94, 0x33, 0x81, 0x19, 0x08, 0x93,
    0x11, 0x0b, 0x8c, 0x8d, 0x00, 0x82, 0x8d, 0x00,
    0x81, 0x8d, 0x0b, 0xdd, 0x42, 0x01, 0x89, 0x42,
    0x05, 0x89, 0x42, 0x05, 0x81, 0x5d, 0x81, 0x19,
    0x80, 0x5d, 0x80, 0x19, 0x93, 0x5d, 0x05, 0xd8,
    0x5d, 0x06, 0xaa, 0x5d, 0x04, 0xc5, 0x12, 0x09,
    0x9e, 0x49, 0x00, 0x8b, 0x49, 0x03, 0x8b, 0x49]"

definition unicode_script_table_6 :: "u8 list" where
  "unicode_script_table_6 = [
    0x03, 0x80, 0x49, 0x02, 0x8b, 0x49, 0x9d, 0x8e,
    0x01, 0x84, 0x8e, 0x0a, 0xab, 0x64, 0x03, 0x99,
    0x64, 0x05, 0x8a, 0x64, 0x02, 0x81, 0x64, 0x9f,
    0x42, 0x9b, 0x10, 0x01, 0x81, 0x10, 0xbe, 0x8f,
    0x00, 0x9c, 0x8f, 0x01, 0x8a, 0x8f, 0x05, 0x89,
    0x8f, 0x05, 0x8d, 0x8f, 0x01, 0x9e, 0x38, 0x30,
    0xcc, 0x07, 0x02, 0xae, 0x07, 0x00, 0xbf, 0x89,
    0xb3, 0x0a, 0x07, 0x83, 0x0a, 0xb7, 0x48, 0x02,
    0x8e, 0x48, 0x02, 0x82, 0x48, 0xaf, 0x6a, 0x88,
    0x1d, 0x06, 0xaa, 0x28, 0x01, 0x82, 0x28, 0x87,
    0x89, 0x07, 0x82, 0x38, 0x80, 0x19, 0x8c, 0x38,
    0x80, 0x19, 0x86, 0x38, 0x83, 0x19, 0x80, 0x38,
    0x85, 0x19, 0x80, 0x38, 0x82, 0x19, 0x81, 0x38,
    0x80, 0x19, 0x04, 0xa5, 0x47, 0x84, 0x2c, 0x80,
    0x1d, 0xb0, 0x47, 0x84, 0x2c, 0x83, 0x47, 0x84,
    0x2c, 0x8c, 0x47, 0x80, 0x1d, 0xc5, 0x47, 0x80]"

definition unicode_script_table_7 :: "u8 list" where
  "unicode_script_table_7 = [
    0x2c, 0xbf, 0x38, 0xe0, 0x9f, 0x47, 0x95, 0x2c,
    0x01, 0x85, 0x2c, 0x01, 0xa5, 0x2c, 0x01, 0x85,
    0x2c, 0x01, 0x87, 0x2c, 0x00, 0x80, 0x2c, 0x00,
    0x80, 0x2c, 0x00, 0x80, 0x2c, 0x00, 0x9e, 0x2c,
    0x01, 0xb4, 0x2c, 0x00, 0x8e, 0x2c, 0x00, 0x8d,
    0x2c, 0x01, 0x85, 0x2c, 0x00, 0x92, 0x2c, 0x01,
    0x82, 0x2c, 0x00, 0x88, 0x2c, 0x00, 0x8b, 0x19,
    0x81, 0x38, 0xd6, 0x19, 0x00, 0x8a, 0x19, 0x80,
    0x47, 0x01, 0x8a, 0x19, 0x80, 0x47, 0x8e, 0x19,
    0x00, 0x8c, 0x47, 0x02, 0xa0, 0x19, 0x0e, 0xa0,
    0x38, 0x0e, 0xa5, 0x19, 0x80, 0x2c, 0x82, 0x19,
    0x81, 0x47, 0x85, 0x19, 0x80, 0x47, 0x9a, 0x19,
    0x80, 0x47, 0x90, 0x19, 0xa8, 0x47, 0x82, 0x19,
    0x03, 0xe2, 0x36, 0x19, 0x18, 0x8a, 0x19, 0x14,
    0xe3, 0x3f, 0x19, 0xe0, 0x9f, 0x0f, 0xe2, 0x13,
    0x19, 0x01, 0x9f, 0x19, 0x00, 0xe0, 0x08, 0x19]"

definition unicode_script_table_8 :: "u8 list" where
  "unicode_script_table_8 = [
    0xdf, 0x29, 0x9f, 0x47, 0xe0, 0x13, 0x1a, 0x04,
    0x86, 0x1a, 0xa5, 0x28, 0x00, 0x80, 0x28, 0x04,
    0x80, 0x28, 0x01, 0xb7, 0x98, 0x06, 0x81, 0x98,
    0x0d, 0x80, 0x98, 0x96, 0x27, 0x08, 0x86, 0x27,
    0x00, 0x86, 0x27, 0x00, 0x86, 0x27, 0x00, 0x86,
    0x27, 0x00, 0x86, 0x27, 0x00, 0x86, 0x27, 0x00,
    0x86, 0x27, 0x00, 0x86, 0x27, 0x00, 0x9f, 0x1d,
    0xdd, 0x19, 0x21, 0x99, 0x30, 0x00, 0xd8, 0x30,
    0x0b, 0xe0, 0x75, 0x30, 0x19, 0x8b, 0x19, 0x03,
    0x84, 0x19, 0x80, 0x30, 0x80, 0x19, 0x80, 0x30,
    0x98, 0x19, 0x88, 0x30, 0x83, 0x38, 0x81, 0x31,
    0x87, 0x19, 0x83, 0x30, 0x83, 0x19, 0x00, 0xd5,
    0x36, 0x01, 0x81, 0x38, 0x81, 0x19, 0x82, 0x36,
    0x80, 0x19, 0xd9, 0x3e, 0x81, 0x19, 0x82, 0x3e,
    0x04, 0xaa, 0x0d, 0x00, 0xdd, 0x31, 0x00, 0x8f,
    0x19, 0x9f, 0x0d, 0xa3, 0x19, 0x0b, 0x8f, 0x3e]"

definition unicode_script_table_9 :: "u8 list" where
  "unicode_script_table_9 = [
    0x9e, 0x31, 0x00, 0xbf, 0x19, 0x9e, 0x31, 0xd0,
    0x19, 0xae, 0x3e, 0x80, 0x19, 0xd7, 0x3e, 0xe0,
    0x47, 0x19, 0xf0, 0x09, 0x5f, 0x30, 0xbf, 0x19,
    0xf0, 0x41, 0x9f, 0x30, 0xe4, 0x2c, 0xa2, 0x02,
    0xb6, 0xa2, 0x08, 0xaf, 0x4c, 0xe0, 0xcb, 0x9d,
    0x13, 0xdf, 0x1d, 0xd7, 0x08, 0x07, 0xa1, 0x19,
    0xe0, 0x05, 0x47, 0x82, 0x19, 0xbf, 0x47, 0x04,
    0x81, 0x47, 0x00, 0x80, 0x47, 0x00, 0x84, 0x47,
    0x17, 0x8d, 0x47, 0xac, 0x8a, 0x02, 0x89, 0x19,
    0x05, 0xb7, 0x7a, 0x07, 0xc5, 0x80, 0x07, 0x8b,
    0x80, 0x05, 0x9f, 0x20, 0xad, 0x40, 0x80, 0x19,
    0x80, 0x40, 0xa3, 0x7d, 0x0a, 0x80, 0x7d, 0x9c,
    0x31, 0x02, 0xcd, 0x3b, 0x00, 0x80, 0x19, 0x89,
    0x3b, 0x03, 0x81, 0x3b, 0x9e, 0x60, 0x00, 0xb6,
    0x16, 0x08, 0x8d, 0x16, 0x01, 0x89, 0x16, 0x01,
    0x83, 0x16, 0x9f, 0x60, 0xc2, 0x90, 0x17, 0x84]"

definition unicode_script_table_10 :: "u8 list" where
  "unicode_script_table_10 = [
    0x90, 0x96, 0x57, 0x09, 0x85, 0x27, 0x01, 0x85,
    0x27, 0x01, 0x85, 0x27, 0x08, 0x86, 0x27, 0x00,
    0x86, 0x27, 0x00, 0xaa, 0x47, 0x80, 0x19, 0x88,
    0x47, 0x80, 0x2c, 0x83, 0x47, 0x81, 0x19, 0x03,
    0xcf, 0x17, 0xad, 0x57, 0x01, 0x89, 0x57, 0x05,
    0xf0, 0x1b, 0x43, 0x31, 0x0b, 0x96, 0x31, 0x03,
    0xb0, 0x31, 0x70, 0x10, 0xa3, 0xe1, 0x0d, 0x30,
    0x01, 0xe0, 0x09, 0x30, 0x25, 0x86, 0x47, 0x0b,
    0x84, 0x05, 0x04, 0x99, 0x35, 0x00, 0x84, 0x35,
    0x00, 0x80, 0x35, 0x00, 0x81, 0x35, 0x00, 0x81,
    0x35, 0x00, 0x89, 0x35, 0xe0, 0x12, 0x04, 0x0f,
    0xe1, 0x0a, 0x04, 0x81, 0x19, 0xcf, 0x04, 0x01,
    0xb5, 0x04, 0x06, 0x80, 0x04, 0x1f, 0x8f, 0x04,
    0x8f, 0x38, 0x89, 0x19, 0x05, 0x8d, 0x38, 0x81,
    0x1d, 0xa2, 0x19, 0x00, 0x92, 0x19, 0x00, 0x83,
    0x19, 0x03, 0x84, 0x04, 0x00, 0xe0, 0x26, 0x04]"

definition unicode_script_table_11 :: "u8 list" where
  "unicode_script_table_11 = [
    0x01, 0x80, 0x19, 0x00, 0x9f, 0x19, 0x99, 0x47,
    0x85, 0x19, 0x99, 0x47, 0x8a, 0x19, 0x89, 0x3e,
    0x80, 0x19, 0xac, 0x3e, 0x81, 0x19, 0x9e, 0x31,
    0x02, 0x85, 0x31, 0x01, 0x85, 0x31, 0x01, 0x85,
    0x31, 0x01, 0x82, 0x31, 0x02, 0x86, 0x19, 0x00,
    0x86, 0x19, 0x09, 0x84, 0x19, 0x01, 0x8b, 0x4b,
    0x00, 0x99, 0x4b, 0x00, 0x92, 0x4b, 0x00, 0x81,
    0x4b, 0x00, 0x8e, 0x4b, 0x01, 0x8d, 0x4b, 0x21,
    0xe0, 0x1a, 0x4b, 0x04, 0x82, 0x19, 0x03, 0xac,
    0x19, 0x02, 0x88, 0x19, 0xce, 0x2c, 0x00, 0x8c,
    0x19, 0x02, 0x80, 0x2c, 0x2e, 0xac, 0x19, 0x80,
    0x38, 0x60, 0x21, 0x9c, 0x4d, 0x02, 0xb0, 0x13,
    0x0e, 0x80, 0x38, 0x9a, 0x19, 0x03, 0xa3, 0x6c,
    0x08, 0x82, 0x6c, 0x9a, 0x2a, 0x04, 0xaa, 0x6e,
    0x04, 0x9d, 0x9c, 0x00, 0x80, 0x9c, 0xa3, 0x6f,
    0x03, 0x8d, 0x6f, 0x29, 0xcf, 0x1f, 0xaf, 0x82]"

definition unicode_script_table_12 :: "u8 list" where
  "unicode_script_table_12 = [
    0x9d, 0x76, 0x01, 0x89, 0x76, 0x05, 0xa3, 0x75,
    0x03, 0xa3, 0x75, 0x03, 0xa7, 0x25, 0x07, 0xb3,
    0x14, 0x0a, 0x80, 0x14, 0x8a, 0x9e, 0x00, 0x8e,
    0x9e, 0x00, 0x86, 0x9e, 0x00, 0x81, 0x9e, 0x00,
    0x8a, 0x9e, 0x00, 0x8e, 0x9e, 0x00, 0x86, 0x9e,
    0x00, 0x81, 0x9e, 0x42, 0xe0, 0xd6, 0x4a, 0x08,
    0x95, 0x4a, 0x09, 0x87, 0x4a, 0x17, 0x85, 0x47,
    0x00, 0xa9, 0x47, 0x00, 0x88, 0x47, 0x44, 0x85,
    0x1c, 0x01, 0x80, 0x1c, 0x00, 0xab, 0x1c, 0x00,
    0x81, 0x1c, 0x02, 0x80, 0x1c, 0x01, 0x80, 0x1c,
    0x95, 0x37, 0x00, 0x88, 0x37, 0x9f, 0x78, 0x9e,
    0x61, 0x07, 0x88, 0x61, 0x2f, 0x92, 0x34, 0x00,
    0x81, 0x34, 0x04, 0x84, 0x34, 0x9b, 0x7b, 0x02,
    0x80, 0x7b, 0x99, 0x4e, 0x04, 0x80, 0x4e, 0x3f,
    0x9f, 0x5a, 0x97, 0x59, 0x03, 0x93, 0x59, 0x01,
    0xad, 0x59, 0x83, 0x41, 0x00, 0x81, 0x41, 0x04]"

definition unicode_script_table_13 :: "u8 list" where
  "unicode_script_table_13 = [
    0x87, 0x41, 0x00, 0x82, 0x41, 0x00, 0x9c, 0x41,
    0x01, 0x82, 0x41, 0x03, 0x89, 0x41, 0x06, 0x88,
    0x41, 0x06, 0x9f, 0x71, 0x9f, 0x6d, 0x1f, 0xa6,
    0x53, 0x03, 0x8b, 0x53, 0x08, 0xb5, 0x06, 0x02,
    0x86, 0x06, 0x95, 0x3a, 0x01, 0x87, 0x3a, 0x92,
    0x39, 0x04, 0x87, 0x39, 0x91, 0x7c, 0x06, 0x83,
    0x7c, 0x0b, 0x86, 0x7c, 0x4f, 0xc8, 0x72, 0x36,
    0xb2, 0x6b, 0x0c, 0xb2, 0x6b, 0x06, 0x85, 0x6b,
    0xa7, 0x32, 0x07, 0x89, 0x32, 0x60, 0xc5, 0x9e,
    0x04, 0x00, 0xa9, 0xa1, 0x00, 0x82, 0xa1, 0x01,
    0x81, 0xa1, 0x4a, 0x82, 0x04, 0xa7, 0x70, 0x07,
    0xa9, 0x86, 0x15, 0x99, 0x73, 0x25, 0x9b, 0x18,
    0x13, 0x96, 0x26, 0x08, 0xcd, 0x0e, 0x03, 0xa3,
    0x0e, 0x08, 0x80, 0x0e, 0xc2, 0x3c, 0x09, 0x80,
    0x3c, 0x01, 0x98, 0x87, 0x06, 0x89, 0x87, 0x05,
    0xb4, 0x15, 0x00, 0x91, 0x15, 0x07, 0xa6, 0x50]"

definition unicode_script_table_14 :: "u8 list" where
  "unicode_script_table_14 = [
    0x08, 0xdf, 0x81, 0x00, 0x93, 0x85, 0x0a, 0x91,
    0x43, 0x00, 0xae, 0x43, 0x3d, 0x86, 0x5f, 0x00,
    0x80, 0x5f, 0x00, 0x83, 0x5f, 0x00, 0x8e, 0x5f,
    0x00, 0x8a, 0x5f, 0x05, 0xba, 0x45, 0x04, 0x89,
    0x45, 0x05, 0x83, 0x2b, 0x00, 0x87, 0x2b, 0x01,
    0x81, 0x2b, 0x01, 0x95, 0x2b, 0x00, 0x86, 0x2b,
    0x00, 0x81, 0x2b, 0x00, 0x84, 0x2b, 0x00, 0x80,
    0x38, 0x88, 0x2b, 0x01, 0x81, 0x2b, 0x01, 0x82,
    0x2b, 0x01, 0x80, 0x2b, 0x05, 0x80, 0x2b, 0x04,
    0x86, 0x2b, 0x01, 0x86, 0x2b, 0x02, 0x84, 0x2b,
    0x60, 0x2a, 0xdb, 0x65, 0x00, 0x84, 0x65, 0x1d,
    0xc7, 0x99, 0x07, 0x89, 0x99, 0x60, 0x45, 0xb5,
    0x83, 0x01, 0xa5, 0x83, 0x21, 0xc4, 0x5c, 0x0a,
    0x89, 0x5c, 0x05, 0x8c, 0x5d, 0x12, 0xb9, 0x91,
    0x05, 0x89, 0x91, 0x35, 0x9a, 0x02, 0x01, 0x8e,
    0x02, 0x03, 0x96, 0x02, 0x60, 0x58, 0xbb, 0x22]"

definition unicode_script_table_15 :: "u8 list" where
  "unicode_script_table_15 = [
    0x60, 0x03, 0xd2, 0xa0, 0x0b, 0x80, 0xa0, 0x86,
    0x21, 0x01, 0x80, 0x21, 0x01, 0x87, 0x21, 0x00,
    0x81, 0x21, 0x00, 0x9d, 0x21, 0x00, 0x81, 0x21,
    0x01, 0x8b, 0x21, 0x08, 0x89, 0x21, 0x45, 0x87,
    0x63, 0x01, 0xad, 0x63, 0x01, 0x8a, 0x63, 0x1a,
    0xc7, 0xa3, 0x07, 0xd2, 0x88, 0x0c, 0x8f, 0x12,
    0xb8, 0x79, 0x06, 0x89, 0x20, 0x60, 0x95, 0x88,
    0x0c, 0x00, 0xac, 0x0c, 0x00, 0x8d, 0x0c, 0x09,
    0x9c, 0x0c, 0x02, 0x9f, 0x54, 0x01, 0x95, 0x54,
    0x00, 0x8d, 0x54, 0x48, 0x86, 0x55, 0x00, 0x81,
    0x55, 0x00, 0xab, 0x55, 0x02, 0x80, 0x55, 0x00,
    0x81, 0x55, 0x00, 0x88, 0x55, 0x07, 0x89, 0x55,
    0x05, 0x85, 0x2e, 0x00, 0x81, 0x2e, 0x00, 0xa4,
    0x2e, 0x00, 0x81, 0x2e, 0x00, 0x85, 0x2e, 0x06,
    0x89, 0x2e, 0x60, 0xd5, 0x98, 0x4f, 0x06, 0x90,
    0x3f, 0x00, 0xa8, 0x3f, 0x02, 0x9b, 0x3f, 0x55]"

definition unicode_script_table_16 :: "u8 list" where
  "unicode_script_table_16 = [
    0x80, 0x4c, 0x0e, 0xb1, 0x92, 0x0c, 0x80, 0x92,
    0xe3, 0x39, 0x1b, 0x60, 0x05, 0xe0, 0x0e, 0x1b,
    0x00, 0x84, 0x1b, 0x0a, 0xe0, 0x63, 0x1b, 0x69,
    0xeb, 0xe0, 0x02, 0x1e, 0x0c, 0xe3, 0xf5, 0x24,
    0x6f, 0x49, 0xe1, 0xe6, 0x03, 0x70, 0x11, 0x58,
    0xe1, 0xd8, 0x08, 0x06, 0x9e, 0x5e, 0x00, 0x89,
    0x5e, 0x03, 0x81, 0x5e, 0xce, 0x9a, 0x00, 0x89,
    0x9a, 0x05, 0x9d, 0x09, 0x01, 0x85, 0x09, 0x09,
    0xc5, 0x77, 0x09, 0x89, 0x77, 0x00, 0x86, 0x77,
    0x00, 0x94, 0x77, 0x04, 0x92, 0x77, 0x62, 0x4f,
    0xda, 0x56, 0x60, 0x04, 0xca, 0x5b, 0x03, 0xb8,
    0x5b, 0x06, 0x90, 0x5b, 0x3f, 0x80, 0x93, 0x80,
    0x67, 0x81, 0x30, 0x80, 0x44, 0x0a, 0x81, 0x30,
    0x0d, 0xf0, 0x07, 0x97, 0x93, 0x07, 0xe2, 0x9f,
    0x93, 0xe1, 0x75, 0x44, 0x29, 0x88, 0x93, 0x70,
    0x12, 0x86, 0x83, 0x3e, 0x00, 0x86, 0x3e, 0x00]"

definition unicode_script_table_17 :: "u8 list" where
  "unicode_script_table_17 = [
    0x81, 0x3e, 0x00, 0x80, 0x3e, 0xe0, 0xbe, 0x36,
    0x82, 0x3e, 0x0e, 0x80, 0x36, 0x1c, 0x82, 0x36,
    0x01, 0x80, 0x3e, 0x0d, 0x83, 0x3e, 0x07, 0xe1,
    0x2b, 0x67, 0x68, 0xa3, 0xe0, 0x0a, 0x23, 0x04,
    0x8c, 0x23, 0x02, 0x88, 0x23, 0x06, 0x89, 0x23,
    0x01, 0x83, 0x23, 0x83, 0x19, 0x70, 0x01, 0xfb,
    0xad, 0x38, 0x01, 0x96, 0x38, 0x08, 0xe0, 0x13,
    0x19, 0x3b, 0xe0, 0x95, 0x19, 0x09, 0xa6, 0x19,
    0x01, 0xbd, 0x19, 0x82, 0x38, 0x90, 0x19, 0x87,
    0x38, 0x81, 0x19, 0x86, 0x38, 0x9d, 0x19, 0x83,
    0x38, 0xbc, 0x19, 0x14, 0xc5, 0x2c, 0x60, 0x19,
    0x93, 0x19, 0x0b, 0x93, 0x19, 0x0b, 0xd6, 0x19,
    0x08, 0x98, 0x19, 0x60, 0x26, 0xd4, 0x19, 0x00,
    0xc6, 0x19, 0x00, 0x81, 0x19, 0x01, 0x80, 0x19,
    0x01, 0x81, 0x19, 0x01, 0x83, 0x19, 0x00, 0x8b,
    0x19, 0x00, 0x80, 0x19, 0x00, 0x86, 0x19, 0x00]"

definition unicode_script_table_18 :: "u8 list" where
  "unicode_script_table_18 = [
    0xc0, 0x19, 0x00, 0x83, 0x19, 0x01, 0x87, 0x19,
    0x00, 0x86, 0x19, 0x00, 0x9b, 0x19, 0x00, 0x83,
    0x19, 0x00, 0x84, 0x19, 0x00, 0x80, 0x19, 0x02,
    0x86, 0x19, 0x00, 0xe0, 0xf3, 0x19, 0x01, 0xe0,
    0xc3, 0x19, 0x01, 0xb1, 0x19, 0xe2, 0x2b, 0x84,
    0x0e, 0x84, 0x84, 0x00, 0x8e, 0x84, 0x63, 0xef,
    0x9e, 0x47, 0x05, 0x85, 0x47, 0x60, 0x74, 0x86,
    0x29, 0x00, 0x90, 0x29, 0x01, 0x86, 0x29, 0x00,
    0x81, 0x29, 0x00, 0x84, 0x29, 0x04, 0xbd, 0x1d,
    0x20, 0x80, 0x1d, 0x60, 0x0f, 0xac, 0x68, 0x02,
    0x8d, 0x68, 0x01, 0x89, 0x68, 0x03, 0x81, 0x68,
    0x60, 0xdf, 0x9e, 0x9b, 0x10, 0xb9, 0x9f, 0x04,
    0x80, 0x9f, 0x61, 0x6f, 0xa9, 0x62, 0x62, 0x85,
    0x86, 0x27, 0x00, 0x83, 0x27, 0x00, 0x81, 0x27,
    0x00, 0x8e, 0x27, 0x00, 0xe0, 0x64, 0x58, 0x01,
    0x8f, 0x58, 0x28, 0xcb, 0x01, 0x03, 0x89, 0x01]"

definition unicode_script_table_19 :: "u8 list" where
  "unicode_script_table_19 = [
    0x03, 0x81, 0x01, 0x62, 0xb0, 0xc3, 0x19, 0x4b,
    0xbc, 0x19, 0x60, 0x61, 0x83, 0x04, 0x00, 0x9a,
    0x04, 0x00, 0x81, 0x04, 0x00, 0x80, 0x04, 0x01,
    0x80, 0x04, 0x00, 0x89, 0x04, 0x00, 0x83, 0x04,
    0x00, 0x80, 0x04, 0x00, 0x80, 0x04, 0x05, 0x80,
    0x04, 0x03, 0x80, 0x04, 0x00, 0x80, 0x04, 0x00,
    0x80, 0x04, 0x00, 0x82, 0x04, 0x00, 0x81, 0x04,
    0x00, 0x80, 0x04, 0x01, 0x80, 0x04, 0x00, 0x80,
    0x04, 0x00, 0x80, 0x04, 0x00, 0x80, 0x04, 0x00,
    0x80, 0x04, 0x00, 0x81, 0x04, 0x00, 0x80, 0x04,
    0x01, 0x83, 0x04, 0x00, 0x86, 0x04, 0x00, 0x83,
    0x04, 0x00, 0x83, 0x04, 0x00, 0x80, 0x04, 0x00,
    0x89, 0x04, 0x00, 0x90, 0x04, 0x04, 0x82, 0x04,
    0x00, 0x84, 0x04, 0x00, 0x90, 0x04, 0x33, 0x81,
    0x04, 0x60, 0xad, 0xab, 0x19, 0x03, 0xe0, 0x03,
    0x19, 0x0b, 0x8e, 0x19, 0x01, 0x8e, 0x19, 0x00]"

definition unicode_script_table_20 :: "u8 list" where
  "unicode_script_table_20 = [
    0x8e, 0x19, 0x00, 0xa4, 0x19, 0x09, 0xe0, 0x4d,
    0x19, 0x37, 0x99, 0x19, 0x80, 0x36, 0x81, 0x19,
    0x0c, 0xab, 0x19, 0x03, 0x88, 0x19, 0x06, 0x81,
    0x19, 0x0d, 0x85, 0x19, 0x60, 0x39, 0xe3, 0x77,
    0x19, 0x03, 0x90, 0x19, 0x02, 0x8c, 0x19, 0x02,
    0xe0, 0x16, 0x19, 0x03, 0xde, 0x19, 0x05, 0x8b,
    0x19, 0x03, 0x80, 0x19, 0x0e, 0x8b, 0x19, 0x03,
    0xb7, 0x19, 0x07, 0x89, 0x19, 0x05, 0xa7, 0x19,
    0x07, 0x9d, 0x19, 0x01, 0x81, 0x19, 0x4d, 0xe0,
    0xf3, 0x19, 0x0b, 0x8d, 0x19, 0x01, 0x8c, 0x19,
    0x02, 0x88, 0x19, 0x06, 0xad, 0x19, 0x00, 0x86,
    0x19, 0x07, 0x8d, 0x19, 0x03, 0x88, 0x19, 0x06,
    0x88, 0x19, 0x06, 0xe0, 0x32, 0x19, 0x00, 0xb6,
    0x19, 0x24, 0x89, 0x19, 0x63, 0xa5, 0xf0, 0x96,
    0x7f, 0x30, 0x1f, 0xef, 0xd9, 0x30, 0x05, 0xe0,
    0x7d, 0x30, 0x01, 0xf0, 0x06, 0x21, 0x30, 0x0d]"

definition unicode_script_table_21 :: "u8 list" where
  "unicode_script_table_21 = [
    0xf0, 0x0c, 0xd0, 0x30, 0x6b, 0xbe, 0xe1, 0xbd,
    0x30, 0x65, 0x81, 0xf0, 0x02, 0xea, 0x30, 0x04,
    0xef, 0xff, 0x30, 0x7a, 0xcb, 0xf0, 0x80, 0x19,
    0x1d, 0xdf, 0x19, 0x60, 0x1f, 0xe0, 0x8f, 0x38]"

definition unicode_script_table :: "u8 list" where
  "unicode_script_table = concat [
    unicode_script_table_0, unicode_script_table_1, unicode_script_table_2,
    unicode_script_table_3, unicode_script_table_4, unicode_script_table_5,
    unicode_script_table_6, unicode_script_table_7, unicode_script_table_8,
    unicode_script_table_9, unicode_script_table_10, unicode_script_table_11,
    unicode_script_table_12, unicode_script_table_13, unicode_script_table_14,
    unicode_script_table_15, unicode_script_table_16, unicode_script_table_17,
    unicode_script_table_18, unicode_script_table_19, unicode_script_table_20,
    unicode_script_table_21]"

definition unicode_script_ext_table_0 :: "u8 list" where
  "unicode_script_ext_table_0 = [
    0x82, 0xc1, 0x00, 0x00, 0x01, 0x2c, 0x01, 0x00,
    0x00, 0x01, 0x2c, 0x1c, 0x00, 0x0c, 0x01, 0x47,
    0x80, 0x92, 0x00, 0x00, 0x02, 0x1d, 0x6e, 0x00,
    0x02, 0x1d, 0x29, 0x01, 0x02, 0x1d, 0x47, 0x00,
    0x02, 0x1d, 0x29, 0x81, 0x03, 0x00, 0x00, 0x06,
    0x04, 0x66, 0x32, 0x8b, 0x95, 0xa1, 0x0d, 0x00,
    0x00, 0x06, 0x04, 0x66, 0x32, 0x8b, 0x95, 0xa1,
    0x00, 0x03, 0x04, 0x8b, 0x95, 0x01, 0x00, 0x00,
    0x07, 0x01, 0x04, 0x66, 0x32, 0x8b, 0x95, 0xa1,
    0x1f, 0x00, 0x00, 0x09, 0x01, 0x04, 0x52, 0x53,
    0x73, 0x7c, 0x32, 0x86, 0x8b, 0x09, 0x00, 0x0a,
    0x02, 0x04, 0x8b, 0x09, 0x00, 0x09, 0x03, 0x04,
    0x95, 0xa1, 0x05, 0x00, 0x00, 0x02, 0x04, 0x8b,
    0x62, 0x00, 0x00, 0x02, 0x04, 0x32, 0x81, 0xfb,
    0x00, 0x00, 0x0d, 0x0b, 0x20, 0x2b, 0x2d, 0x2f,
    0x3d, 0x47, 0x51, 0x74, 0x81, 0x92, 0x94, 0x99]"

definition unicode_script_ext_table_1 :: "u8 list" where
  "unicode_script_ext_table_1 = [
    0x00, 0x0c, 0x0b, 0x20, 0x2b, 0x2d, 0x2f, 0x3d,
    0x47, 0x51, 0x74, 0x92, 0x94, 0x99, 0x10, 0x00,
    0x00, 0x14, 0x0b, 0x20, 0x22, 0x2e, 0x55, 0x2b,
    0x2d, 0x2f, 0x3d, 0x50, 0x51, 0x63, 0x74, 0x45,
    0x85, 0x8a, 0x91, 0x92, 0x94, 0x99, 0x00, 0x15,
    0x0b, 0x20, 0x22, 0x2e, 0x55, 0x2b, 0x2d, 0x2f,
    0x3d, 0x49, 0x50, 0x51, 0x63, 0x74, 0x45, 0x85,
    0x8a, 0x91, 0x92, 0x94, 0x99, 0x09, 0x04, 0x20,
    0x22, 0x3c, 0x50, 0x75, 0x00, 0x09, 0x03, 0x0b,
    0x15, 0x8a, 0x75, 0x00, 0x09, 0x02, 0x2f, 0x5f,
    0x75, 0x00, 0x09, 0x02, 0x2d, 0x43, 0x80, 0x75,
    0x00, 0x0d, 0x02, 0x2b, 0x92, 0x80, 0x71, 0x00,
    0x09, 0x02, 0x3d, 0x63, 0x82, 0xcf, 0x00, 0x09,
    0x03, 0x15, 0x60, 0x8e, 0x80, 0x30, 0x00, 0x00,
    0x02, 0x28, 0x47, 0x85, 0xb8, 0x00, 0x01, 0x04,
    0x11, 0x33, 0x8d, 0x8c, 0x80, 0x4a, 0x00, 0x01]"

definition unicode_script_ext_table_2 :: "u8 list" where
  "unicode_script_ext_table_2 = [
    0x02, 0x5d, 0x7a, 0x00, 0x00, 0x00, 0x02, 0x5d,
    0x7a, 0x84, 0x49, 0x00, 0x00, 0x04, 0x0b, 0x20,
    0x2b, 0x3d, 0x00, 0x01, 0x20, 0x00, 0x04, 0x0b,
    0x20, 0x2b, 0x3d, 0x00, 0x02, 0x20, 0x2b, 0x00,
    0x01, 0x20, 0x01, 0x02, 0x0b, 0x20, 0x00, 0x02,
    0x20, 0x81, 0x00, 0x02, 0x0b, 0x20, 0x00, 0x02,
    0x20, 0x81, 0x00, 0x06, 0x20, 0x3d, 0x51, 0x74,
    0x92, 0x94, 0x00, 0x01, 0x20, 0x01, 0x02, 0x20,
    0x81, 0x01, 0x01, 0x20, 0x00, 0x02, 0x20, 0x81,
    0x00, 0x02, 0x0b, 0x20, 0x06, 0x01, 0x20, 0x00,
    0x02, 0x20, 0x63, 0x00, 0x02, 0x0b, 0x20, 0x01,
    0x01, 0x20, 0x00, 0x02, 0x0b, 0x20, 0x03, 0x01,
    0x20, 0x00, 0x08, 0x0b, 0x20, 0x2b, 0x3d, 0x63,
    0x74, 0x94, 0x99, 0x00, 0x02, 0x20, 0x2b, 0x00,
    0x03, 0x20, 0x2b, 0x3d, 0x01, 0x02, 0x0b, 0x20,
    0x00, 0x01, 0x0b, 0x01, 0x02, 0x20, 0x2b, 0x00]"

definition unicode_script_ext_table_3 :: "u8 list" where
  "unicode_script_ext_table_3 = [
    0x01, 0x63, 0x80, 0x44, 0x00, 0x01, 0x01, 0x2c,
    0x35, 0x00, 0x00, 0x02, 0x1d, 0x8b, 0x00, 0x00,
    0x00, 0x01, 0x8b, 0x81, 0xb3, 0x00, 0x00, 0x02,
    0x47, 0x5d, 0x80, 0x3f, 0x00, 0x00, 0x03, 0x20,
    0x2b, 0x47, 0x8c, 0xd1, 0x00, 0x00, 0x02, 0x1d,
    0x29, 0x81, 0x3c, 0x00, 0x01, 0x06, 0x0d, 0x31,
    0x30, 0x36, 0x3e, 0xa2, 0x00, 0x05, 0x0d, 0x31,
    0x30, 0x36, 0x3e, 0x01, 0x00, 0x00, 0x01, 0x30,
    0x00, 0x00, 0x09, 0x06, 0x0d, 0x31, 0x30, 0x36,
    0x3e, 0xa2, 0x00, 0x00, 0x00, 0x05, 0x0d, 0x31,
    0x30, 0x36, 0x3e, 0x07, 0x06, 0x0d, 0x31, 0x30,
    0x36, 0x3e, 0xa2, 0x03, 0x05, 0x0d, 0x31, 0x30,
    0x36, 0x3e, 0x09, 0x00, 0x03, 0x02, 0x0d, 0x30,
    0x01, 0x00, 0x00, 0x05, 0x0d, 0x31, 0x30, 0x36,
    0x3e, 0x04, 0x02, 0x36, 0x3e, 0x00, 0x00, 0x00,
    0x05, 0x0d, 0x31, 0x30, 0x36, 0x3e, 0x03, 0x00]"

definition unicode_script_ext_table_4 :: "u8 list" where
  "unicode_script_ext_table_4 = [
    0x01, 0x03, 0x30, 0x36, 0x3e, 0x01, 0x01, 0x30,
    0x58, 0x00, 0x03, 0x02, 0x36, 0x3e, 0x02, 0x00,
    0x00, 0x02, 0x36, 0x3e, 0x59, 0x00, 0x00, 0x06,
    0x0d, 0x31, 0x30, 0x36, 0x3e, 0xa2, 0x00, 0x02,
    0x36, 0x3e, 0x80, 0x12, 0x00, 0x0f, 0x01, 0x30,
    0x1f, 0x00, 0x23, 0x01, 0x30, 0x3b, 0x00, 0x27,
    0x01, 0x30, 0x37, 0x00, 0x30, 0x01, 0x30, 0x0e,
    0x00, 0x0b, 0x01, 0x30, 0x32, 0x00, 0x00, 0x01,
    0x30, 0x57, 0x00, 0x18, 0x01, 0x30, 0x09, 0x00,
    0x04, 0x01, 0x30, 0x5f, 0x00, 0x1e, 0x01, 0x30,
    0xc0, 0x31, 0xef, 0x00, 0x00, 0x02, 0x1d, 0x29,
    0x80, 0x0f, 0x00, 0x07, 0x02, 0x30, 0x47, 0x80,
    0xa7, 0x00, 0x02, 0x0e, 0x20, 0x22, 0x2d, 0x2f,
    0x43, 0x3d, 0x3c, 0x50, 0x51, 0x5c, 0x63, 0x45,
    0x91, 0x99, 0x02, 0x0d, 0x20, 0x22, 0x2d, 0x2f,
    0x43, 0x3d, 0x3c, 0x50, 0x5c, 0x63, 0x45, 0x91]"

definition unicode_script_ext_table_5 :: "u8 list" where
  "unicode_script_ext_table_5 = [
    0x99, 0x03, 0x0b, 0x20, 0x22, 0x2d, 0x2f, 0x43,
    0x3c, 0x50, 0x5c, 0x45, 0x91, 0x99, 0x80, 0x36,
    0x00, 0x00, 0x02, 0x0b, 0x20, 0x00, 0x00, 0x00,
    0x02, 0x20, 0x92, 0x39, 0x00, 0x00, 0x03, 0x40,
    0x47, 0x60, 0x80, 0x1f, 0x00, 0x00, 0x02, 0x10,
    0x3b, 0xc0, 0x12, 0xed, 0x00, 0x01, 0x02, 0x04,
    0x66, 0x80, 0x31, 0x00, 0x00, 0x02, 0x04, 0x95,
    0x09, 0x00, 0x00, 0x02, 0x04, 0x95, 0x46, 0x00,
    0x01, 0x05, 0x0d, 0x31, 0x30, 0x36, 0x3e, 0x80,
    0x99, 0x00, 0x04, 0x06, 0x0d, 0x31, 0x30, 0x36,
    0x3e, 0xa2, 0x09, 0x00, 0x00, 0x02, 0x36, 0x3e,
    0x2c, 0x00, 0x01, 0x02, 0x36, 0x3e, 0x80, 0xdf,
    0x00, 0x01, 0x03, 0x1e, 0x1c, 0x4b, 0x00, 0x02,
    0x1c, 0x4b, 0x03, 0x00, 0x2c, 0x03, 0x1c, 0x4a,
    0x4b, 0x02, 0x00, 0x08, 0x02, 0x1c, 0x4b, 0x81,
    0x1f, 0x00, 0x1b, 0x02, 0x04, 0x1a, 0x87, 0x75]"

definition unicode_script_ext_table_6 :: "u8 list" where
  "unicode_script_ext_table_6 = [
    0x00, 0x00, 0x02, 0x53, 0x73, 0x87, 0x8d, 0x00,
    0x00, 0x02, 0x2b, 0x92, 0x00, 0x00, 0x00, 0x02,
    0x2b, 0x92, 0x36, 0x00, 0x01, 0x02, 0x2b, 0x92,
    0x8c, 0x12, 0x00, 0x01, 0x02, 0x2b, 0x92, 0x00,
    0x00, 0x00, 0x02, 0x2b, 0x92, 0xc0, 0x5c, 0x4b,
    0x00, 0x03, 0x01, 0x23, 0x96, 0x3b, 0x00, 0x11,
    0x01, 0x30, 0x9e, 0x5d, 0x00, 0x01, 0x01, 0x30,
    0xce, 0xcd, 0x2d, 0x00]"

definition unicode_script_ext_table :: "u8 list" where
  "unicode_script_ext_table = concat [
    unicode_script_ext_table_0, unicode_script_ext_table_1, unicode_script_ext_table_2,
    unicode_script_ext_table_3, unicode_script_ext_table_4, unicode_script_ext_table_5,
    unicode_script_ext_table_6]"

end
