(* ===== verification/Name_Tables.thy ===== *)
theory Name_Tables
  imports Main
begin

text \<open>
  The name tables of \<^verbatim>\<open>libunicode-table.h\<close>: for every entry its names separated by commas, closed by a
  null character; a further null character ends the table.
\<close>

definition c_strings :: "string list \<Rightarrow> string" where
  "c_strings entries = concat (map (\<lambda>e. e @ [CHR 0x00]) entries) @ [CHR 0x00]"

definition unicode_gc_name_table_entries :: "string list" where
  "unicode_gc_name_table_entries = [
    ''Cn,Unassigned'',
    ''Lu,Uppercase_Letter'',
    ''Ll,Lowercase_Letter'',
    ''Lt,Titlecase_Letter'',
    ''Lm,Modifier_Letter'',
    ''Lo,Other_Letter'',
    ''Mn,Nonspacing_Mark'',
    ''Mc,Spacing_Mark'',
    ''Me,Enclosing_Mark'',
    ''Nd,Decimal_Number,digit'',
    ''Nl,Letter_Number'',
    ''No,Other_Number'',
    ''Sm,Math_Symbol'',
    ''Sc,Currency_Symbol'',
    ''Sk,Modifier_Symbol'',
    ''So,Other_Symbol'',
    ''Pc,Connector_Punctuation'',
    ''Pd,Dash_Punctuation'',
    ''Ps,Open_Punctuation'',
    ''Pe,Close_Punctuation'',
    ''Pi,Initial_Punctuation'',
    ''Pf,Final_Punctuation'',
    ''Po,Other_Punctuation'',
    ''Zs,Space_Separator'',
    ''Zl,Line_Separator'',
    ''Zp,Paragraph_Separator'',
    ''Cc,Control,cntrl'',
    ''Cf,Format'',
    ''Cs,Surrogate'',
    ''Co,Private_Use'',
    ''LC,Cased_Letter'',
    ''L,Letter'',
    ''M,Mark,Combining_Mark'',
    ''N,Number'',
    ''S,Symbol'',
    ''P,Punctuation,punct'',
    ''Z,Separator'',
    ''C,Other'']"

definition unicode_gc_name_table :: string where
  "unicode_gc_name_table = c_strings unicode_gc_name_table_entries"

definition unicode_script_name_table_entries :: "string list" where
  "unicode_script_name_table_entries = [
    ''Adlam,Adlm'',
    ''Ahom,Ahom'',
    ''Anatolian_Hieroglyphs,Hluw'',
    ''Arabic,Arab'',
    ''Armenian,Armn'',
    ''Avestan,Avst'',
    ''Balinese,Bali'',
    ''Bamum,Bamu'',
    ''Bassa_Vah,Bass'',
    ''Batak,Batk'',
    ''Bengali,Beng'',
    ''Bhaiksuki,Bhks'',
    ''Bopomofo,Bopo'',
    ''Brahmi,Brah'',
    ''Braille,Brai'',
    ''Buginese,Bugi'',
    ''Buhid,Buhd'',
    ''Canadian_Aboriginal,Cans'',
    ''Carian,Cari'',
    ''Caucasian_Albanian,Aghb'',
    ''Chakma,Cakm'',
    ''Cham,Cham'',
    ''Cherokee,Cher'',
    ''Chorasmian,Chrs'',
    ''Common,Zyyy'',
    ''Coptic,Copt,Qaac'',
    ''Cuneiform,Xsux'',
    ''Cypriot,Cprt'',
    ''Cyrillic,Cyrl'',
    ''Cypro_Minoan,Cpmn'',
    ''Deseret,Dsrt'',
    ''Devanagari,Deva'',
    ''Dives_Akuru,Diak'',
    ''Dogra,Dogr'',
    ''Duployan,Dupl'',
    ''Egyptian_Hieroglyphs,Egyp'',
    ''Elbasan,Elba'',
    ''Elymaic,Elym'',
    ''Ethiopic,Ethi'',
    ''Georgian,Geor'',
    ''Glagolitic,Glag'',
    ''Gothic,Goth'',
    ''Grantha,Gran'',
    ''Greek,Grek'',
    ''Gujarati,Gujr'',
    ''Gunjala_Gondi,Gong'',
    ''Gurmukhi,Guru'',
    ''Han,Hani'',
    ''Hangul,Hang'',
    ''Hanifi_Rohingya,Rohg'',
    ''Hanunoo,Hano'',
    ''Hatran,Hatr'',
    ''Hebrew,Hebr'',
    ''Hiragana,Hira'',
    ''Imperial_Aramaic,Armi'',
    ''Inherited,Zinh,Qaai'',
    ''Inscriptional_Pahlavi,Phli'',
    ''Inscriptional_Parthian,Prti'',
    ''Javanese,Java'',
    ''Kaithi,Kthi'',
    ''Kannada,Knda'',
    ''Katakana,Kana'',
    ''Kawi,Kawi'',
    ''Kayah_Li,Kali'',
    ''Kharoshthi,Khar'',
    ''Khmer,Khmr'',
    ''Khojki,Khoj'',
    ''Khitan_Small_Script,Kits'',
    ''Khudawadi,Sind'',
    ''Lao,Laoo'',
    ''Latin,Latn'',
    ''Lepcha,Lepc'',
    ''Limbu,Limb'',
    ''Linear_A,Lina'',
    ''Linear_B,Linb'',
    ''Lisu,Lisu'',
    ''Lycian,Lyci'',
    ''Lydian,Lydi'',
    ''Makasar,Maka'',
    ''Mahajani,Mahj'',
    ''Malayalam,Mlym'',
    ''Mandaic,Mand'',
    ''Manichaean,Mani'',
    ''Marchen,Marc'',
    ''Masaram_Gondi,Gonm'',
    ''Medefaidrin,Medf'',
    ''Meetei_Mayek,Mtei'',
    ''Mende_Kikakui,Mend'',
    ''Meroitic_Cursive,Merc'',
    ''Meroitic_Hieroglyphs,Mero'',
    ''Miao,Plrd'',
    ''Modi,Modi'',
    ''Mongolian,Mong'',
    ''Mro,Mroo'',
    ''Multani,Mult'',
    ''Myanmar,Mymr'',
    ''Nabataean,Nbat'',
    ''Nag_Mundari,Nagm'',
    ''Nandinagari,Nand'',
    ''New_Tai_Lue,Talu'',
    ''Newa,Newa'',
    ''Nko,Nkoo'',
    ''Nushu,Nshu'',
    ''Nyiakeng_Puachue_Hmong,Hmnp'',
    ''Ogham,Ogam'',
    ''Ol_Chiki,Olck'',
    ''Old_Hungarian,Hung'',
    ''Old_Italic,Ital'',
    ''Old_North_Arabian,Narb'',
    ''Old_Permic,Perm'',
    ''Old_Persian,Xpeo'',
    ''Old_Sogdian,Sogo'',
    ''Old_South_Arabian,Sarb'',
    ''Old_Turkic,Orkh'',
    ''Old_Uyghur,Ougr'',
    ''Oriya,Orya'',
    ''Osage,Osge'',
    ''Osmanya,Osma'',
    ''Pahawh_Hmong,Hmng'',
    ''Palmyrene,Palm'',
    ''Pau_Cin_Hau,Pauc'',
    ''Phags_Pa,Phag'',
    ''Phoenician,Phnx'',
    ''Psalter_Pahlavi,Phlp'',
    ''Rejang,Rjng'',
    ''Runic,Runr'',
    ''Samaritan,Samr'',
    ''Saurashtra,Saur'',
    ''Sharada,Shrd'',
    ''Shavian,Shaw'',
    ''Siddham,Sidd'',
    ''SignWriting,Sgnw'',
    ''Sinhala,Sinh'',
    ''Sogdian,Sogd'',
    ''Sora_Sompeng,Sora'',
    ''Soyombo,Soyo'',
    ''Sundanese,Sund'',
    ''Syloti_Nagri,Sylo'',
    ''Syriac,Syrc'',
    ''Tagalog,Tglg'',
    ''Tagbanwa,Tagb'',
    ''Tai_Le,Tale'',
    ''Tai_Tham,Lana'',
    ''Tai_Viet,Tavt'',
    ''Takri,Takr'',
    ''Tamil,Taml'',
    ''Tangut,Tang'',
    ''Telugu,Telu'',
    ''Thaana,Thaa'',
    ''Thai,Thai'',
    ''Tibetan,Tibt'',
    ''Tifinagh,Tfng'',
    ''Tirhuta,Tirh'',
    ''Tangsa,Tnsa'',
    ''Toto,Toto'',
    ''Ugaritic,Ugar'',
    ''Vai,Vaii'',
    ''Vithkuqi,Vith'',
    ''Wancho,Wcho'',
    ''Warang_Citi,Wara'',
    ''Yezidi,Yezi'',
    ''Yi,Yiii'',
    ''Zanabazar_Square,Zanb'']"

definition unicode_script_name_table :: string where
  "unicode_script_name_table = c_strings unicode_script_name_table_entries"

definition unicode_prop_name_table_entries :: "string list" where
  "unicode_prop_name_table_entries = [
    ''ASCII_Hex_Digit,AHex'',
    ''Bidi_Control,Bidi_C'',
    ''Dash'',
    ''Deprecated,Dep'',
    ''Diacritic,Dia'',
    ''Extender,Ext'',
    ''Hex_Digit,Hex'',
    ''IDS_Binary_Operator,IDSB'',
    ''IDS_Trinary_Operator,IDST'',
    ''Ideographic,Ideo'',
    ''Join_Control,Join_C'',
    ''Logical_Order_Exception,LOE'',
    ''Noncharacter_Code_Point,NChar'',
    ''Pattern_Syntax,Pat_Syn'',
    ''Pattern_White_Space,Pat_WS'',
    ''Quotation_Mark,QMark'',
    ''Radical'',
    ''Regional_Indicator,RI'',
    ''Sentence_Terminal,STerm'',
    ''Soft_Dotted,SD'',
    ''Terminal_Punctuation,Term'',
    ''Unified_Ideograph,UIdeo'',
    ''Variation_Selector,VS'',
    ''White_Space,space'',
    ''Bidi_Mirrored,Bidi_M'',
    ''Emoji'',
    ''Emoji_Component,EComp'',
    ''Emoji_Modifier,EMod'',
    ''Emoji_Modifier_Base,EBase'',
    ''Emoji_Presentation,EPres'',
    ''Extended_Pictographic,ExtPict'',
    ''Default_Ignorable_Code_Point,DI'',
    ''ID_Start,IDS'',
    ''Case_Ignorable,CI'',
    ''ASCII'',
    ''Alphabetic,Alpha'',
    ''Any'',
    ''Assigned'',
    ''Cased'',
    ''Changes_When_Casefolded,CWCF'',
    ''Changes_When_Casemapped,CWCM'',
    ''Changes_When_Lowercased,CWL'',
    ''Changes_When_NFKC_Casefolded,CWKCF'',
    ''Changes_When_Titlecased,CWT'',
    ''Changes_When_Uppercased,CWU'',
    ''Grapheme_Base,Gr_Base'',
    ''Grapheme_Extend,Gr_Ext'',
    ''ID_Continue,IDC'',
    ''Lowercase,Lower'',
    ''Math'',
    ''Uppercase,Upper'',
    ''XID_Continue,XIDC'',
    ''XID_Start,XIDS'']"

definition unicode_prop_name_table :: string where
  "unicode_prop_name_table = c_strings unicode_prop_name_table_entries"

abbreviation (input) UNICODE_GC_Cn :: nat where "UNICODE_GC_Cn \<equiv> 0"
abbreviation (input) UNICODE_GC_Lu :: nat where "UNICODE_GC_Lu \<equiv> 1"
abbreviation (input) UNICODE_GC_Ll :: nat where "UNICODE_GC_Ll \<equiv> 2"
abbreviation (input) UNICODE_GC_Lt :: nat where "UNICODE_GC_Lt \<equiv> 3"
abbreviation (input) UNICODE_GC_Lm :: nat where "UNICODE_GC_Lm \<equiv> 4"
abbreviation (input) UNICODE_GC_Lo :: nat where "UNICODE_GC_Lo \<equiv> 5"
abbreviation (input) UNICODE_GC_Mn :: nat where "UNICODE_GC_Mn \<equiv> 6"
abbreviation (input) UNICODE_GC_Mc :: nat where "UNICODE_GC_Mc \<equiv> 7"
abbreviation (input) UNICODE_GC_Me :: nat where "UNICODE_GC_Me \<equiv> 8"
abbreviation (input) UNICODE_GC_Nd :: nat where "UNICODE_GC_Nd \<equiv> 9"
abbreviation (input) UNICODE_GC_Nl :: nat where "UNICODE_GC_Nl \<equiv> 10"
abbreviation (input) UNICODE_GC_No :: nat where "UNICODE_GC_No \<equiv> 11"
abbreviation (input) UNICODE_GC_Sm :: nat where "UNICODE_GC_Sm \<equiv> 12"
abbreviation (input) UNICODE_GC_Sc :: nat where "UNICODE_GC_Sc \<equiv> 13"
abbreviation (input) UNICODE_GC_Sk :: nat where "UNICODE_GC_Sk \<equiv> 14"
abbreviation (input) UNICODE_GC_So :: nat where "UNICODE_GC_So \<equiv> 15"
abbreviation (input) UNICODE_GC_Pc :: nat where "UNICODE_GC_Pc \<equiv> 16"
abbreviation (input) UNICODE_GC_Pd :: nat where "UNICODE_GC_Pd \<equiv> 17"
abbreviation (input) UNICODE_GC_Ps :: nat where "UNICODE_GC_Ps \<equiv> 18"
abbreviation (input) UNICODE_GC_Pe :: nat where "UNICODE_GC_Pe \<equiv> 19"
abbreviation (input) UNICODE_GC_Pi :: nat where "UNICODE_GC_Pi \<equiv> 20"
abbreviation (input) UNICODE_GC_Pf :: nat where "UNICODE_GC_Pf \<equiv> 21"
abbreviation (input) UNICODE_GC_Po :: nat where "UNICODE_GC_Po \<equiv> 22"
abbreviation (input) UNICODE_GC_Zs :: nat where "UNICODE_GC_Zs \<equiv> 23"
abbreviation (input) UNICODE_GC_Zl :: nat where "UNICODE_GC_Zl \<equiv> 24"
abbreviation (input) UNICODE_GC_Zp :: nat where "UNICODE_GC_Zp \<equiv> 25"
abbreviation (input) UNICODE_GC_Cc :: nat where "UNICODE_GC_Cc \<equiv> 26"
abbreviation (input) UNICODE_GC_Cf :: nat where "UNICODE_GC_Cf \<equiv> 27"
abbreviation (input) UNICODE_GC_Cs :: nat where "UNICODE_GC_Cs \<equiv> 28"
abbreviation (input) UNICODE_GC_Co :: nat where "UNICODE_GC_Co \<equiv> 29"
abbreviation (input) UNICODE_GC_LC :: nat where "UNICODE_GC_LC \<equiv> 30"
abbreviation (input) UNICODE_GC_L :: nat where "UNICODE_GC_L \<equiv> 31"
abbreviation (input) UNICODE_GC_M :: nat where "UNICODE_GC_M \<equiv> 32"
abbreviation (input) UNICODE_GC_N :: nat where "UNICODE_GC_N \<equiv> 33"
abbreviation (input) UNICODE_GC_S :: nat where "UNICODE_GC_S \<equiv> 34"
abbreviation (input) UNICODE_GC_P :: nat where "UNICODE_GC_P \<equiv> 35"
abbreviation (input) UNICODE_GC_Z :: nat where "UNICODE_GC_Z \<equiv> 36"
abbreviation (input) UNICODE_GC_C :: nat where "UNICODE_GC_C \<equiv> 37"
abbreviation (input) UNICODE_GC_COUNT :: nat where "UNICODE_GC_COUNT \<equiv> 38"

abbreviation (input) UNICODE_PROP_Hyphen :: nat where "UNICODE_PROP_Hyphen \<equiv> 0"
abbreviation (input) UNICODE_PROP_Other_Math :: nat where "UNICODE_PROP_Other_Math \<equiv> 1"
abbreviation (input) UNICODE_PROP_Other_Alphabetic :: nat where "UNICODE_PROP_Other_Alphabetic \<equiv> 2"
abbreviation (input) UNICODE_PROP_Other_Lowercase :: nat where "UNICODE_PROP_Other_Lowercase \<equiv> 3"
abbreviation (input) UNICODE_PROP_Other_Uppercase :: nat where "UNICODE_PROP_Other_Uppercase \<equiv> 4"
abbreviation (input) UNICODE_PROP_Other_Grapheme_Extend :: nat where "UNICODE_PROP_Other_Grapheme_Extend \<equiv> 5"
abbreviation (input) UNICODE_PROP_Other_Default_Ignorable_Code_Point :: nat where "UNICODE_PROP_Other_Default_Ignorable_Code_Point \<equiv> 6"
abbreviation (input) UNICODE_PROP_Other_ID_Start :: nat where "UNICODE_PROP_Other_ID_Start \<equiv> 7"
abbreviation (input) UNICODE_PROP_Other_ID_Continue :: nat where "UNICODE_PROP_Other_ID_Continue \<equiv> 8"
abbreviation (input) UNICODE_PROP_Prepended_Concatenation_Mark :: nat where "UNICODE_PROP_Prepended_Concatenation_Mark \<equiv> 9"
abbreviation (input) UNICODE_PROP_ID_Continue1 :: nat where "UNICODE_PROP_ID_Continue1 \<equiv> 10"
abbreviation (input) UNICODE_PROP_XID_Start1 :: nat where "UNICODE_PROP_XID_Start1 \<equiv> 11"
abbreviation (input) UNICODE_PROP_XID_Continue1 :: nat where "UNICODE_PROP_XID_Continue1 \<equiv> 12"
abbreviation (input) UNICODE_PROP_Changes_When_Titlecased1 :: nat where "UNICODE_PROP_Changes_When_Titlecased1 \<equiv> 13"
abbreviation (input) UNICODE_PROP_Changes_When_Casefolded1 :: nat where "UNICODE_PROP_Changes_When_Casefolded1 \<equiv> 14"
abbreviation (input) UNICODE_PROP_Changes_When_NFKC_Casefolded1 :: nat where "UNICODE_PROP_Changes_When_NFKC_Casefolded1 \<equiv> 15"
abbreviation (input) UNICODE_PROP_ASCII_Hex_Digit :: nat where "UNICODE_PROP_ASCII_Hex_Digit \<equiv> 16"
abbreviation (input) UNICODE_PROP_Bidi_Control :: nat where "UNICODE_PROP_Bidi_Control \<equiv> 17"
abbreviation (input) UNICODE_PROP_Dash :: nat where "UNICODE_PROP_Dash \<equiv> 18"
abbreviation (input) UNICODE_PROP_Deprecated :: nat where "UNICODE_PROP_Deprecated \<equiv> 19"
abbreviation (input) UNICODE_PROP_Diacritic :: nat where "UNICODE_PROP_Diacritic \<equiv> 20"
abbreviation (input) UNICODE_PROP_Extender :: nat where "UNICODE_PROP_Extender \<equiv> 21"
abbreviation (input) UNICODE_PROP_Hex_Digit :: nat where "UNICODE_PROP_Hex_Digit \<equiv> 22"
abbreviation (input) UNICODE_PROP_IDS_Binary_Operator :: nat where "UNICODE_PROP_IDS_Binary_Operator \<equiv> 23"
abbreviation (input) UNICODE_PROP_IDS_Trinary_Operator :: nat where "UNICODE_PROP_IDS_Trinary_Operator \<equiv> 24"
abbreviation (input) UNICODE_PROP_Ideographic :: nat where "UNICODE_PROP_Ideographic \<equiv> 25"
abbreviation (input) UNICODE_PROP_Join_Control :: nat where "UNICODE_PROP_Join_Control \<equiv> 26"
abbreviation (input) UNICODE_PROP_Logical_Order_Exception :: nat where "UNICODE_PROP_Logical_Order_Exception \<equiv> 27"
abbreviation (input) UNICODE_PROP_Noncharacter_Code_Point :: nat where "UNICODE_PROP_Noncharacter_Code_Point \<equiv> 28"
abbreviation (input) UNICODE_PROP_Pattern_Syntax :: nat where "UNICODE_PROP_Pattern_Syntax \<equiv> 29"
abbreviation (input) UNICODE_PROP_Pattern_White_Space :: nat where "UNICODE_PROP_Pattern_White_Space \<equiv> 30"
abbreviation (input) UNICODE_PROP_Quotation_Mark :: nat where "UNICODE_PROP_Quotation_Mark \<equiv> 31"
abbreviation (input) UNICODE_PROP_Radical :: nat where "UNICODE_PROP_Radical \<equiv> 32"
abbreviation (input) UNICODE_PROP_Regional_Indicator :: nat where "UNICODE_PROP_Regional_Indicator \<equiv> 33"
abbreviation (input) UNICODE_PROP_Sentence_Terminal :: nat where "UNICODE_PROP_Sentence_Terminal \<equiv> 34"
abbreviation (input) UNICODE_PROP_Soft_Dotted :: nat where "UNICODE_PROP_Soft_Dotted \<equiv> 35"
abbreviation (input) UNICODE_PROP_Terminal_Punctuation :: nat where "UNICODE_PROP_Terminal_Punctuation \<equiv> 36"
abbreviation (input) UNICODE_PROP_Unified_Ideograph :: nat where "UNICODE_PROP_Unified_Ideograph \<equiv> 37"
abbreviation (input) UNICODE_PROP_Variation_Selector :: nat where "UNICODE_PROP_Variation_Selector \<equiv> 38"
abbreviation (input) UNICODE_PROP_White_Space :: nat where "UNICODE_PROP_White_Space \<equiv> 39"
abbreviation (input) UNICODE_PROP_Bidi_Mirrored :: nat where "UNICODE_PROP_Bidi_Mirrored \<equiv> 40"
abbreviation (input) UNICODE_PROP_Emoji :: nat where "UNICODE_PROP_Emoji \<equiv> 41"
abbreviation (input) UNICODE_PROP_Emoji_Component :: nat where "UNICODE_PROP_Emoji_Component \<equiv> 42"
abbreviation (input) UNICODE_PROP_Emoji_Modifier :: nat where "UNICODE_PROP_Emoji_Modifier \<equiv> 43"
abbreviation (input) UNICODE_PROP_Emoji_Modifier_Base :: nat where "UNICODE_PROP_Emoji_Modifier_Base \<equiv> 44"
abbreviation (input) UNICODE_PROP_Emoji_Presentation :: nat where "UNICODE_PROP_Emoji_Presentation \<equiv> 45"
abbreviation (input) UNICODE_PROP_Extended_Pictographic :: nat where "UNICODE_PROP_Extended_Pictographic \<equiv> 46"
abbreviation (input) UNICODE_PROP_Default_Ignorable_Code_Point :: nat where "UNICODE_PROP_Default_Ignorable_Code_Point \<equiv> 47"
abbreviation (input) UNICODE_PROP_ID_Start :: nat where "UNICODE_PROP_ID_Start \<equiv> 48"
abbreviation (input) UNICODE_PROP_Case_Ignorable :: nat where "UNICODE_PROP_Case_Ignorable \<equiv> 49"
abbreviation (input) UNICODE_PROP_ASCII :: nat where "UNICODE_PROP_ASCII \<equiv> 50"
abbreviation (input) UNICODE_PROP_Alphabetic :: nat where "UNICODE_PROP_Alphabetic \<equiv> 51"
abbreviation (input) UNICODE_PROP_Any :: nat where "UNICODE_PROP_Any \<equiv> 52"
abbreviation (input) UNICODE_PROP_Assigned :: nat where "UNICODE_PROP_Assigned \<equiv> 53"
abbreviation (input) UNICODE_PROP_Cased :: nat where "UNICODE_PROP_Cased \<equiv> 54"
abbreviation (input) UNICODE_PROP_Changes_When_Casefolded :: nat where "UNICODE_PROP_Changes_When_Casefolded \<equiv> 55"
abbreviation (input) UNICODE_PROP_Changes_When_Casemapped :: nat where "UNICODE_PROP_Changes_When_Casemapped \<equiv> 56"
abbreviation (input) UNICODE_PROP_Changes_When_Lowercased :: nat where "UNICODE_PROP_Changes_When_Lowercased \<equiv> 57"
abbreviation (input) UNICODE_PROP_Changes_When_NFKC_Casefolded :: nat where "UNICODE_PROP_Changes_When_NFKC_Casefolded \<equiv> 58"
abbreviation (input) UNICODE_PROP_Changes_When_Titlecased :: nat where "UNICODE_PROP_Changes_When_Titlecased \<equiv> 59"
abbreviation (input) UNICODE_PROP_Changes_When_Uppercased :: nat where "UNICODE_PROP_Changes_When_Uppercased \<equiv> 60"
abbreviation (input) UNICODE_PROP_Grapheme_Base :: nat where "UNICODE_PROP_Grapheme_Base \<equiv> 61"
abbreviation (input) UNICODE_PROP_Grapheme_Extend :: nat where "UNICODE_PROP_Grapheme_Extend \<equiv> 62"
abbreviation (input) UNICODE_PROP_ID_Continue :: nat where "UNICODE_PROP_ID_Continue \<equiv> 63"
abbreviation (input) UNICODE_PROP_Lowercase :: nat where "UNICODE_PROP_Lowercase \<equiv> 64"
abbreviation (input) UNICODE_PROP_Math :: nat where "UNICODE_PROP_Math \<equiv> 65"
abbreviation (input) UNICODE_PROP_Uppercase :: nat where "UNICODE_PROP_Uppercase \<equiv> 66"
abbreviation (input) UNICODE_PROP_XID_Continue :: nat where "UNICODE_PROP_XID_Continue \<equiv> 67"
abbreviation (input) UNICODE_PROP_XID_Start :: nat where "UNICODE_PROP_XID_Start \<equiv> 68"
abbreviation (input) UNICODE_PROP_Cased1 :: nat where "UNICODE_PROP_Cased1 \<equiv> 69"
abbreviation (input) UNICODE_PROP_COUNT :: nat where "UNICODE_PROP_COUNT \<equiv> 70"

abbreviation (input) UNICODE_SCRIPT_Unknown :: nat where "UNICODE_SCRIPT_Unknown \<equiv> 0"
abbreviation (input) UNICODE_SCRIPT_Common :: nat where "UNICODE_SCRIPT_Common \<equiv> 25"
abbreviation (input) UNICODE_SCRIPT_Inherited :: nat where "UNICODE_SCRIPT_Inherited \<equiv> 56"

end
