(* ===== verification/Unicode_Range.thy ===== *)
theory Unicode_Range
  imports Char_Range Unicode_Lookup Case_Conv Prop_Tables Gc_Tables Name_Tables
begin

text \<open>
  The functions of \<^verbatim>\<open>libunicode.c\<close> that decode a table into a character range: binary properties
  (\<open>unicode_prop1\<close>), general categories (\<open>unicode_general_category1\<close>), case conversion runs (\<open>unicode_case1\<close>)
  and scripts, and the lookup of a name. Each adds intervals to the range it is given and returns -1 as soon
  as one of the additions fails.
\<close>

section \<open>Names\<close>

text \<open>\<open>strchr (p, ',')\<close> up to the null character, and \<open>strlen\<close>; a string without null character is read past its end.\<close>

fun c_strchr :: "char \<Rightarrow> string \<Rightarrow> nat option cres" where
  "c_strchr ch [] = Inl OutOfBounds"
| "c_strchr ch (x # xs) =
     (if x = ch then Inr (Some 0) else if x = CHR 0x00 then Inr None
      else cbind (c_strchr ch xs) (\<lambda>r. Inr (map_option Suc r)))"

fun c_strlen :: "string \<Rightarrow> nat cres" where
  "c_strlen [] = Inl OutOfBounds"
| "c_strlen (x # xs) = (if x = CHR 0x00 then Inr 0 else cbind (c_strlen xs) (\<lambda>n. Inr (n + 1)))"

lemma c_strchr_in: "c_strchr ch (drop p s) = Inr r \<Longrightarrow> p < length s"
  by (cases "p < length s") auto

text \<open>
  The two loops of \<open>unicode_find_name\<close>: the inner one goes through the names of an entry and returns the
  position on a match or the pointer behind the entry, the outer one through the entries. Pointers are offsets
  into the table; \<open>name\<close> is the C string without its null character.
\<close>

function find_name_entry :: "string \<Rightarrow> nat \<Rightarrow> string \<Rightarrow> nat option cres" where
  "find_name_entry tbl p name =
     cbind (c_strchr CHR '','' (drop p tbl)) (\<lambda>r.
     cbind (case r of None \<Rightarrow> c_strlen (drop p tbl) | Some n \<Rightarrow> Inr n) (\<lambda>len.
     if len = length name \<and> take len (drop p tbl) = name then Inr None
     else if r = None then Inr (Some (p + len + 1))
     else find_name_entry tbl (p + len + 1) name))"
  by pat_completeness auto
termination
  by (relation "measure (\<lambda>(tbl, p, _). length tbl - p)") (auto dest!: c_strchr_in)

declare find_name_entry.simps [simp del]

lemma find_name_entry_progress: "find_name_entry tbl p name = Inr (Some q) \<Longrightarrow> p < q"
proof (induction tbl p name rule: find_name_entry.induct)
  case (1 tbl p name)
  show ?case
    using 1(2) unfolding find_name_entry.simps [of tbl p name]
    by (fastforce dest!: 1(1) split: if_splits option.splits)
qed

function find_name_loop :: "string \<Rightarrow> nat \<Rightarrow> string \<Rightarrow> nat \<Rightarrow> int cres" where
  "find_name_loop tbl p name pos =
     cbind (rd tbl p) (\<lambda>ch.
     if ch \<noteq> CHR 0x00 then
       cbind (find_name_entry tbl p name) (\<lambda>r. case r of
         None \<Rightarrow> Inr (int pos)
       | Some q \<Rightarrow> find_name_loop tbl q name (pos + 1))
     else Inr (-1))"
  by pat_completeness auto
termination
  by (relation "measure (\<lambda>(tbl, p, _, _). length tbl - p)")
    (auto dest!: find_name_entry_progress simp: rd_def split: if_splits)

declare find_name_loop.simps [simp del]

definition unicode_find_name :: "string \<Rightarrow> string \<Rightarrow> int cres" where
  "unicode_find_name name_table name = find_name_loop name_table 0 name 0"

section \<open>Binary properties\<close>

text \<open>
  One turn of the loop of \<open>unicode_prop1\<close>: the range after the interval of a packed byte's first run, its return
  value, and the pointer, the bounds of the run and the bit at the test that closes the loop body.
\<close>

definition prop1_next ::
  "u8 list \<Rightarrow> nat \<Rightarrow> u32 \<Rightarrow> bool \<Rightarrow> char_range \<Rightarrow> (char_range \<times> int \<times> nat \<times> u32 \<times> u32 \<times> bool) cres" where
  "prop1_next table p c bt cr =
     cbind (rd table p) (\<lambda>b8. let b = ucast b8 :: u32 in
       if b < 64 then
         let c' = c + (drop_bit 3 b + 1) in
         cbind (if bt then cr_add_interval cr c c' else Inr (cr, 0)) (\<lambda>(cr, r).
         Inr (cr, r, p + 1, c', c' + ((b AND 7) + 1), \<not> bt))
       else
         cbind (run_code table p b) (\<lambda>(p', n). Inr (cr, 0, p', c, c + n, bt)))"

lemma prop1_next_progress:
  "prop1_next table p c bt cr = Inr (cr', r, p', c0, c', bt') \<Longrightarrow> p < p' \<and> p < length table"
  by (auto simp: prop1_next_def run_code_def rd_def Let_def split: if_splits)

function prop1_loop :: "u8 list \<Rightarrow> nat \<Rightarrow> nat \<Rightarrow> u32 \<Rightarrow> bool \<Rightarrow> char_range \<Rightarrow> (char_range \<times> int) cres" where
  "prop1_loop table p_end p c bt cr =
     (if p < p_end then
        cbind (prop1_next table p c bt cr) (\<lambda>(cr, r, p', c0, c', bt').
        if r \<noteq> 0 then Inr (cr, -1)
        else
          cbind (if bt' then cr_add_interval cr c0 c' else Inr (cr, 0)) (\<lambda>(cr, r).
          if r \<noteq> 0 then Inr (cr, -1)
          else prop1_loop table p_end p' c' (\<not> bt') cr))
      else Inr (cr, 0))"
  by pat_completeness auto
termination
  by (relation "measure (\<lambda>(table, _, p, _, _, _). length table - p)") (auto dest!: prop1_next_progress)

declare prop1_loop.simps [simp del]

definition unicode_prop1 :: "char_range \<Rightarrow> nat \<Rightarrow> (char_range \<times> int) cres" where
  "unicode_prop1 cr prop_idx =
     cbind (rd unicode_prop_table prop_idx) (\<lambda>table.
     cbind (rd unicode_prop_len_table prop_idx) (\<lambda>len.
     prop1_loop table len 0 0 False cr))"

section \<open>General categories\<close>

text \<open>The run at \<open>p\<close>: the pointer behind it, its length minus 1 and its category number.\<close>

definition gc_next :: "u8 list \<Rightarrow> nat \<Rightarrow> (nat \<times> u32 \<times> u32) cres" where
  "gc_next table p =
     cbind (rd table p) (\<lambda>b8. let b = ucast b8 :: u32; n = drop_bit 5 b; v = b AND 0x1f in
       if n = 7 then
         cbind (rd table (p + 1)) (\<lambda>n8. let n = ucast n8 :: u32 in
         if n < 128 then Inr (p + 2, n + 7, v)
         else if n < 128 + 64 then
           cbind (rd table (p + 2)) (\<lambda>x.
           Inr (p + 3, (push_bit 8 (n - 128) OR ucast x) + (7 + 128), v))
         else
           cbind (rd table (p + 2)) (\<lambda>x. cbind (rd table (p + 3)) (\<lambda>y.
           Inr (p + 4, (push_bit 16 (n - 128 - 64) OR push_bit 8 (ucast x) OR ucast y) + (7 + 128 + 16384), v))))
       else Inr (p + 1, n, v))"

lemma gc_next_progress: "gc_next table p = Inr (p', n, v) \<Longrightarrow> p < p' \<and> p < length table"
  by (auto simp: gc_next_def rd_def Let_def split: if_splits)

text \<open>\<open>M(id)\<close> of category number \<open>id\<close>, and the loop over every second character of a run that alternates between upper and lower case.\<close>

definition gc_bit :: "nat \<Rightarrow> u32" where
  "gc_bit k = push_bit k 1"

fun alternate_loop :: "nat \<Rightarrow> u32 \<Rightarrow> u32 \<Rightarrow> char_range \<Rightarrow> (char_range \<times> int) cres" where
  "alternate_loop 0 c0 c cr = Inl OutOfFuel"
| "alternate_loop (Suc fuel) c0 c cr =
     (if c0 < c then
        cbind (cr_add_interval cr c0 (c0 + 1)) (\<lambda>(cr, r).
        if r \<noteq> 0 then Inr (cr, -1) else alternate_loop fuel (c0 + 2) c cr)
      else Inr (cr, 0))"

definition gc_add :: "u32 \<Rightarrow> u32 \<Rightarrow> u32 \<Rightarrow> u32 \<Rightarrow> char_range \<Rightarrow> (char_range \<times> int) cres" where
  "gc_add gc_mask v c0 c cr =
     (if v = 31 then
        let b = gc_mask AND (gc_bit UNICODE_GC_Lu OR gc_bit UNICODE_GC_Ll) in
        if b \<noteq> 0 then
          if b = gc_bit UNICODE_GC_Lu OR gc_bit UNICODE_GC_Ll then cr_add_interval cr c0 c
          else alternate_loop (unat c + 1)
                 (c0 + (if gc_mask AND gc_bit UNICODE_GC_Ll \<noteq> 0 then 1 else 0)) c cr
        else Inr (cr, 0)
      else if drop_bit (unat v) gc_mask AND 1 \<noteq> 0 then cr_add_interval cr c0 c
      else Inr (cr, 0))"

function gc1_loop :: "u8 list \<Rightarrow> u32 \<Rightarrow> nat \<Rightarrow> u32 \<Rightarrow> char_range \<Rightarrow> (char_range \<times> int) cres" where
  "gc1_loop table gc_mask p c cr =
     (if p < length table then
        cbind (gc_next table p) (\<lambda>(p', n, v).
        cbind (gc_add gc_mask v c (c + (n + 1)) cr) (\<lambda>(cr, r).
        if r \<noteq> 0 then Inr (cr, -1) else gc1_loop table gc_mask p' (c + (n + 1)) cr))
      else Inr (cr, 0))"
  by pat_completeness auto
termination
  by (relation "measure (\<lambda>(table, _, p, _, _). length table - p)") (auto dest!: gc_next_progress)

declare gc1_loop.simps [simp del]

definition unicode_general_category1 :: "char_range \<Rightarrow> u32 \<Rightarrow> (char_range \<times> int) cres" where
  "unicode_general_category1 cr gc_mask = gc1_loop unicode_gc_table gc_mask 0 0 cr"

section \<open>Case conversion runs\<close>

abbreviation (input) CASE_U :: u32 where "CASE_U \<equiv> 1"
abbreviation (input) CASE_L :: u32 where "CASE_L \<equiv> 2"
abbreviation (input) CASE_F :: u32 where "CASE_F \<equiv> 4"

text \<open>The run types each kind of conversion modifies; \<open>MR(x)\<close> is \<open>run_bit\<close>.\<close>

definition run_bit :: "u32 \<Rightarrow> u32" where
  "run_bit x = push_bit (unat x) 1"

definition tab_run_mask :: "u32 list" where
  "tab_run_mask = [
    run_bit RUN_TYPE_U OR run_bit RUN_TYPE_UF OR run_bit RUN_TYPE_UL OR run_bit RUN_TYPE_LSU OR
    run_bit RUN_TYPE_U2L_399_EXT2 OR run_bit RUN_TYPE_UF_D20 OR run_bit RUN_TYPE_UF_D1_EXT OR
    run_bit RUN_TYPE_U_EXT OR run_bit RUN_TYPE_UF_EXT2 OR run_bit RUN_TYPE_UF_EXT3,

    run_bit RUN_TYPE_L OR run_bit RUN_TYPE_LF OR run_bit RUN_TYPE_UL OR run_bit RUN_TYPE_LSU OR
    run_bit RUN_TYPE_U2L_399_EXT2 OR run_bit RUN_TYPE_LF_EXT OR run_bit RUN_TYPE_LF_EXT2,

    run_bit RUN_TYPE_UF OR run_bit RUN_TYPE_LF OR run_bit RUN_TYPE_UL OR run_bit RUN_TYPE_LSU OR
    run_bit RUN_TYPE_U2L_399_EXT2 OR run_bit RUN_TYPE_LF_EXT OR run_bit RUN_TYPE_LF_EXT2 OR
    run_bit RUN_TYPE_UF_D20 OR run_bit RUN_TYPE_UF_D1_EXT OR run_bit RUN_TYPE_LF_EXT OR
    run_bit RUN_TYPE_UF_EXT2 OR run_bit RUN_TYPE_UF_EXT3]"

fun ul_loop :: "nat \<Rightarrow> u32 \<Rightarrow> u32 \<Rightarrow> u32 \<Rightarrow> char_range \<Rightarrow> (char_range \<times> int) cres" where
  "ul_loop 0 code i len cr = Inl OutOfFuel"
| "ul_loop (Suc fuel) code i len cr =
     (if i < len then
        cbind (cr_add_interval cr (code + i) (code + i + 1)) (\<lambda>(cr, r).
        if r \<noteq> 0 then Inr (cr, -1) else ul_loop fuel code (i + 2) len cr)
      else Inr (cr, 0))"

definition add_if :: "bool \<Rightarrow> u32 \<Rightarrow> u32 \<Rightarrow> char_range \<times> int \<Rightarrow> (char_range \<times> int) cres" where
  "add_if b c1 c2 s = (case s of (cr, r) \<Rightarrow>
     if r \<noteq> 0 then Inr (cr, -1) else if b then cr_add_interval cr c1 c2 else Inr (cr, 0))"

definition case1_entry :: "u32 \<Rightarrow> u32 \<Rightarrow> char_range \<Rightarrow> (char_range \<times> int) cres" where
  "case1_entry case_mask v cr =
     (let type = case_type v; code = case_code v; len = case_len v in
      if type = RUN_TYPE_UL \<and> \<not> (case_mask AND CASE_U \<noteq> 0 \<and> case_mask AND (CASE_L OR CASE_F) \<noteq> 0) then
        ul_loop (unat len + 1) (code + (if case_mask AND CASE_U \<noteq> 0 then 1 else 0)) 0 len cr
      else if type = RUN_TYPE_LSU \<and> \<not> (case_mask AND CASE_U \<noteq> 0 \<and> case_mask AND (CASE_L OR CASE_F) \<noteq> 0) then
        cbind (add_if (case_mask AND CASE_U = 0) code (code + 1) (cr, 0)) (\<lambda>s.
        cbind (add_if True (code + 1) (code + 2) s) (\<lambda>s.
        add_if (case_mask AND CASE_U \<noteq> 0) (code + 2) (code + 3) s))
      else cr_add_interval cr code (code + len))"

fun case1_loop :: "u32 \<Rightarrow> u32 \<Rightarrow> u32 list \<Rightarrow> char_range \<Rightarrow> (char_range \<times> int) cres" where
  "case1_loop case_mask run_mask [] cr = Inr (cr, 0)"
| "case1_loop case_mask run_mask (v # vs) cr =
     cbind (if drop_bit (unat (case_type v)) run_mask AND 1 \<noteq> 0 then case1_entry case_mask v cr else Inr (cr, 0)) (\<lambda>(cr, r).
     if r \<noteq> 0 then Inr (cr, -1) else case1_loop case_mask run_mask vs cr)"

definition unicode_case1 :: "char_range \<Rightarrow> u32 \<Rightarrow> (char_range \<times> int) cres" where
  "unicode_case1 cr case_mask =
     (if case_mask = 0 then Inr (cr, 0)
      else
        let run_mask = (if case_mask AND 1 \<noteq> 0 then tab_run_mask ! 0 else 0) OR
                   (if drop_bit 1 case_mask AND 1 \<noteq> 0 then tab_run_mask ! 1 else 0) OR
                   (if drop_bit 2 case_mask AND 1 \<noteq> 0 then tab_run_mask ! 2 else 0) in
        case1_loop case_mask run_mask case_conv_table1 cr)"

section \<open>Scripts\<close>

text \<open>The run at \<open>p\<close> of the script table: the pointer behind it, its length minus 1 and its script number.\<close>

definition script_next :: "u8 list \<Rightarrow> nat \<Rightarrow> (nat \<times> u32 \<times> u32) cres" where
  "script_next table p =
     cbind (rd table p) (\<lambda>b8. let b = ucast b8 :: u32; type = drop_bit 7 b; n = b AND 0x7f in
     cbind (if n < 96 then Inr (p + 1, n)
            else if n < 112 then
              cbind (rd table (p + 1)) (\<lambda>x. Inr (p + 2, (push_bit 8 (n - 96) OR ucast x) + 96))
            else
              cbind (rd table (p + 1)) (\<lambda>x. cbind (rd table (p + 2)) (\<lambda>y.
              Inr (p + 3, (push_bit 16 (n - 112) OR push_bit 8 (ucast x) OR ucast y) + (96 + 4096))))) (\<lambda>(p, n).
     if type = 0 then Inr (p, n, 0)
     else cbind (rd table p) (\<lambda>v. Inr (p + 1, n, ucast v))))"

lemma script_next_progress: "script_next table p = Inr (p', n, v) \<Longrightarrow> p < p' \<and> p < length table"
  by (auto simp: script_next_def rd_def Let_def split: if_splits)

function script_loop :: "u8 list \<Rightarrow> nat \<Rightarrow> u32 \<Rightarrow> u32 \<Rightarrow> char_range \<Rightarrow> (char_range \<times> int) cres" where
  "script_loop table p script_idx c cr =
     (if p < length table then
        cbind (script_next table p) (\<lambda>(p', n, v).
        cbind (if v = script_idx then cr_add_interval cr c (c + n + 1) else Inr (cr, 0)) (\<lambda>(cr, r).
        if r \<noteq> 0 then Inr (cr, -1) else script_loop table p' script_idx (c + n + 1) cr))
      else Inr (cr, 0))"
  by pat_completeness auto
termination
  by (relation "measure (\<lambda>(table, p, _, _, _). length table - p)") (auto dest!: script_next_progress)

declare script_loop.simps [simp del]

text \<open>The run at \<open>p\<close> of the extension table: the pointer to its scripts, its length minus 1 and their number.\<close>

definition script_ext_next :: "u8 list \<Rightarrow> nat \<Rightarrow> (nat \<times> u32 \<times> nat) cres" where
  "script_ext_next table p =
     cbind (rd table p) (\<lambda>b8. let b = ucast b8 :: u32 in
     cbind (if b < 128 then Inr (p + 1, b)
            else if b < 128 + 64 then
              cbind (rd table (p + 1)) (\<lambda>x. Inr (p + 2, (push_bit 8 (b - 128) OR ucast x) + 128))
            else
              cbind (rd table (p + 1)) (\<lambda>x. cbind (rd table (p + 2)) (\<lambda>y.
              Inr (p + 3, (push_bit 16 (b - 128 - 64) OR push_bit 8 (ucast x) OR ucast y) + (128 + 16384))))) (\<lambda>(p, n).
     cbind (rd table p) (\<lambda>v_len. Inr (p + 1, n, unat v_len))))"

lemma script_ext_next_progress: "script_ext_next table p = Inr (p', n, v_len) \<Longrightarrow> p < p' \<and> p < length table"
  by (auto simp: script_ext_next_def rd_def Let_def split: if_splits)

fun has_script :: "u8 list \<Rightarrow> nat \<Rightarrow> u32 \<Rightarrow> nat \<Rightarrow> bool cres" where
  "has_script table p script_idx 0 = Inr False"
| "has_script table p script_idx (Suc k) =
     cbind (rd table p) (\<lambda>v. if ucast v = script_idx then Inr True else has_script table (p + 1) script_idx k)"

function script_ext_loop :: "u8 list \<Rightarrow> nat \<Rightarrow> u32 \<Rightarrow> bool \<Rightarrow> u32 \<Rightarrow> char_range \<Rightarrow> (char_range \<times> int) cres" where
  "script_ext_loop table p script_idx is_common c cr =
     (if p < length table then
        cbind (script_ext_next table p) (\<lambda>(p', n, v_len).
        cbind (if is_common then Inr (v_len \<noteq> 0) else has_script table p' script_idx v_len) (\<lambda>add.
        cbind (if add then cr_add_interval cr c (c + n + 1) else Inr (cr, 0)) (\<lambda>(cr, r).
        if r \<noteq> 0 then Inr (cr, -1)
        else script_ext_loop table (p' + v_len) script_idx is_common (c + n + 1) cr)))
      else Inr (cr, 0))"
  by pat_completeness auto
termination
  by (relation "measure (\<lambda>(table, p, _, _, _, _). length table - p)") (auto dest!: script_ext_next_progress)

declare script_ext_loop.simps [simp del]

text \<open>
  At the label \<open>fail\<close> the code frees the temporary ranges and jumps to \<open>fail\<close> again: it does not return, which is
  the value \<open>Inl OutOfFuel\<close>.
\<close>

abbreviation (input) script_fail :: "(char_range \<times> int) cres" where
  "script_fail \<equiv> Inl OutOfFuel"

definition unicode_script :: "char_range \<Rightarrow> string \<Rightarrow> bool \<Rightarrow> (char_range \<times> int) cres" where
  "unicode_script cr script_name is_ext =
     cbind (unicode_find_name unicode_script_name_table script_name) (\<lambda>script_idx.
     if script_idx < 0 then Inr (cr, -2)
     else
       let idx = nat script_idx + UNICODE_SCRIPT_Unknown + 1;
           is_common = (idx = UNICODE_SCRIPT_Common \<or> idx = UNICODE_SCRIPT_Inherited);
           fresh = cr_init 0 (Some (cr_realloc_func cr)) in
       cbind (script_loop unicode_script_table 0 (of_nat idx) 0 (if is_ext then fresh else cr)) (\<lambda>(cr1, r).
       if r \<noteq> 0 then script_fail
       else if is_ext then
         cbind (script_ext_loop unicode_script_ext_table 0 (of_nat idx) is_common 0 fresh) (\<lambda>(cr2, r).
         if r \<noteq> 0 then script_fail
         else if is_common then
           cbind (cr_invert cr2) (\<lambda>(cr2, r).
           if r \<noteq> 0 then script_fail
           else
             cbind (cr_op cr (cr_points cr1) (cr_len cr1) (cr_points cr2) (cr_len cr2) CR_OP_INTER) (\<lambda>(cr, r).
             if r \<noteq> 0 then script_fail else Inr (cr, 0)))
         else
           cbind (cr_op cr (cr_points cr1) (cr_len cr1) (cr_points cr2) (cr_len cr2) CR_OP_UNION) (\<lambda>(cr, r).
           if r \<noteq> 0 then script_fail else Inr (cr, 0)))
       else Inr (cr1, 0)))"

end
