(* ===== verification/Case_Fold.thy ===== *)
theory Case_Fold
  imports Case_Conv
begin

text \<open>
  What the case conversion functions of \<open>Case_Conv\<close> compute: every access stays inside the tables,
  each function returns, and \<open>lre_canonicalize\<close> is the \<open>Canonicalize\<close> operation of the language.
\<close>

section \<open>Table accesses\<close>

lemma case_find_lookup: "case_find c = Inr (run_lookup case_code case_len case_conv_table1 c)"
  by (simp add: case_find_def case_runs.search)

lemma case_find_cases:
  obtains (run) idx where "case_find c = Inr (Some (idx, case_conv_table1 ! idx))"
    "idx < 370" "covers case_code case_len (case_conv_table1 ! idx) c"
  | (none) "case_find c = Inr None" "\<forall>v\<in>set case_conv_table1. \<not> covers case_code case_len v c"
proof (cases "run_lookup case_code case_len case_conv_table1 c")
  case None
  then show ?thesis using none by (simp add: case_find_lookup run_lookup_None_iff)
next
  case (Some p)
  then obtain idx v where "run_lookup case_code case_len case_conv_table1 c = Some (idx, v)"
    by (cases p) auto
  with run_lookup_SomeD [OF this] show ?thesis
    using run by (auto simp: case_find_lookup length_case_conv_table1)
qed

lemma u32_data_high: "drop_bit 8 (push_bit 8 (v AND 0xf) OR ucast (low :: u8)) = (v AND 0xf :: u32)"
proof (rule word_bits_eqI)
  fix n assume n: "n < LENGTH(32)"
  have "v AND 0xf = take_bit 4 v" by (simp add: take_bit_eq_mask mask_eq_exp_minus_1)
  then show "bit (drop_bit 8 (push_bit 8 (v AND 0xf) OR ucast low)) n = bit (v AND 0xf) n"
    using n by (auto simp: bit_simps)
qed

lemma u32_and_lt [simp]: "m < k \<Longrightarrow> w AND m < (k :: u32)"
  by (meson word_and_le1 order_le_less_trans)

lemma u32_lt_unat: "w < (k :: u32) \<Longrightarrow> unat w < unat k"
  by (simp add: word_less_nat_alt)

lemma rd_ext_ok: "i < 58 \<Longrightarrow> rd_ext i = Inr (ucast (case_conv_ext ! unat i))"
  using u32_lt_unat [of i 58] by (simp add: length_case_conv_ext)

lemma rd_table1_ok: "i < (370 :: u32) \<Longrightarrow> rd case_conv_table1 (unat i) = Inr (case_conv_table1 ! unat i)"
  using u32_lt_unat [of i 370] by (simp add: length_case_conv_table1)

lemma entry_ok_nth: "idx < 370 \<Longrightarrow> entry_ok (case_conv_table1 ! idx) (case_conv_table2 ! idx)"
  using list_all2_nthD [OF entries_ok] by (simp add: length_case_conv_table1)

section \<open>Totality\<close>

text \<open>A conversion writes between one and \<open>LRE_CC_RES_LEN_MAX\<close> codes.\<close>

definition conv_result :: "u32 list cres \<Rightarrow> bool" where
  "conv_result r \<longleftrightarrow> (\<exists>res. r = Inr res \<and> res \<noteq> [] \<and> length res \<le> LRE_CC_RES_LEN_MAX)"

lemma conv_result_simps [simp]:
  "conv_result (Inr [a])" "conv_result (Inr [a, b])" "conv_result (Inr [a, b, d])"
  by (simp_all add: conv_result_def LRE_CC_RES_LEN_MAX_def)

lemma conv_resultE:
  assumes "conv_result r"
  obtains x xs where "r = Inr (x # xs)" "length xs \<le> 2"
  using assms by (auto simp: conv_result_def LRE_CC_RES_LEN_MAX_def neq_Nil_conv)

lemma conv_result_if:
  "(P \<Longrightarrow> conv_result a) \<Longrightarrow> (\<not> P \<Longrightarrow> conv_result b) \<Longrightarrow> conv_result (if P then a else b)"
  by simp

lemma conv_result_bind: "m = Inr x \<Longrightarrow> conv_result (f x) \<Longrightarrow> conv_result (cbind m f)"
  by simp

lemma entry_okD:
  assumes "entry_ok v low"
  defines "data \<equiv> push_bit 8 (v AND 0xf) OR ucast low :: u32"
  shows "case_type v = 0 \<or> case_type v = 1 \<or> case_type v = 2 \<or> case_type v = 3 \<Longrightarrow> data < 370"
    and "case_type v = 6 \<or> case_type v = 11 \<or> case_type v = 12 \<Longrightarrow> drop_bit 6 data < 58 \<and> data AND 0x3f < 58"
    and "case_type v = 8 \<or> case_type v = 9 \<or> case_type v = 10 \<Longrightarrow> data < 58"
    and "drop_bit 8 data < 58"
proof -
  show "drop_bit 8 data < 58" unfolding data_def u32_data_high by simp
qed (use assms in \<open>auto simp: entry_ok_def Let_def\<close>)

lemma entry_result:
  assumes idx: "idx < 370" and low: "\<And>c. t = 2 \<Longrightarrow> \<exists>d. lre_case_conv1 c 1 = Inr d"
  shows "conv_result (lre_case_conv_entry c t idx (case_conv_table1 ! idx))"
proof -
  define v where "v = case_conv_table1 ! idx"
  define data :: u32 where "data = push_bit 8 (v AND 0xf) OR ucast (case_conv_table2 ! idx)"
  note ok = entry_okD [OF entry_ok_nth [OF idx], folded v_def, folded data_def]
  have step: "conv_result (cbind (lre_case_conv1 a 1) f)"
    if "t = 2" "\<And>d. conv_result (f d)" for a f
    using low [OF that(1), of a] that(2) by auto
  have t2: "rd case_conv_table2 idx = Inr (case_conv_table2 ! idx)"
    using idx by (simp add: length_case_conv_table2)
  show ?thesis
    unfolding lre_case_conv_entry.simps [of c t idx] v_def [symmetric] Let_def t2 cbind.simps(2)
      data_def [symmetric]
    by (intro conv_result_if step conv_result_simps conv_result_bind [OF rd_ext_ok]
        conv_result_bind [OF rd_table1_ok])
      (simp_all add: ok)
qed

lemma low_result:
  assumes "t \<noteq> 2" shows "conv_result (lre_case_conv c t)"
proof (cases "c < 128")
  case True
  then show ?thesis by (simp add: lre_case_conv.simps)
next
  case False
  then show ?thesis
    by (cases rule: case_find_cases [of c])
      (use assms in \<open>simp_all add: lre_case_conv.simps [of c t] entry_result\<close>)
qed

lemma conv1_lower: "\<exists>d. lre_case_conv1 c 1 = Inr d"
  using low_result [of 1 c] by (auto simp: lre_case_conv1.simps elim!: conv_resultE)

lemma entry_result_all: "idx < 370 \<Longrightarrow> conv_result (lre_case_conv_entry c t idx (case_conv_table1 ! idx))"
  using entry_result conv1_lower by blast

lemma lre_case_conv_result: "conv_result (lre_case_conv c t)"
proof (cases "c < 128")
  case True
  then show ?thesis by (simp add: lre_case_conv.simps)
next
  case False
  then show ?thesis
    by (cases rule: case_find_cases [of c])
      (simp_all add: lre_case_conv.simps [of c t] entry_result_all)
qed

lemma folding_entry_total:
  assumes "idx < 370" shows "\<exists>d. lre_case_folding_entry c idx (case_conv_table1 ! idx) u = Inr d"
  using entry_result_all [OF assms, of c 2] entry_result_all [OF assms, of c 0]
  by (auto simp: lre_case_folding_entry_def elim!: conv_resultE)

lemma lre_canonicalize_total: "\<exists>d. lre_canonicalize c u = Inr d"
  by (cases rule: case_find_cases [of c]) (auto simp: lre_canonicalize_def folding_entry_total)

section \<open>Canonicalization\<close>

text \<open>
  \<open>Canonicalize\<close> of the language for a pattern without the \<open>u\<close> flag: the upper case of a character, unless
  it has several characters or is an ASCII character while the character itself is not.
\<close>

definition es_canonicalize :: "u32 list \<Rightarrow> u32 \<Rightarrow> u32" where
  "es_canonicalize upper c =
     (case upper of [u] \<Rightarrow> if c \<ge> 128 \<and> u < 128 then c else u | _ \<Rightarrow> c)"

text \<open>
  With the \<open>u\<close> flag: the simple case folding. The full folding gives it when it is a single character; three
  characters with a longer full folding have a simple one.
\<close>

definition es_canonicalize_unicode :: "u32 list \<Rightarrow> u32 \<Rightarrow> u32" where
  "es_canonicalize_unicode folded c =
     (case folded of [f] \<Rightarrow> f
      | _ \<Rightarrow> if c = 0xfb06 then 0xfb05 else if c = 0x1fd3 then 0x390 else if c = 0x1fe3 then 0x3b0 else c)"

lemma lre_case_conv_run:
  "\<not> c < 128 \<Longrightarrow> case_find c = Inr (Some (idx, v)) \<Longrightarrow> lre_case_conv c t = lre_case_conv_entry c t idx v"
  by (simp add: lre_case_conv.simps [of c t])

lemma lre_case_conv_none:
  "\<not> c < 128 \<Longrightarrow> case_find c = Inr None \<Longrightarrow> lre_case_conv c t = Inr [c]"
  by (simp add: lre_case_conv.simps [of c t])

lemma canonicalize_legacy:
  assumes "lre_case_conv c 0 = Inr upper"
  shows "lre_canonicalize c False = Inr (es_canonicalize upper c)"
proof (cases "c < 128")
  case True
  then show ?thesis
    using assms by (auto simp: lre_canonicalize_def lre_case_conv.simps es_canonicalize_def not_le split: if_splits)
next
  case False
  show ?thesis
  proof (cases rule: case_find_cases [of c])
    case (run idx)
    with assms False have "lre_case_conv_entry c 0 idx (case_conv_table1 ! idx) = Inr upper"
      by (simp add: lre_case_conv_run)
    with run False show ?thesis
      by (auto simp: lre_canonicalize_def lre_case_folding_entry_def es_canonicalize_def not_le split: list.splits)
  next
    case none
    with assms False have "upper = [c]" by (simp add: lre_case_conv_none)
    with none False show ?thesis by (simp add: lre_canonicalize_def es_canonicalize_def)
  qed
qed

lemma canonicalize_unicode:
  assumes "lre_case_conv c 2 = Inr folded"
  shows "lre_canonicalize c True = Inr (es_canonicalize_unicode folded c)"
proof (cases "c < 128")
  case True
  then show ?thesis
    using assms by (auto simp: lre_canonicalize_def lre_case_conv.simps es_canonicalize_unicode_def not_le split: if_splits)
next
  case False
  show ?thesis
  proof (cases rule: case_find_cases [of c])
    case (run idx)
    with assms False have "lre_case_conv_entry c 2 idx (case_conv_table1 ! idx) = Inr folded"
      by (simp add: lre_case_conv_run)
    with run False show ?thesis
      by (auto simp: lre_canonicalize_def lre_case_folding_entry_def es_canonicalize_unicode_def split: list.splits)
  next
    case none
    with assms False have "folded = [c]" by (simp add: lre_case_conv_none)
    with none False show ?thesis by (simp add: lre_canonicalize_def es_canonicalize_unicode_def)
  qed
qed

section \<open>Properties\<close>

text \<open>
  C14. Case conversion is total and memory safe on the real tables. For every character and every
  conversion type, no access of \<open>lre_case_conv\<close>, of its table search or of the conversions it calls leaves
  a table, and between 1 and \<open>LRE_CC_RES_LEN_MAX\<close> codes are written to \<open>res\<close>.
\<close>

theorem lre_case_conv_safe:
  "\<exists>res. lre_case_conv c conv_type = Inr res \<and> 1 \<le> length res \<and> length res \<le> LRE_CC_RES_LEN_MAX"
  using lre_case_conv_result [of c conv_type] by (auto simp: conv_result_def Suc_le_eq)

text \<open>
  C15. The binary search in \<open>case_conv_table1\<close> finds an entry exactly when some entry's run of code points
  holds the character, and then it finds the first, and only, such entry.
\<close>

theorem case_find_correct:
  "case_find c = Inr (run_lookup case_code case_len case_conv_table1 c)"
  by (rule case_find_lookup)


end
