(* ===== verification/Unicode_Class.thy ===== *)
theory Unicode_Class
  imports Case_Fold Unicode_Lookup Index_Tables
begin

text \<open>
  The character classes of \<^verbatim>\<open>libunicode.c\<close> and \<^verbatim>\<open>libunicode.h\<close>: cased and case ignorable characters,
  identifier characters, white space and the ASCII class bits. Each indexed table interprets the
  locale \<open>indexed_table\<close>, so a lookup in it is membership in the set the table encodes.
\<close>

section \<open>Definitions\<close>

definition lre_is_cased :: "u32 \<Rightarrow> bool cres" where
  "lre_is_cased c =
     cbind (run_search case_code case_len case_conv_table1 c 0 (int (length case_conv_table1) - 1)) (\<lambda>r.
     if r \<noteq> None then Inr True
     else lre_is_in_table c unicode_prop_Cased1_table unicode_prop_Cased1_index
            (length unicode_prop_Cased1_index div 3))"

definition lre_is_case_ignorable :: "u32 \<Rightarrow> bool cres" where
  "lre_is_case_ignorable c =
     lre_is_in_table c unicode_prop_Case_Ignorable_table unicode_prop_Case_Ignorable_index
       (length unicode_prop_Case_Ignorable_index div 3)"

definition lre_is_id_start :: "u32 \<Rightarrow> bool cres" where
  "lre_is_id_start c =
     lre_is_in_table c unicode_prop_ID_Start_table unicode_prop_ID_Start_index
       (length unicode_prop_ID_Start_index div 3)"

definition lre_is_id_continue :: "u32 \<Rightarrow> bool cres" where
  "lre_is_id_continue c =
     cbind (lre_is_id_start c) (\<lambda>r.
     if r then Inr True
     else lre_is_in_table c unicode_prop_ID_Continue1_table unicode_prop_ID_Continue1_index
            (length unicode_prop_ID_Continue1_index div 3))"

abbreviation (input) UNICODE_C_SPACE :: u8 where "UNICODE_C_SPACE \<equiv> 1"
abbreviation (input) UNICODE_C_DIGIT :: u8 where "UNICODE_C_DIGIT \<equiv> 2"
abbreviation (input) UNICODE_C_UPPER :: u8 where "UNICODE_C_UPPER \<equiv> 4"
abbreviation (input) UNICODE_C_LOWER :: u8 where "UNICODE_C_LOWER \<equiv> 8"
abbreviation (input) UNICODE_C_UNDER :: u8 where "UNICODE_C_UNDER \<equiv> 16"
abbreviation (input) UNICODE_C_DOLLAR :: u8 where "UNICODE_C_DOLLAR \<equiv> 32"
abbreviation (input) UNICODE_C_XDIGIT :: u8 where "UNICODE_C_XDIGIT \<equiv> 64"

text \<open>The class bits of the Latin-1 characters, each row the disjunction of the class constants.\<close>

definition lre_ctype_bits :: "u8 list" where
  "lre_ctype_bits = [
    0, 0, 0, 0, 0, 0, 0, 0,
    0, 1, 1, 1, 1, 1, 0, 0,
    0, 0, 0, 0, 0, 0, 0, 0,
    0, 0, 0, 0, 0, 0, 0, 0,
    1, 0, 0, 0, 32, 0, 0, 0,
    0, 0, 0, 0, 0, 0, 0, 0,
    66, 66, 66, 66, 66, 66, 66, 66,
    66, 66, 0, 0, 0, 0, 0, 0,
    0, 68, 68, 68, 68, 68, 68, 4,
    4, 4, 4, 4, 4, 4, 4, 4,
    4, 4, 4, 4, 4, 4, 4, 4,
    4, 4, 4, 0, 0, 0, 0, 16,
    0, 72, 72, 72, 72, 72, 72, 8,
    8, 8, 8, 8, 8, 8, 8, 8,
    8, 8, 8, 8, 8, 8, 8, 8,
    8, 8, 8, 0, 0, 0, 0, 0,
    0, 0, 0, 0, 0, 0, 0, 0,
    0, 0, 0, 0, 0, 0, 0, 0,
    0, 0, 0, 0, 0, 0, 0, 0,
    0, 0, 0, 0, 0, 0, 0, 0,
    1, 0, 0, 0, 0, 0, 0, 0,
    0, 0, 0, 0, 0, 0, 0, 0,
    0, 0, 0, 0, 0, 0, 0, 0,
    0, 0, 0, 0, 0, 0, 0, 0,
    0, 0, 0, 0, 0, 0, 0, 0,
    0, 0, 0, 0, 0, 0, 0, 0,
    0, 0, 0, 0, 0, 0, 0, 0,
    0, 0, 0, 0, 0, 0, 0, 0,
    0, 0, 0, 0, 0, 0, 0, 0,
    0, 0, 0, 0, 0, 0, 0, 0,
    0, 0, 0, 0, 0, 0, 0, 0,
    0, 0, 0, 0, 0, 0, 0, 0]"

definition char_range_s :: "u16 list" where
  "char_range_s = [
    10,
    0x0009, 0x000D + 1,
    0x0020, 0x0020 + 1,
    0x00A0, 0x00A0 + 1,
    0x1680, 0x1680 + 1,
    0x2000, 0x200A + 1,
    0x2028, 0x2029 + 1,
    0x202F, 0x202F + 1,
    0x205F, 0x205F + 1,
    0x3000, 0x3000 + 1,
    0xFEFF, 0xFEFF + 1]"

function space_loop :: "u32 \<Rightarrow> nat \<Rightarrow> bool cres" where
  "space_loop c i =
     (if i < length char_range_s then
        cbind (rd char_range_s i) (\<lambda>low. cbind (rd char_range_s (i + 1)) (\<lambda>high.
          if c < ucast low then Inr False
          else if c < ucast high then Inr True
          else space_loop c (i + 2)))
      else Inr False)"
  by pat_completeness auto
termination
  by (relation "measure (\<lambda>(_, i). length char_range_s - i)") auto

declare space_loop.simps [simp del]

definition lre_is_space_non_ascii :: "u32 \<Rightarrow> bool cres" where
  "lre_is_space_non_ascii c = space_loop c 5"

definition lre_is_space_byte :: "u8 \<Rightarrow> bool cres" where
  "lre_is_space_byte c = cbind (rd lre_ctype_bits (unat c)) (\<lambda>b. Inr (b AND UNICODE_C_SPACE \<noteq> 0))"

definition lre_is_id_start_byte :: "u8 \<Rightarrow> bool cres" where
  "lre_is_id_start_byte c = cbind (rd lre_ctype_bits (unat c)) (\<lambda>b.
     Inr (b AND (UNICODE_C_UPPER OR UNICODE_C_LOWER OR UNICODE_C_UNDER OR UNICODE_C_DOLLAR) \<noteq> 0))"

definition lre_is_id_continue_byte :: "u8 \<Rightarrow> bool cres" where
  "lre_is_id_continue_byte c = cbind (rd lre_ctype_bits (unat c)) (\<lambda>b.
     Inr (b AND (UNICODE_C_UPPER OR UNICODE_C_LOWER OR UNICODE_C_UNDER OR UNICODE_C_DOLLAR OR UNICODE_C_DIGIT) \<noteq> 0))"

definition lre_is_space :: "u32 \<Rightarrow> bool cres" where
  "lre_is_space c = (if c < 256 then lre_is_space_byte (ucast c) else lre_is_space_non_ascii c)"

definition lre_js_is_ident_first :: "u32 \<Rightarrow> bool cres" where
  "lre_js_is_ident_first c = (if c < 128 then lre_is_id_start_byte (ucast c) else lre_is_id_start c)"

definition lre_js_is_ident_next :: "u32 \<Rightarrow> bool cres" where
  "lre_js_is_ident_next c =
     (if c < 128 then lre_is_id_continue_byte (ucast c)
      else if c \<ge> 0x200C \<and> c \<le> 0x200D then Inr True
      else lre_is_id_continue c)"

section \<open>The indexed tables\<close>

lemmas Cased1_defs =
  unicode_prop_Cased1_table_def unicode_prop_Cased1_index_def

lemma Cased1_blocks:
  "blocks_ok unicode_prop_Cased1_table 0 0
     (index_blocks (length unicode_prop_Cased1_table) 0 (index_words unicode_prop_Cased1_index))"
  by (simp add: Cased1_defs)

lemma length_Cased1_index: "length unicode_prop_Cased1_index = 21"
  by (simp add: Cased1_defs)

interpretation cased1: indexed_table unicode_prop_Cased1_table unicode_prop_Cased1_index 7
  by unfold_locales (simp_all add: Cased1_blocks length_Cased1_index)

lemmas Case_Ignorable_defs =
  unicode_prop_Case_Ignorable_table_def unicode_prop_Case_Ignorable_table_0_def
  unicode_prop_Case_Ignorable_table_1_def unicode_prop_Case_Ignorable_table_2_def
  unicode_prop_Case_Ignorable_table_3_def unicode_prop_Case_Ignorable_table_4_def
  unicode_prop_Case_Ignorable_table_5_def unicode_prop_Case_Ignorable_index_def

lemma Case_Ignorable_blocks:
  "blocks_ok unicode_prop_Case_Ignorable_table 0 0
     (index_blocks (length unicode_prop_Case_Ignorable_table) 0 (index_words unicode_prop_Case_Ignorable_index))"
  by (simp add: Case_Ignorable_defs)

lemma length_Case_Ignorable_index: "length unicode_prop_Case_Ignorable_index = 69"
  by (simp add: Case_Ignorable_defs)

interpretation case_ignorable: indexed_table unicode_prop_Case_Ignorable_table unicode_prop_Case_Ignorable_index 23
  by unfold_locales (simp_all add: Case_Ignorable_blocks length_Case_Ignorable_index)

lemmas ID_Start_defs =
  unicode_prop_ID_Start_table_def unicode_prop_ID_Start_table_0_def
  unicode_prop_ID_Start_table_1_def unicode_prop_ID_Start_table_2_def
  unicode_prop_ID_Start_table_3_def unicode_prop_ID_Start_table_4_def
  unicode_prop_ID_Start_table_5_def unicode_prop_ID_Start_table_6_def
  unicode_prop_ID_Start_table_7_def unicode_prop_ID_Start_table_8_def
  unicode_prop_ID_Start_index_def

lemma ID_Start_blocks:
  "blocks_ok unicode_prop_ID_Start_table 0 0
     (index_blocks (length unicode_prop_ID_Start_table) 0 (index_words unicode_prop_ID_Start_index))"
  by (simp add: ID_Start_defs)

lemma length_ID_Start_index: "length unicode_prop_ID_Start_index = 105"
  by (simp add: ID_Start_defs)

interpretation id_start: indexed_table unicode_prop_ID_Start_table unicode_prop_ID_Start_index 35
  by unfold_locales (simp_all add: ID_Start_blocks length_ID_Start_index)

lemmas ID_Continue1_defs =
  unicode_prop_ID_Continue1_table_def unicode_prop_ID_Continue1_table_0_def
  unicode_prop_ID_Continue1_table_1_def unicode_prop_ID_Continue1_table_2_def
  unicode_prop_ID_Continue1_table_3_def unicode_prop_ID_Continue1_table_4_def
  unicode_prop_ID_Continue1_table_5_def unicode_prop_ID_Continue1_index_def

lemma ID_Continue1_blocks:
  "blocks_ok unicode_prop_ID_Continue1_table 0 0
     (index_blocks (length unicode_prop_ID_Continue1_table) 0 (index_words unicode_prop_ID_Continue1_index))"
  by (simp add: ID_Continue1_defs)

lemma length_ID_Continue1_index: "length unicode_prop_ID_Continue1_index = 63"
  by (simp add: ID_Continue1_defs)

interpretation id_continue1: indexed_table unicode_prop_ID_Continue1_table unicode_prop_ID_Continue1_index 21
  by unfold_locales (simp_all add: ID_Continue1_blocks length_ID_Continue1_index)

end
