(* ===== verification/Range_Decode.thy ===== *)
theory Range_Decode
  imports Unicode_Range Unicode_Class
begin

text \<open>
  What the range decoders of \<open>Unicode_Range\<close> compute. A decoded table is a list of intervals in increasing
  order; a decoder appends their bounds to the range, and the range then denotes their union.
\<close>

section \<open>Interval lists\<close>

fun flat :: "(int \<times> int) list \<Rightarrow> u32 list" where
  "flat [] = []"
| "flat ((a, b) # ivs) = word_of_int a # word_of_int b # flat ivs"

fun ascending :: "int \<Rightarrow> (int \<times> int) list \<Rightarrow> bool" where
  "ascending lo [] = True"
| "ascending lo ((a, b) # ivs) \<longleftrightarrow> lo \<le> a \<and> a \<le> b \<and> b < 2 ^ 32 \<and> ascending b ivs"

definition iv_set :: "(int \<times> int) list \<Rightarrow> u32 set" where
  "iv_set ivs = {x. \<exists>(a, b)\<in>set ivs. a \<le> uint x \<and> uint x < b}"

lemma flat_append [simp]: "flat (xs @ ys) = flat xs @ flat ys"
  by (induction xs rule: flat.induct) auto

lemma even_length_flat [simp]: "even (length (flat ivs))"
  by (induction ivs rule: flat.induct) auto

lemma iv_set_simps [simp]:
  "iv_set [] = {}" "iv_set ((a, b) # ivs) = {x. a \<le> uint x \<and> uint x < b} \<union> iv_set ivs"
  by (auto simp: iv_set_def)

lemma iv_set_append [simp]: "iv_set (xs @ ys) = iv_set xs \<union> iv_set ys"
  by (auto simp: iv_set_def)

lemma uint_of_int_u32: "0 \<le> a \<Longrightarrow> a < 2 ^ 32 \<Longrightarrow> uint (word_of_int a :: u32) = a"
  by (simp add: unsigned_of_int take_bit_int_eq_self)

lemma ascending_mono: "ascending lo ivs \<Longrightarrow> lo' \<le> lo \<Longrightarrow> ascending lo' ivs"
  by (cases ivs) auto

lemma ascending_append:
  "ascending lo xs \<Longrightarrow> (\<And>a b. (a, b) \<in> set xs \<Longrightarrow> b \<le> m) \<Longrightarrow> lo \<le> m \<Longrightarrow> ascending m ys \<Longrightarrow> ascending lo (xs @ ys)"
proof (induction lo xs rule: ascending.induct)
  case (1 lo)
  then show ?case using ascending_mono by simp
next
  case (2 lo a b ivs)
  have "b \<le> m" using "2.prems"(2) [of a b] by simp
  moreover have "b' \<le> m" if "(a', b') \<in> set ivs" for a' b' using "2.prems"(2) [of a' b'] that by simp
  ultimately show ?case using 2 by simp
qed

lemma flat_ge: "ascending lo ivs \<Longrightarrow> 0 \<le> lo \<Longrightarrow> p \<in> set (flat ivs) \<Longrightarrow> lo \<le> uint p"
proof (induction lo ivs rule: ascending.induct)
  case (2 lo a b ivs)
  then have "uint (word_of_int a :: u32) = a" "uint (word_of_int b :: u32) = b" by (simp_all add: uint_of_int_u32)
  with 2 show ?case by auto
qed simp

lemma sorted_flat: "ascending lo ivs \<Longrightarrow> 0 \<le> lo \<Longrightarrow> sorted (flat ivs)"
proof (induction lo ivs rule: ascending.induct)
  case (2 lo a b ivs)
  then have u: "uint (word_of_int a :: u32) = a" "uint (word_of_int b :: u32) = b" by (simp_all add: uint_of_int_u32)
  have "b \<le> uint p" if "p \<in> set (flat ivs)" for p using 2 that flat_ge [of b ivs p] by simp
  then have "\<forall>p\<in>set (flat ivs). a \<le> uint p \<and> b \<le> uint p" using 2 by fastforce
  with 2 u show ?case by (simp add: word_le_def)
qed simp

lemma cr_set_flat: "ascending lo ivs \<Longrightarrow> 0 \<le> lo \<Longrightarrow> cr_set (flat ivs) = iv_set ivs"
proof (induction lo ivs rule: ascending.induct)
  case (2 lo a b ivs)
  then have u: "uint (word_of_int a :: u32) = a" "uint (word_of_int b :: u32) = b" by (simp_all add: uint_of_int_u32)
  have ih: "cr_set (flat ivs) = iv_set ivs" using 2 by simp
  have ge: "b \<le> uint p" if "p \<in> set (flat ivs)" for p using 2 that flat_ge [of b ivs p] by simp
  have zero: "below x (flat ivs) = 0" if "uint x < b" for x
    unfolding below_0_iff using ge that by (fastforce simp: word_less_def)
  have "x \<in> cr_set (flat ((a, b) # ivs)) \<longleftrightarrow> x \<in> iv_set ((a, b) # ivs)" for x
  proof (cases "uint x < b")
    case True
    moreover from True have "x \<notin> iv_set ivs" using zero [OF True] by (simp flip: ih add: cr_set_def)
    ultimately show ?thesis using zero [OF True] by (auto simp: cr_set_def word_le_def u)
  next
    case False
    then have "a \<le> uint x" using 2 by simp
    with False show ?thesis by (auto simp: cr_set_def word_le_def u simp flip: ih)
  qed
  then show ?case by blast
qed (simp add: cr_set_def)

section \<open>Results\<close>

text \<open>
  \<open>cr_denotes S res\<close>: no fault, and either 0 with a sorted range of whole intervals that denotes \<open>S\<close>, or -1.
\<close>

definition cr_sorted :: "char_range \<Rightarrow> bool" where
  "cr_sorted cr \<longleftrightarrow> cr_inv cr \<and> sorted (cr_contents cr) \<and> even (cr_len cr)"

definition cr_denotes :: "u32 set \<Rightarrow> (char_range \<times> int) cres \<Rightarrow> bool" where
  "cr_denotes S res \<longleftrightarrow>
     (\<exists>cr r. res = Inr (cr, r) \<and> cr_inv cr \<and> (r = 0 \<and> cr_sorted cr \<and> cr_set (cr_contents cr) = S \<or> r = -1))"

lemma cr_result_denotes:
  assumes "cr_result (flat ivs) res" "ascending 0 ivs"
  shows "cr_denotes (iv_set ivs) res"
proof -
  from assms(1) obtain cr r where cr: "res = Inr (cr, r)" "cr_inv cr" "r = 0 \<and> cr_contents cr = flat ivs \<or> r = -1"
    by (auto simp: cr_result_def)
  have "cr_sorted cr \<and> cr_set (cr_contents cr) = iv_set ivs" if "cr_contents cr = flat ivs"
    unfolding cr_sorted_def length_cr_contents [OF cr(2), symmetric] that
    using cr(2) sorted_flat [OF assms(2)] cr_set_flat [OF assms(2)] by simp
  with cr show ?thesis unfolding cr_denotes_def by blast
qed

lemma cr_yields_denotes: "cr_yields S res \<Longrightarrow> cr_denotes S res"
  unfolding cr_yields_def cr_denotes_def cr_sorted_def
  using canonical_sorted canonical_even by blast

text \<open>The step shared by all the loops: an addition, the test of its result, the rest.\<close>

lemma cr_result_bind:
  assumes "cr_result ps m" "\<And>cr. cr_inv cr \<Longrightarrow> cr_contents cr = ps \<Longrightarrow> cr_result qs (F cr)"
  shows "cr_result qs (cbind m (\<lambda>(cr, r). if r \<noteq> 0 then Inr (cr, -1) else F cr))"
proof -
  from assms(1) obtain cr r where cr: "m = Inr (cr, r)" "cr_inv cr" "r = 0 \<and> cr_contents cr = ps \<or> r = -1"
    by (auto simp: cr_result_def)
  then show ?thesis using assms(2) [OF cr(2)] by (auto simp: cr_result_def)
qed

lemma cr_result_done: "cr_inv cr \<Longrightarrow> cr_result (cr_contents cr) (Inr (cr, 0))"
  by (simp add: cr_result_def)

lemma cr_add_interval_int:
  "cr_inv cr \<Longrightarrow> uint c1 = a \<Longrightarrow> uint c2 = b \<Longrightarrow> cr_result (cr_contents cr @ flat [(a, b)]) (cr_add_interval cr c1 c2)"
  using cr_add_interval_result [of cr c1 c2] by auto

lemma cr_add_interval_if:
  "cr_inv cr \<Longrightarrow> uint c1 = a \<Longrightarrow> uint c2 = b \<Longrightarrow>
     cr_result (cr_contents cr @ flat (if B then [(a, b)] else [])) (if B then cr_add_interval cr c1 c2 else Inr (cr, 0))"
  using cr_add_interval_int [of cr c1 a c2 b] by (simp add: cr_result_done)

section \<open>Binary properties\<close>

fun run_ivs :: "int \<Rightarrow> bool \<Rightarrow> int list \<Rightarrow> (int \<times> int) list" where
  "run_ivs c bt [] = []"
| "run_ivs c bt (r # rs) = (if bt then [(c, c + r)] else []) @ run_ivs (c + r) (\<not> bt) rs"

lemma run_ivs_ascending:
  "(\<And>r. r \<in> set rs \<Longrightarrow> 0 \<le> r) \<Longrightarrow> c + sum_list rs < 2 ^ 32 \<Longrightarrow> ascending c (run_ivs c bt rs)"
proof (induction rs arbitrary: c bt)
  case (Cons r rs)
  then have "ascending (c + r) (run_ivs (c + r) (\<not> bt) rs)" "0 \<le> r" "0 \<le> sum_list rs"
    by (auto intro!: Cons.IH sum_list_nonneg simp: algebra_simps)
  then show ?case using Cons.prems by (auto intro: ascending_mono)
qed simp

lemma in_runs_ivs:
  "(\<And>r. r \<in> set rs \<Longrightarrow> 0 \<le> r) \<Longrightarrow> x \<in> iv_set (run_ivs c bt rs) \<longleftrightarrow> c \<le> uint x \<and> in_runs (uint x) c bt rs"
proof (induction rs arbitrary: c bt)
  case (Cons r rs)
  have "x \<in> iv_set (run_ivs (c + r) (\<not> bt) rs) \<longleftrightarrow> c + r \<le> uint x \<and> in_runs (uint x) (c + r) (\<not> bt) rs"
    using Cons by simp
  moreover have "0 \<le> r" using Cons.prems by simp
  ultimately show ?case by auto
qed simp

lemma run_lengths_NilD: "run_lengths t = Some [] \<Longrightarrow> t = []"
proof (cases t)
  case (Cons b p)
  assume "run_lengths t = Some []"
  then show ?thesis unfolding Cons by (cases rule: run_lengths_ConsE) auto
qed

lemma prop1_loop_result:
  assumes "run_lengths (drop p table) = Some rs" "uint c + sum_list rs < 2 ^ 32" "cr_inv cr"
  shows "cr_result (cr_contents cr @ flat (run_ivs (uint c) bt rs)) (prop1_loop table (length table) p c bt cr)"
  using assms
proof (induction "length table - p" arbitrary: p rs c bt cr rule: less_induct)
  case less
  show ?case
  proof (cases "rs = []")
    case True
    then have "\<not> p < length table" using run_lengths_NilD [of "drop p table"] less.prems(1) by simp
    with True less.prems show ?thesis by (simp add: prop1_loop.simps [of table "length table" p] cr_result_done)
  next
    case False
    show ?thesis
    proof (cases rule: run_lengths_rd_cases [OF less.prems(1) False])
      case (1 b rs' n1 n2)
      have s: "0 \<le> sum_list rs'" by (rule sum_list_nonneg_runs [OF 1(5)])
      have "0 \<le> uint n2" by simp
      with less.prems(2) s have "uint c + uint n1 < 2 ^ 32" unfolding 1(4) sum_list.Cons by linarith
      then have c1: "uint (c + n1) = uint c + uint n1" by (rule uint_add_u32)
      have c2: "uint (c + n1 + n2) = uint c + uint n1 + uint n2"
        using less.prems(2) s 1(4) by (subst uint_add_u32) (auto simp: c1)
      have lt: "length table - (p + 1) < length table - p" using 1 by linarith
      let ?ivs1 = "if bt then [(uint c, uint c + uint n1)] else []"
      let ?ivs2 = "if \<not> bt then [(uint c + uint n1, uint c + uint n1 + uint n2)] else []"
      have "prop1_next table p c bt cr =
          cbind (if bt then cr_add_interval cr c (c + n1) else Inr (cr, 0)) (\<lambda>(cr, r). Inr (cr, r, p + 1, c + n1, c + n1 + n2, \<not> bt))"
        using 1(1,2) by (simp add: prop1_next_def Let_def flip: 1(6,7))
      note nx = this
      have eq: "prop1_loop table (length table) p c bt cr =
        cbind (if bt then cr_add_interval cr c (c + n1) else Inr (cr, 0)) (\<lambda>(cr, r). if r \<noteq> 0 then Inr (cr, -1) else
        cbind (if \<not> bt then cr_add_interval cr (c + n1) (c + n1 + n2) else Inr (cr, 0)) (\<lambda>(cr, r). if r \<noteq> 0 then Inr (cr, -1) else
        prop1_loop table (length table) (p + 1) (c + n1 + n2) bt cr))"
        unfolding prop1_loop.simps [of table "length table" p c bt cr] nx
        using 1(3) by (cases "if bt then cr_add_interval cr c (c + n1) else Inr (cr, 0)") (auto cong: if_cong split: prod.splits)
      show ?thesis
        unfolding eq
      proof (rule cr_result_bind [OF cr_add_interval_if [OF less.prems(3) refl c1]])
        fix cr1
        assume cr1: "cr_inv cr1" "cr_contents cr1 = cr_contents cr @ flat ?ivs1"
        show "cr_result (cr_contents cr @ flat (run_ivs (uint c) bt rs))
          (cbind (if \<not> bt then cr_add_interval cr1 (c + n1) (c + n1 + n2) else Inr (cr1, 0)) (\<lambda>(cr, r). if r \<noteq> 0 then Inr (cr, -1) else
            prop1_loop table (length table) (p + 1) (c + n1 + n2) bt cr))"
        proof (rule cr_result_bind [OF cr_add_interval_if [OF cr1(1) c1 c2]])
          fix cr2
          assume cr2: "cr_inv cr2" "cr_contents cr2 = cr_contents cr1 @ flat ?ivs2"
          have "cr_result (cr_contents cr2 @ flat (run_ivs (uint (c + n1 + n2)) bt rs'))
              (prop1_loop table (length table) (p + 1) (c + n1 + n2) bt cr2)"
            using less.prems(2) 1(4,5) by (intro less.hyps [OF lt]) (simp_all add: c2 cr2)
          then show "cr_result (cr_contents cr @ flat (run_ivs (uint c) bt rs))
              (prop1_loop table (length table) (p + 1) (c + n1 + n2) bt cr2)"
            using cr1 cr2 1(4) by (simp add: c2)
        qed
      qed
    next
      case (2 b rs' p' n)
      have s: "0 \<le> sum_list rs'" by (rule sum_list_nonneg_runs [OF 2(6)])
      have c1: "uint (c + n) = uint c + uint n"
        using less.prems(2) s 2(5) by (intro uint_add_u32) auto
      have lt: "length table - p' < length table - p" using 2 by linarith
      have eq: "prop1_loop table (length table) p c bt cr =
        cbind (if bt then cr_add_interval cr c (c + n) else Inr (cr, 0)) (\<lambda>(cr, r). if r \<noteq> 0 then Inr (cr, -1) else
        prop1_loop table (length table) p' (c + n) (\<not> bt) cr)"
        unfolding prop1_loop.simps [of table "length table" p c bt cr] prop1_next_def
        using 2 by (simp add: Let_def)
      show ?thesis
        unfolding eq
      proof (rule cr_result_bind [OF cr_add_interval_if [OF less.prems(3) refl c1]])
        fix cr1
        assume cr1: "cr_inv cr1" "cr_contents cr1 = cr_contents cr @ flat (if bt then [(uint c, uint c + uint n)] else [])"
        have "cr_result (cr_contents cr1 @ flat (run_ivs (uint (c + n)) (\<not> bt) rs'))
            (prop1_loop table (length table) p' (c + n) (\<not> bt) cr1)"
          using less.prems(2) 2(5,6) by (intro less.hyps [OF lt]) (simp_all add: c1 cr1)
        then show "cr_result (cr_contents cr @ flat (run_ivs (uint c) bt rs))
            (prop1_loop table (length table) p' (c + n) (\<not> bt) cr1)"
          using cr1 2(5) by (simp add: c1)
      qed
    qed
  qed
qed

text \<open>Every property table is a sequence of whole codes.\<close>

fun run_total :: "int \<Rightarrow> u8 list \<Rightarrow> int option" where
  "run_total s [] = Some s"
| "run_total s (b # p) =
     (if b < 64 then run_total (s + (uint b div 8 + uint b mod 8 + 2)) p
      else if b \<ge> 128 then run_total (s + (uint b - 127)) p
      else if b < 96 then
        (case p of x # p \<Rightarrow> run_total (s + ((uint b - 64) * 256 + uint x + 1)) p | _ \<Rightarrow> None)
      else
        (case p of x # y # p \<Rightarrow> run_total (s + ((uint b - 96) * 65536 + uint x * 256 + uint y + 1)) p | _ \<Rightarrow> None))"

lemma run_total_lengths: "run_total s t = map_option (\<lambda>rs. s + sum_list rs) (run_lengths t)"
  by (induction s t rule: run_total.induct)
    (auto simp: option.map_comp o_def algebra_simps split: list.splits)

definition runs_ok :: "u8 list \<Rightarrow> bool" where
  "runs_ok t \<longleftrightarrow> (case run_total 0 t of Some n \<Rightarrow> n < 4294967296 | None \<Rightarrow> False)"

lemma runs_okE:
  assumes "runs_ok t"
  obtains rs where "run_lengths t = Some rs" "sum_list rs < 2 ^ 32"
  using assms by (auto simp: runs_ok_def run_total_lengths split: option.splits)

lemma runs_okI: "run_lengths t = Some rs \<Longrightarrow> sum_list rs < 2 ^ 32 \<Longrightarrow> runs_ok t"
  by (simp add: runs_ok_def run_total_lengths)

lemma indexed_runs_ok:
  "runs_ok unicode_prop_ID_Continue1_table" "runs_ok unicode_prop_ID_Start_table"
  "runs_ok unicode_prop_Case_Ignorable_table"
proof -
  have "sum_list rs < 2 ^ 32" if "uint (w :: u32) = sum_list rs" for w rs
    using that uint_lt2p [of w] by simp
  then show "runs_ok unicode_prop_ID_Continue1_table" "runs_ok unicode_prop_ID_Start_table"
    "runs_ok unicode_prop_Case_Ignorable_table"
    using id_continue1.runs id_start.runs case_ignorable.runs runs_okI by metis+
qed

lemma prop_tables_ok: "list_all runs_ok unicode_prop_table"
  unfolding unicode_prop_table_def list.pred_inject
  by (intro conjI TrueI indexed_runs_ok; code_simp)

lemma unicode_prop_len_table_eq: "unicode_prop_len_table = map length unicode_prop_table"
  by (simp only: unicode_prop_len_table_def unicode_prop_table_def list.map)

lemma unicode_prop1_denotes:
  assumes "cr_inv cr" "cr_len cr = 0" "prop_idx < length unicode_prop_table"
  shows "cr_denotes {x. table_mem (unicode_prop_table ! prop_idx) x} (unicode_prop1 cr prop_idx)"
proof -
  let ?t = "unicode_prop_table ! prop_idx"
  from prop_tables_ok assms(3) have "runs_ok ?t" by (simp add: list_all_length)
  then obtain rs where rs: "run_lengths ?t = Some rs" "sum_list rs < 2 ^ 32" by (rule runs_okE)
  have nonneg: "0 \<le> r" if "r \<in> set rs" for r using run_lengths_pos [OF rs(1) that] by simp
  have c0: "cr_contents cr = []" using assms(2) by (simp add: cr_contents_def)
  have "cr_result (cr_contents cr @ flat (run_ivs (uint (0 :: u32)) False rs)) (prop1_loop ?t (length ?t) 0 0 False cr)"
    by (rule prop1_loop_result) (use rs assms in simp_all)
  then have "cr_result (flat (run_ivs 0 False rs)) (unicode_prop1 cr prop_idx)"
    using assms(3) c0 by (simp add: unicode_prop1_def unicode_prop_len_table_eq)
  then have "cr_denotes (iv_set (run_ivs 0 False rs)) (unicode_prop1 cr prop_idx)"
    by (rule cr_result_denotes) (rule run_ivs_ascending, use nonneg rs in simp_all)
  moreover have "iv_set (run_ivs 0 False rs) = {x. table_mem ?t x}"
    using in_runs_ivs [OF nonneg, of rs _ 0 False] rs(1) by (auto simp: table_mem_def)
  ultimately show ?thesis by simp
qed

end
