(* ===== verification/Category_Decode.thy ===== *)
theory Category_Decode
  imports Range_Decode
begin

text \<open>
  What \<open>unicode_general_category1\<close> computes: the set of the characters whose general category is in the mask,
  where the category of a character is read off the decoded table.
\<close>

section \<open>The encoding\<close>

text \<open>The code that starts with byte \<open>b\<close>: its number of characters, its category and the rest of the table.\<close>

definition gc_code :: "u8 \<Rightarrow> u8 list \<Rightarrow> (int \<times> int \<times> u8 list) option" where
  "gc_code b t =
     (let n = uint b div 32; v = uint b mod 32 in
      if n \<noteq> 7 then Some (n + 1, v, t)
      else case t of
        [] \<Rightarrow> None
      | m # t \<Rightarrow>
          if m < 128 then Some (uint m + 8, v, t)
          else if m < 192 then
            (case t of [] \<Rightarrow> None | x # t \<Rightarrow> Some ((uint m - 128) * 256 + uint x + 136, v, t))
          else
            (case t of x # y # t \<Rightarrow> Some ((uint m - 192) * 65536 + uint x * 256 + uint y + 16520, v, t)
             | _ \<Rightarrow> None))"

lemma gc_code_length: "gc_code b t = Some (n, v, t') \<Longrightarrow> length t' \<le> length t"
  by (auto simp: gc_code_def Let_def split: if_splits list.splits)

function gc_runs :: "u8 list \<Rightarrow> (int \<times> int) list option" where
  "gc_runs [] = Some []"
| "gc_runs (b # t) =
     (case gc_code b t of None \<Rightarrow> None | Some (n, v, t') \<Rightarrow> map_option (\<lambda>rs. (n, v) # rs) (gc_runs t'))"
  by pat_completeness auto
termination
  by (relation "measure length") (auto dest: gc_code_length)

text \<open>
  The sum of the run lengths, with a check of the category numbers, by a loop that is evaluated part by part.
\<close>

function gc_total :: "int \<Rightarrow> u8 list \<Rightarrow> int option" where
  "gc_total s [] = Some s"
| "gc_total s (b # t) =
     (case gc_code b t of None \<Rightarrow> None
      | Some (n, v, t') \<Rightarrow> if v = 30 then None else gc_total (s + n) t')"
  by pat_completeness auto
termination
  by (relation "measure (length \<circ> snd)") (auto dest: gc_code_length)

lemma gc_total_runs:
  "gc_total s t = Some m \<Longrightarrow>
     \<exists>rs. gc_runs t = Some rs \<and> m = s + sum_list (map fst rs) \<and> (\<forall>(n, v)\<in>set rs. v \<noteq> 30)"
proof (induction s t rule: gc_total.induct)
  case (2 s b t)
  from "2.prems" obtain n v t' where c: "gc_code b t = Some (n, v, t')" "v \<noteq> 30" "gc_total (s + n) t' = Some m"
    by (auto split: option.splits if_splits)
  with "2.IH" [OF c(1) refl refl] obtain rs where "gc_runs t' = Some rs" "m = s + n + sum_list (map fst rs)"
    "\<forall>(n, v)\<in>set rs. v \<noteq> 30" by auto
  with c show ?case by (intro exI [of _ "(n, v) # rs"]) simp
qed simp

section \<open>Decoding one run\<close>

lemma drop_ConsD:
  "drop p xs = x # ys \<Longrightarrow> rd xs p = Inr x \<and> drop (Suc p) xs = ys \<and> p < length xs"
  by (cases "p < length xs") (auto simp: rd_def nth_via_drop drop_Suc_tl)

lemma uint_ucast_and_1f: "uint ((ucast (b :: u8) :: u32) AND 0x1f) = uint b mod 32"
proof -
  have "(ucast b :: u32) AND 0x1f = take_bit 5 (ucast b)" by (simp add: take_bit_eq_mask mask_eq_exp_minus_1)
  then show ?thesis by (simp only: uint_low_bits uint_ucast_u32) simp
qed

lemma uint_ucast_shr5: "uint (drop_bit 5 (ucast (b :: u8)) :: u32) = uint b div 32"
  by (simp add: uint_shr)

lemma ucast_less_numerals [simp]:
  "(ucast (b :: u8) :: u32) < 128 \<longleftrightarrow> b < 128" "(ucast b :: u32) < 192 \<longleftrightarrow> b < 192"
  by (simp_all add: word_less_def)

lemma gc_next_code:
  assumes "drop p table = b # t" "gc_code b t = Some (n, v, t')"
  obtains p' w u where "gc_next table p = Inr (p', w, u)" "uint w = n - 1" "uint u = v" "drop p' table = t'" "p < p'"
    "1 \<le> n" "0 \<le> v" "v < 32"
proof -
  have r0: "rd table p = Inr b" "drop (Suc p) table = t" using drop_ConsD [OF assms(1)] by simp_all
  note v = uint_ucast_and_1f [of b]
  have vb: "0 \<le> uint b mod 32" "uint b mod 32 < 32" by simp_all
  have seven: "drop_bit 5 (ucast b :: u32) = 7 \<longleftrightarrow> uint b div 32 = 7"
    by (simp add: word_uint_eq_iff uint_ucast_shr5)
  show thesis
  proof (cases "uint b div 32 = 7")
    case False
    have "0 \<le> uint b div 32" by (simp add: pos_imp_zdiv_nonneg_iff)
    with False assms(2) r0 v vb seven show thesis
      by (intro that [of "p + 1"]) (auto simp: gc_next_def gc_code_def Let_def uint_ucast_shr5)
  next
    case True
    with assms(2) obtain m t1 where t: "t = m # t1" by (cases t) (auto simp: gc_code_def)
    have r1: "rd table (Suc p) = Inr m" "drop (Suc (Suc p)) table = t1"
      using drop_ConsD [of "Suc p" table m t1] r0 t by simp_all
    consider (a) "m < 128" | (b) "\<not> m < 128" "m < 192" | (c) "\<not> m < 128" "\<not> m < 192" by blast
    then show thesis
    proof cases
      case a
      have "uint (ucast m + 7 :: u32) = uint m + 7"
        using uint_u8_bounds [of m] by (subst uint_add_u32) simp_all
      with a True assms(2) r0 r1 t v vb seven show thesis
        by (intro that [of "p + 2" "ucast m + 7" "ucast b AND 0x1f"]) (auto simp: gc_next_def gc_code_def Let_def add_increasing)
    next
      case b
      with True assms(2) t obtain x t2 where t1: "t1 = x # t2" by (cases t1) (auto simp: gc_code_def)
      have r2: "rd table (Suc (Suc p)) = Inr x" "drop (Suc (Suc (Suc p))) table = t2"
        using drop_ConsD [of "Suc (Suc p)" table x t2] r1 t1 by simp_all
      have m: "128 \<le> uint m" "uint m < 192" using b by (simp_all add: word_less_def)
      have s: "uint (ucast m - 128 :: u32) = uint m - 128"
        using m by (subst uint_sub_u32) (simp_all add: word_le_def)
      have "uint (push_bit 8 (ucast m - 128) OR ucast x :: u32) = (uint m - 128) * 256 + uint x"
        using m by (subst uint_or_low) (simp_all add: s)
      then have w: "uint ((push_bit 8 (ucast m - 128) OR ucast x) + (7 + 128) :: u32) = (uint m - 128) * 256 + uint x + 135"
        using m uint_u8_bounds [of x] by (subst uint_add_u32) simp_all
      have "1 \<le> (uint m - 128) * 256 + uint x + 136"
        using code_pos [of 0 "uint m - 128" "uint x" 136] m by simp
      with b w True assms(2) r0 r1 r2 t t1 v vb seven show thesis
        by (intro that [of "p + 3" "(push_bit 8 (ucast m - 128) OR ucast x) + (7 + 128)" "ucast b AND 0x1f"])
          (auto simp: gc_next_def gc_code_def Let_def eval_nat_numeral)
    next
      case c
      with True assms(2) t obtain x t2 where t1: "t1 = x # t2" by (cases t1) (auto simp: gc_code_def)
      with c True assms(2) t obtain y t3 where t2: "t2 = y # t3" by (cases t2) (auto simp: gc_code_def)
      have r2: "rd table (Suc (Suc p)) = Inr x" "drop (Suc (Suc (Suc p))) table = t2"
        using drop_ConsD [of "Suc (Suc p)" table x t2] r1 t1 by simp_all
      have r3: "rd table (Suc (Suc (Suc p))) = Inr y" "drop (Suc (Suc (Suc (Suc p)))) table = t3"
        using drop_ConsD [of "Suc (Suc (Suc p))" table y t3] r2 t2 by simp_all
      have m: "192 \<le> uint m" using c by (simp_all add: word_less_def)
      have s: "uint (ucast m - 128 - 64 :: u32) = uint m - 192"
        using m by (simp, subst uint_sub_u32) (simp_all add: word_le_def)
      have "uint (push_bit 16 (ucast m - 128 - 64) OR push_bit 8 (ucast x) OR ucast y :: u32) =
          (uint m - 192) * 65536 + uint x * 256 + uint y"
        using m uint_u8_bounds [of m] s by (subst uint_or_low2) simp_all
      then have w: "uint ((push_bit 16 (ucast m - 128 - 64) OR push_bit 8 (ucast x) OR ucast y) + (7 + 128 + 16384) :: u32) =
          (uint m - 192) * 65536 + uint x * 256 + uint y + 16519"
        using m uint_u8_bounds [of m] uint_u8_bounds [of x] uint_u8_bounds [of y] by (subst uint_add_u32) simp_all
      have "1 \<le> (uint m - 192) * 65536 + uint x * 256 + uint y + 16520"
        by (rule code_pos) (use m in simp_all)
      with c w True assms(2) r0 r1 r2 r3 t t1 t2 v vb seven show thesis
        by (intro that [of "p + 4" "(push_bit 16 (ucast m - 128 - 64) OR push_bit 8 (ucast x) OR ucast y) + (7 + 128 + 16384)" "ucast b AND 0x1f"])
          (auto simp: gc_next_def gc_code_def Let_def eval_nat_numeral)
    qed
  qed
qed

section \<open>The intervals of a run\<close>

function alt_ivs :: "int \<Rightarrow> int \<Rightarrow> (int \<times> int) list" where
  "alt_ivs a c = (if a < c then (a, a + 1) # alt_ivs (a + 2) c else [])"
  by pat_completeness auto
termination
  by (relation "measure (\<lambda>(a, c). nat (c - a))") auto

declare alt_ivs.simps [simp del]

lemma alt_ivs_simps [simp]: "a < c \<Longrightarrow> alt_ivs a c = (a, a + 1) # alt_ivs (a + 2) c" "\<not> a < c \<Longrightarrow> alt_ivs a c = []"
  by (simp_all add: alt_ivs.simps [of a c])

lemma alt_ivs_ascending: "c < 2 ^ 32 \<Longrightarrow> ascending a (alt_ivs a c) \<and> (\<forall>(l, h)\<in>set (alt_ivs a c). h \<le> c)"
proof (induction a c rule: alt_ivs.induct)
  case (1 a c)
  show ?case
  proof (cases "a < c")
    case True
    with 1 have "ascending (a + 2) (alt_ivs (a + 2) c)" "\<forall>(l, h)\<in>set (alt_ivs (a + 2) c). h \<le> c" by auto
    with True "1.prems" show ?thesis by (auto intro: ascending_mono)
  qed simp
qed

lemma alternate_step:
  "(a :: int) < c \<Longrightarrow>
     (a \<le> u \<and> u < a + 1) \<or> (a + 2 \<le> u \<and> u < c \<and> even (u - (a + 2))) \<longleftrightarrow> a \<le> u \<and> u < c \<and> even (u - a)"
  by presburger

lemma alt_ivs_set: "x \<in> iv_set (alt_ivs a c) \<longleftrightarrow> a \<le> uint x \<and> uint x < c \<and> even (uint x - a)"
proof (induction a c rule: alt_ivs.induct)
  case (1 a c)
  show ?case
  proof (cases "a < c")
    case True
    show ?thesis
      unfolding alternate_step [OF True, symmetric] alt_ivs_simps(1) [OF True] iv_set_simps Un_iff mem_Collect_eq 1 [OF True] by (rule refl)
  qed auto
qed

lemma alternate_loop_result:
  assumes "cr_inv cr" "uint c + 1 < 2 ^ 32" "nat (uint c - uint c0) < fuel"
  shows "cr_result (cr_contents cr @ flat (alt_ivs (uint c0) (uint c))) (alternate_loop fuel c0 c cr)"
  using assms
proof (induction fuel arbitrary: c0 cr)
  case 0
  then show ?case by simp
next
  case (Suc fuel)
  show ?case
  proof (cases "c0 < c")
    case False
    with Suc.prems show ?thesis by (simp add: cr_result_done word_less_def)
  next
    case True
    then have lt: "uint c0 < uint c" by (simp add: word_less_def)
    have u1: "uint (c0 + 1) = uint c0 + 1" using lt Suc.prems(2) by (subst uint_add_u32) simp_all
    have u2: "uint (c0 + 2) = uint c0 + 2" using lt Suc.prems(2) by (subst uint_add_u32) simp_all
    have "cr_result (cr_contents cr @ flat (alt_ivs (uint c0) (uint c)))
        (cbind (cr_add_interval cr c0 (c0 + 1)) (\<lambda>(cr, r). if r \<noteq> 0 then Inr (cr, -1) else alternate_loop fuel (c0 + 2) c cr))"
    proof (rule cr_result_bind [OF cr_add_interval_int [OF Suc.prems(1) refl u1]])
      fix cr1
      assume cr1: "cr_inv cr1" "cr_contents cr1 = cr_contents cr @ flat [(uint c0, uint c0 + 1)]"
      have "cr_result (cr_contents cr1 @ flat (alt_ivs (uint (c0 + 2)) (uint c))) (alternate_loop fuel (c0 + 2) c cr1)"
        using Suc.prems lt by (intro Suc.IH) (auto simp: cr1 u2)
      then show "cr_result (cr_contents cr @ flat (alt_ivs (uint c0) (uint c))) (alternate_loop fuel (c0 + 2) c cr1)"
        using cr1(2) lt by (simp add: u2)
    qed
    with True show ?thesis by simp
  qed
qed

definition cat_ivs :: "u32 \<Rightarrow> int \<Rightarrow> int \<Rightarrow> int \<Rightarrow> (int \<times> int) list" where
  "cat_ivs gc_mask v c0 c =
     (if v = 31 then
        (if bit gc_mask 1 \<and> bit gc_mask 2 then [(c0, c)]
         else if bit gc_mask 1 then alt_ivs c0 c
         else if bit gc_mask 2 then alt_ivs (c0 + 1) c else [])
      else if bit gc_mask (nat v) then [(c0, c)] else [])"

lemma gc_bits:
  "gc_bit 1 = 2" "gc_bit 2 = 4" "2 OR 4 = (6 :: u32)"
  by (simp_all add: gc_bit_def)

lemma and_6: fixes m :: u32
  shows "m AND 6 = 0 \<longleftrightarrow> \<not> bit m 1 \<and> \<not> bit m 2" "m AND 6 = 6 \<longleftrightarrow> bit m 1 \<and> bit m 2" "m AND 4 = 0 \<longleftrightarrow> \<not> bit m 2"
proof -
  have six: "bit (6 :: int) n \<longleftrightarrow> n = 1 \<or> n = 2" for n
    by (auto simp: bit_numeral_rec bit_1_iff split: nat.splits)
  show "m AND 6 = 0 \<longleftrightarrow> \<not> bit m 1 \<and> \<not> bit m 2"
    unfolding bit_eq_iff by (auto simp: bit_and_iff six dest: spec [of _ 1] spec [of _ 2])
  show "m AND 6 = 6 \<longleftrightarrow> bit m 1 \<and> bit m 2"
  proof
    assume a: "m AND 6 = 6"
    have "bit (m AND 6) 1" "bit (m AND 6) 2" unfolding a by (simp_all add: six)
    then show "bit m 1 \<and> bit m 2" by (simp add: bit_and_iff)
  next
    assume "bit m 1 \<and> bit m 2"
    then show "m AND 6 = 6" by (intro word_bits_eqI) (auto simp: bit_and_iff six)
  qed
  show "m AND 4 = 0 \<longleftrightarrow> \<not> bit m 2" using and_exp_eq_0_iff_not_bit [of m 2] by simp
qed

lemma shr_and_1: "(drop_bit n m AND 1 \<noteq> 0) = bit m n"
  by (simp add: and_one_eq odd_iff_mod_2_eq_one [symmetric] bit_iff_odd_drop_bit)

lemma gc_add_31:
  "gc_add m 31 c0 c cr =
     (if bit m 1 \<and> bit m 2 then cr_add_interval cr c0 c
      else if bit m 1 then alternate_loop (unat c + 1) c0 c cr
      else if bit m 2 then alternate_loop (unat c + 1) (c0 + 1) c cr
      else Inr (cr, 0))"
  unfolding gc_add_def gc_bits Let_def and_6 by (auto simp del: alternate_loop.simps)

lemma gc_add_result:
  assumes "cr_inv cr" "uint c + 1 < 2 ^ 32" "uint c0 < uint c"
  shows "cr_result (cr_contents cr @ flat (cat_ivs gc_mask (uint v) (uint c0) (uint c))) (gc_add gc_mask v c0 c cr)"
proof (cases "v = 31")
  case False
  then have "uint v \<noteq> 31" by (simp add: word_uint_eq_iff)
  with False assms(1) cr_add_interval_int [OF assms(1) refl refl, of c0 c] show ?thesis
    by (simp add: gc_add_def cat_ivs_def shr_and_1 cr_result_done)
next
  case True
  have u1: "uint (c0 + 1) = uint c0 + 1" using assms by (subst uint_add_u32) simp_all
  have fuel: "nat (uint c - uint d) < unat c + 1" for d
  proof -
    have "nat (uint c - uint d) \<le> nat (uint c)" by (rule nat_mono) simp
    then show ?thesis by simp
  qed
  show ?thesis
    unfolding True gc_add_31
    using cr_add_interval_int [OF assms(1) refl refl, of c0 c] alternate_loop_result [OF assms(1,2) fuel, of c0]
      alternate_loop_result [OF assms(1,2) fuel, of "c0 + 1"] cr_result_done [OF assms(1)]
    by (simp add: cat_ivs_def u1 del: alternate_loop.simps alt_ivs_simps)
qed

lemma cat_ivs_ascending:
  assumes "c0 \<le> c" "c < 2 ^ 32"
  shows "ascending c0 (cat_ivs m v c0 c) \<and> (\<forall>(l, h)\<in>set (cat_ivs m v c0 c). h \<le> c)"
  using assms alt_ivs_ascending [OF assms(2), of c0] alt_ivs_ascending [OF assms(2), of "c0 + 1"]
    ascending_mono [of "c0 + 1" "alt_ivs (c0 + 1) c" c0]
  by (auto simp: cat_ivs_def)

text \<open>The category of a character at offset \<open>x - c\<close> in a run of code \<open>v\<close>; code 31 alternates between \<open>Lu\<close> and \<open>Ll\<close>.\<close>

definition cat_at :: "int \<Rightarrow> int \<Rightarrow> nat" where
  "cat_at v d = (if v = 31 then if even d then UNICODE_GC_Lu else UNICODE_GC_Ll else nat v)"

lemma cat_ivs_set:
  "x \<in> iv_set (cat_ivs m v c0 c) \<longleftrightarrow> c0 \<le> uint x \<and> uint x < c \<and> bit m (cat_at v (uint x - c0))"
proof (cases "v = 31")
  case False
  then show ?thesis by (auto simp: cat_ivs_def cat_at_def)
next
  case True
  have "x \<in> iv_set (alt_ivs (c0 + 1) c) \<longleftrightarrow> c0 \<le> uint x \<and> uint x < c \<and> odd (uint x - c0)"
    unfolding alt_ivs_set by presburger
  with True show ?thesis
    by (cases "bit m 1"; cases "bit m 2"; cases "even (uint x - c0)") (simp_all add: cat_ivs_def cat_at_def alt_ivs_set)
qed

section \<open>The table\<close>

fun gc_ivs :: "u32 \<Rightarrow> int \<Rightarrow> (int \<times> int) list \<Rightarrow> (int \<times> int) list" where
  "gc_ivs m c [] = []"
| "gc_ivs m c ((n, v) # rs) = cat_ivs m v c (c + n) @ gc_ivs m (c + n) rs"

fun gc_class :: "int \<Rightarrow> int \<Rightarrow> (int \<times> int) list \<Rightarrow> nat option" where
  "gc_class x c [] = None"
| "gc_class x c ((n, v) # rs) = (if x < c + n then Some (cat_at v (x - c)) else gc_class x (c + n) rs)"

lemma gc_ivs_ascending:
  "(\<And>n v. (n, v) \<in> set rs \<Longrightarrow> 1 \<le> n) \<Longrightarrow> c + sum_list (map fst rs) < 2 ^ 32 \<Longrightarrow> ascending c (gc_ivs m c rs)"
proof (induction rs arbitrary: c)
  case (Cons nv rs)
  obtain n v where nv: "nv = (n, v)" by (cases nv)
  have n: "1 \<le> n" "\<And>n v. (n, v) \<in> set rs \<Longrightarrow> 1 \<le> n" using Cons.prems(1) nv by auto
  then have "0 \<le> sum_list (map fst rs)" by (intro sum_list_nonneg) fastforce
  then have lt: "c + n < 2 ^ 32" using Cons.prems(2) nv by simp
  have "ascending (c + n) (gc_ivs m (c + n) rs)" using Cons.prems nv by (intro Cons.IH) (auto simp: n algebra_simps)
  with cat_ivs_ascending [of c "c + n" m v] n lt show ?case
    unfolding nv gc_ivs.simps by (intro ascending_append) auto
qed simp

lemma gc_ivs_set:
  "(\<And>n v. (n, v) \<in> set rs \<Longrightarrow> 1 \<le> n) \<Longrightarrow>
     x \<in> iv_set (gc_ivs m c rs) \<longleftrightarrow> c \<le> uint x \<and> (\<exists>k. gc_class (uint x) c rs = Some k \<and> bit m k)"
proof (induction rs arbitrary: c)
  case (Cons nv rs)
  obtain n v where nv: "nv = (n, v)" by (cases nv)
  have n: "1 \<le> n" "\<And>n v. (n, v) \<in> set rs \<Longrightarrow> 1 \<le> n" using Cons.prems nv by auto
  have "x \<in> iv_set (gc_ivs m (c + n) rs) \<longleftrightarrow> c + n \<le> uint x \<and> (\<exists>k. gc_class (uint x) (c + n) rs = Some k \<and> bit m k)"
    using n by (intro Cons.IH)
  with n(1) show ?case unfolding nv by (auto simp: cat_ivs_set)
qed simp

lemma gc_runs_range: "gc_runs t = Some rs \<Longrightarrow> (n, v) \<in> set rs \<Longrightarrow> 1 \<le> n \<and> 0 \<le> v \<and> v < 32"
proof (induction t arbitrary: rs rule: gc_runs.induct)
  case (2 b t)
  from "2.prems"(1) obtain n' v' t' rs' where c: "gc_code b t = Some (n', v', t')" "gc_runs t' = Some rs'" "rs = (n', v') # rs'"
    by (auto split: option.splits)
  have "1 \<le> n' \<and> 0 \<le> v' \<and> v' < 32"
    by (rule gc_next_code [of 0 "b # t" b t n' v' t']) (use c(1) in auto)
  with 2 c show ?case by auto
qed simp

lemma gc_class_beyond:
  "(\<And>n v. (n, v) \<in> set rs \<Longrightarrow> 1 \<le> n) \<Longrightarrow> c + sum_list (map fst rs) \<le> x \<Longrightarrow> gc_class x c rs = None"
proof (induction rs arbitrary: c)
  case (Cons nv rs)
  obtain n v where nv: "nv = (n, v)" by (cases nv)
  have n: "\<And>n v. (n, v) \<in> set rs \<Longrightarrow> 1 \<le> n" using Cons.prems(1) by auto
  then have "0 \<le> sum_list (map fst rs)" by (intro sum_list_nonneg) fastforce
  then show ?case using Cons.IH [of "c + n"] Cons.prems(2) n by (simp add: nv)
qed simp

lemma gc_runs_pos: "gc_runs t = Some rs \<Longrightarrow> (n, v) \<in> set rs \<Longrightarrow> 1 \<le> n"
  using gc_runs_range by blast

lemma gc1_loop_result:
  assumes "gc_runs (drop p table) = Some rs" "uint c + sum_list (map fst rs) + 1 < 2 ^ 32" "cr_inv cr"
  shows "cr_result (cr_contents cr @ flat (gc_ivs gc_mask (uint c) rs)) (gc1_loop table gc_mask p c cr)"
  using assms
proof (induction "length table - p" arbitrary: p rs c cr rule: less_induct)
  case less
  show ?case
  proof (cases "drop p table")
    case Nil
    with less.prems show ?thesis by (simp add: gc1_loop.simps [of table gc_mask p] cr_result_done)
  next
    case (Cons b t)
    then have p: "p < length table" using drop_ConsD [OF Cons] by simp
    from less.prems(1) obtain n v t' rs' where code: "gc_code b t = Some (n, v, t')" "gc_runs t' = Some rs'" "rs = (n, v) # rs'"
      by (auto simp: Cons split: option.splits)
    obtain p' w u where
      nx: "gc_next table p = Inr (p', w, u)" "uint w = n - 1" "uint u = v" "drop p' table = t'" "p < p'" "1 \<le> n"
      by (rule gc_next_code [OF Cons code(1)])
    have "0 \<le> sum_list (map fst rs')" using gc_runs_pos [OF code(2)] by (intro sum_list_nonneg) fastforce
    then have lt: "uint c + n + 1 < 2 ^ 32" using less.prems(2) code(3) by simp
    have "0 \<le> uint c" by simp
    with lt have "n < 2 ^ 32" by linarith
    then have n1: "uint (w + 1) = n" using nx by (subst uint_add_u32) simp_all
    have c1: "uint (c + (w + 1)) = uint c + n" using lt n1 by (subst uint_add_u32) simp_all
    have m: "length table - p' < length table - p" using nx p by linarith
    have "cr_result (cr_contents cr @ flat (gc_ivs gc_mask (uint c) rs))
        (cbind (gc_add gc_mask u c (c + (w + 1)) cr) (\<lambda>(cr, r). if r \<noteq> 0 then Inr (cr, -1) else gc1_loop table gc_mask p' (c + (w + 1)) cr))"
    proof (rule cr_result_bind [OF gc_add_result [OF less.prems(3)]])
      fix cr1
      assume cr1: "cr_inv cr1" "cr_contents cr1 = cr_contents cr @ flat (cat_ivs gc_mask (uint u) (uint c) (uint (c + (w + 1))))"
      have "cr_result (cr_contents cr1 @ flat (gc_ivs gc_mask (uint (c + (w + 1))) rs')) (gc1_loop table gc_mask p' (c + (w + 1)) cr1)"
        using less.prems(2) code nx by (intro less.hyps [OF m] cr1) (simp_all add: c1)
      then show "cr_result (cr_contents cr @ flat (gc_ivs gc_mask (uint c) rs)) (gc1_loop table gc_mask p' (c + (w + 1)) cr1)"
        using cr1(2) code(3) nx(3) by (simp add: c1)
    qed (use lt c1 nx in simp_all)
    with p nx(1) show ?thesis by (simp add: gc1_loop.simps [of table gc_mask p])
  qed
qed

section \<open>The real table\<close>

text \<open>Each part of the table, evaluated from the sum of the parts before it.\<close>

lemma gc_total_0: "gc_total 0 (unicode_gc_table_0 @ rest) = gc_total 505 rest"
  by code_simp

lemma gc_total_1: "gc_total 505 (unicode_gc_table_1 @ rest) = gc_total 1552 (0xe6 # rest)"
  by code_simp

lemma gc_total_2: "gc_total 1552 (0xe6 # unicode_gc_table_2 @ rest) = gc_total 2418 rest"
  by code_simp

lemma gc_total_3: "gc_total 2418 (unicode_gc_table_3 @ rest) = gc_total 2802 rest"
  by code_simp

lemma gc_total_4: "gc_total 2802 (unicode_gc_table_4 @ rest) = gc_total 3199 rest"
  by code_simp

lemma gc_total_5: "gc_total 3199 (unicode_gc_table_5 @ rest) = gc_total 3713 rest"
  by code_simp

lemma gc_total_6: "gc_total 3713 (unicode_gc_table_6 @ rest) = gc_total 4296 rest"
  by code_simp

lemma gc_total_7: "gc_total 4296 (unicode_gc_table_7 @ rest) = gc_total 6112 rest"
  by code_simp

lemma gc_total_8: "gc_total 6112 (unicode_gc_table_8 @ rest) = gc_total 7009 rest"
  by code_simp

lemma gc_total_9: "gc_total 7009 (unicode_gc_table_9 @ rest) = gc_total 8030 rest"
  by code_simp

lemma gc_total_10: "gc_total 8030 (unicode_gc_table_10 @ rest) = gc_total 8459 rest"
  by code_simp

lemma gc_total_11: "gc_total 8459 (unicode_gc_table_11 @ rest) = gc_total 10097 rest"
  by code_simp

lemma gc_total_12: "gc_total 10097 (unicode_gc_table_12 @ rest) = gc_total 11687 rest"
  by code_simp

lemma gc_total_13: "gc_total 11687 (unicode_gc_table_13 @ rest) = gc_total 12353 rest"
  by code_simp

lemma gc_total_14: "gc_total 12353 (unicode_gc_table_14 @ rest) = gc_total 42889 rest"
  by code_simp

lemma gc_total_15: "gc_total 42889 (unicode_gc_table_15 @ rest) = gc_total 43584 rest"
  by code_simp

lemma gc_total_16: "gc_total 43584 (unicode_gc_table_16 @ rest) = gc_total 64322 rest"
  by code_simp

lemma gc_total_17: "gc_total 64322 (unicode_gc_table_17 @ rest) = gc_total 65438 rest"
  by code_simp

lemma gc_total_18: "gc_total 65438 (unicode_gc_table_18 @ rest) = gc_total 66812 rest"
  by code_simp

lemma gc_total_19: "gc_total 66812 (unicode_gc_table_19 @ rest) = gc_total 68176 rest"
  by code_simp

lemma gc_total_20: "gc_total 68176 (unicode_gc_table_20 @ rest) = gc_total 69750 rest"
  by code_simp

lemma gc_total_21: "gc_total 69750 (unicode_gc_table_21 @ rest) = gc_total 70458 rest"
  by code_simp

lemma gc_total_22: "gc_total 70458 (unicode_gc_table_22 @ rest) = gc_total 71487 rest"
  by code_simp

lemma gc_total_23: "gc_total 71487 (unicode_gc_table_23 @ rest) = gc_total 72794 (0xeb # rest)"
  by code_simp

lemma gc_total_24: "gc_total 72794 (0xeb # unicode_gc_table_24 @ rest) = gc_total 78919 (0xe6 # rest)"
  by code_simp

lemma gc_total_25: "gc_total 78919 (0xe6 # unicode_gc_table_25 @ rest) = gc_total 111356 rest"
  by code_simp

lemma gc_total_26: "gc_total 111356 (unicode_gc_table_26 @ rest) = gc_total 120093 rest"
  by code_simp

lemma gc_total_27: "gc_total 120093 (unicode_gc_table_27 @ rest) = gc_total 122990 (0xe0 # rest)"
  by code_simp

lemma gc_total_28: "gc_total 122990 (0xe0 # unicode_gc_table_28 @ rest) = gc_total 126555 rest"
  by code_simp

lemma gc_total_29: "gc_total 126555 (unicode_gc_table_29 @ rest) = gc_total 129280 rest"
  by code_simp

lemma gc_total_30: "gc_total 129280 (unicode_gc_table_30 @ rest) = gc_total 1114112 rest"
  by code_simp

lemmas gc_total_parts =
  gc_total_0 gc_total_1 gc_total_2 gc_total_3 gc_total_4 gc_total_5 gc_total_6 gc_total_7
  gc_total_8 gc_total_9 gc_total_10 gc_total_11 gc_total_12 gc_total_13 gc_total_14 gc_total_15
  gc_total_16 gc_total_17 gc_total_18 gc_total_19 gc_total_20 gc_total_21 gc_total_22 gc_total_23
  gc_total_24 gc_total_25 gc_total_26 gc_total_27 gc_total_28 gc_total_29 gc_total_30

lemma unicode_gc_table_total: "gc_total 0 unicode_gc_table = Some 1114112"
  by (simp only: unicode_gc_table_def concat.simps gc_total_parts gc_total.simps(1))

definition gc_table_runs :: "(int \<times> int) list" where
  "gc_table_runs = (case gc_runs unicode_gc_table of Some rs \<Rightarrow> rs | None \<Rightarrow> [])"

text \<open>The general category of a character, read off the decoded table.\<close>

definition general_category :: "u32 \<Rightarrow> nat option" where
  "general_category c = gc_class (uint c) 0 gc_table_runs"

lemma gc_table_runs:
  "gc_runs unicode_gc_table = Some gc_table_runs" "sum_list (map fst gc_table_runs) = 0x110000"
  "(n, v) \<in> set gc_table_runs \<Longrightarrow> 1 \<le> n \<and> 0 \<le> v \<and> v < 32 \<and> v \<noteq> 30"
proof -
  from gc_total_runs [OF unicode_gc_table_total]
  obtain rs where rs: "gc_runs unicode_gc_table = Some rs" "sum_list (map fst rs) = 0x110000"
    "\<forall>(n, v)\<in>set rs. v \<noteq> 30" by auto
  then show "gc_runs unicode_gc_table = Some gc_table_runs" "sum_list (map fst gc_table_runs) = 0x110000"
    by (simp_all add: gc_table_runs_def)
  show "(n, v) \<in> set gc_table_runs \<Longrightarrow> 1 \<le> n \<and> 0 \<le> v \<and> v < 32 \<and> v \<noteq> 30"
    using rs gc_runs_range [OF rs(1), of n v] by (auto simp: gc_table_runs_def)
qed

lemma gc_class_exists:
  "(\<And>n v. (n, v) \<in> set rs \<Longrightarrow> 1 \<le> n) \<Longrightarrow> x < c + sum_list (map fst rs) \<Longrightarrow> rs \<noteq> [] \<Longrightarrow>
     \<exists>k n v d. gc_class x c rs = Some k \<and> (n, v) \<in> set rs \<and> k = cat_at v d"
proof (induction rs arbitrary: c)
  case (Cons nv rs)
  obtain n v where nv: "nv = (n, v)" by (cases nv)
  show ?case
  proof (cases "x < c + n")
    case True
    then show ?thesis by (auto simp: nv)
  next
    case False
    with Cons.prems nv have "rs \<noteq> []" by auto
    moreover have "x < (c + n) + sum_list (map fst rs)" using Cons.prems(2) nv by simp
    ultimately show ?thesis using Cons.IH [of "c + n"] Cons.prems(1) False nv by fastforce
  qed
qed simp

lemma unicode_general_category1_denotes:
  assumes "cr_inv cr" "cr_len cr = 0"
  shows "cr_denotes {x. \<exists>k. general_category x = Some k \<and> bit gc_mask k} (unicode_general_category1 cr gc_mask)"
proof -
  have c0: "cr_contents cr = []" using assms(2) by (simp add: cr_contents_def)
  have pos: "\<And>n v. (n, v) \<in> set gc_table_runs \<Longrightarrow> 1 \<le> n" using gc_table_runs(3) by blast
  have "cr_result (cr_contents cr @ flat (gc_ivs gc_mask (uint (0 :: u32)) gc_table_runs))
      (gc1_loop unicode_gc_table gc_mask 0 0 cr)"
    by (rule gc1_loop_result) (simp_all add: gc_table_runs assms)
  then have "cr_result (flat (gc_ivs gc_mask 0 gc_table_runs)) (unicode_general_category1 cr gc_mask)"
    by (simp add: unicode_general_category1_def c0)
  then have "cr_denotes (iv_set (gc_ivs gc_mask 0 gc_table_runs)) (unicode_general_category1 cr gc_mask)"
    by (rule cr_result_denotes) (rule gc_ivs_ascending [OF pos], simp_all add: gc_table_runs)
  moreover have "iv_set (gc_ivs gc_mask 0 gc_table_runs) = {x. \<exists>k. general_category x = Some k \<and> bit gc_mask k}"
    using gc_ivs_set [OF pos, of gc_table_runs] by (auto simp: general_category_def)
  ultimately show ?thesis by simp
qed

section \<open>Properties\<close>

text \<open>
  C19. The general category table gives every code point of Unicode a category: the runs of the table end
  exactly at U+10FFFF, and the number decoded for a code point is one of the 30 categories of
  \<open>UnicodeGCEnum\<close>, from \<open>Cn\<close> to \<open>Co\<close>. Beyond U+10FFFF there is none.
\<close>

theorem general_category_bounds:
  "(\<exists>k. general_category c = Some k \<and> k \<le> UNICODE_GC_Co) = (c < 0x110000) \<and>
   (general_category c = None) = (0x110000 \<le> c)"
proof -
  have pos: "\<And>n v. (n, v) \<in> set gc_table_runs \<Longrightarrow> 1 \<le> n" using gc_table_runs(3) by blast
  have beyond: "general_category c = None" if "0x110000 \<le> c"
    unfolding general_category_def using that
    by (intro gc_class_beyond) (auto simp: gc_table_runs pos word_le_def)
  have "\<exists>k. general_category c = Some k \<and> k \<le> 29" if "c < 0x110000"
  proof -
    have "gc_table_runs \<noteq> []" using gc_table_runs(2) by auto
    moreover have "uint c < 0 + sum_list (map fst gc_table_runs)" using that by (simp add: gc_table_runs word_less_def)
    ultimately obtain k n v d where k: "gc_class (uint c) 0 gc_table_runs = Some k" "(n, v) \<in> set gc_table_runs" "k = cat_at v d"
      using gc_class_exists [of gc_table_runs "uint c" 0] pos by blast
    have "v < 32" "v \<noteq> 30" using gc_table_runs(3) [OF k(2)] by simp_all
    then have "k \<le> 29" using k(3) by (auto simp: cat_at_def)
    with k show ?thesis by (simp add: general_category_def)
  qed
  with beyond show ?thesis by (cases "c < 0x110000") (auto simp: not_less)
qed

text \<open>
  C20. \<open>unicode_general_category1\<close> on an empty range never reads outside the table, ends, and unless it runs
  out of memory leaves a sorted range that denotes exactly the characters whose category is in \<open>gc_mask\<close>,
  also where only one half of an alternating run of upper and lower case letters is selected.
\<close>

theorem unicode_general_category1_correct:
  assumes "cr_inv cr" "cr_len cr = 0"
  shows "cr_denotes {x. \<exists>k. general_category x = Some k \<and> bit gc_mask k} (unicode_general_category1 cr gc_mask)"
  using assms by (rule unicode_general_category1_denotes)

theorem unicode_general_category1_correct_witness:
  "cr_denotes {x. \<exists>k. general_category x = Some k \<and> bit (6 :: u32) k} (unicode_general_category1 (cr_init 100000 None) 6)"
  using unicode_general_category1_correct [of "cr_init 100000 None" 6] cr_init_inv [of None 100000]
  by (simp add: cr_init_def)

end
