(* ===== verification/Case_Ranges.thy ===== *)
theory Case_Ranges
  imports Category_Decode Case_Fold
begin

text \<open>
  What \<open>unicode_case1\<close> computes: the characters of the runs of \<open>case_conv_table1\<close> whose type is modified by one of
  the selected conversions; of a run that alternates between the cases only those in the affected positions.
\<close>

section \<open>The intervals of a run\<close>

text \<open>The positions of a run that \<open>unicode_case1\<close> adds, for a run type in the mask.\<close>

definition one_case :: "u32 \<Rightarrow> bool" where
  "one_case case_mask \<longleftrightarrow> \<not> (case_mask AND CASE_U \<noteq> 0 \<and> case_mask AND (CASE_L OR CASE_F) \<noteq> 0)"

definition case_pos :: "u32 \<Rightarrow> u32 \<Rightarrow> int \<Rightarrow> bool" where
  "case_pos case_mask v d =
     (let U = (case_mask AND CASE_U \<noteq> 0) in
      if case_type v = RUN_TYPE_UL \<and> one_case case_mask then odd d = U
      else if case_type v = RUN_TYPE_LSU \<and> one_case case_mask then d = 1 \<or> d = (if U then 2 else 0)
      else True)"

definition entry_ivs :: "u32 \<Rightarrow> u32 \<Rightarrow> (int \<times> int) list" where
  "entry_ivs case_mask v =
     (let U = (case_mask AND CASE_U \<noteq> 0); code = uint (case_code v); len = uint (case_len v) in
      if case_type v = RUN_TYPE_UL \<and> one_case case_mask then
        alt_ivs (code + (if U then 1 else 0)) (code + (if U then 1 else 0) + len)
      else if case_type v = RUN_TYPE_LSU \<and> one_case case_mask then
        (if U then [(code + 1, code + 2), (code + 2, code + 3)] else [(code, code + 1), (code + 1, code + 2)])
      else [(code, code + len)])"

text \<open>Alternating runs consist of pairs, and runs of type \<open>LSU\<close> of three characters.\<close>

definition shape_ok :: "u32 \<Rightarrow> bool" where
  "shape_ok v \<longleftrightarrow> (case_type v = RUN_TYPE_UL \<longrightarrow> even (uint (case_len v))) \<and> (case_type v = RUN_TYPE_LSU \<longrightarrow> case_len v = 3)"

lemma shapes_ok: "list_all shape_ok case_conv_table1"
  unfolding case_conv_table1_defs list.pred_inject
  by (intro conjI TrueI; simp add: shape_ok_def case_type_def case_len_def)

lemma case_code_lt: "uint (case_code v) < 2 ^ 17"
  unfolding case_code_def uint_shr using uint_lt2p [of v] by (simp add: div_less_iff_less_mult)

lemma case_len_lt: "uint (case_len v) < 128"
proof -
  have "case_len v \<le> 0x7f" unfolding case_len_def by (rule word_and_le1)
  then show ?thesis by (simp add: word_le_def)
qed

lemma uint_code_add: "uint w < 2 ^ 20 \<Longrightarrow> uint (case_code v + w) = uint (case_code v) + uint w"
  using case_code_lt [of v] by (intro uint_add_u32) simp

lemma uint_case_end: "uint (case_code v + case_len v) = uint (case_code v) + uint (case_len v)"
  using case_len_lt [of v] by (intro uint_code_add) simp

lemma ul_loop_result:
  assumes "cr_inv cr" "uint code < 2 ^ 20" "uint len < 128" "uint i \<le> uint len + 1" "nat (uint len - uint i) < fuel"
  shows "cr_result (cr_contents cr @ flat (alt_ivs (uint code + uint i) (uint code + uint len))) (ul_loop fuel code i len cr)"
  using assms
proof (induction fuel arbitrary: i cr)
  case 0
  then show ?case by simp
next
  case (Suc fuel)
  show ?case
  proof (cases "i < len")
    case False
    with Suc.prems show ?thesis by (simp add: cr_result_done word_less_def)
  next
    case True
    then have lt: "uint i < uint len" by (simp add: word_less_def)
    have u0: "uint (code + i) = uint code + uint i" using lt Suc.prems by (intro uint_add_u32) simp
    have u1: "uint (code + i + 1) = uint code + uint i + 1" using lt Suc.prems by (subst uint_add_u32) (simp_all add: u0)
    have u2: "uint (i + 2) = uint i + 2" using lt Suc.prems by (subst uint_add_u32) simp_all
    have "cr_result (cr_contents cr @ flat (alt_ivs (uint code + uint i) (uint code + uint len)))
        (cbind (cr_add_interval cr (code + i) (code + i + 1)) (\<lambda>(cr, r). if r \<noteq> 0 then Inr (cr, -1) else ul_loop fuel code (i + 2) len cr))"
    proof (rule cr_result_bind [OF cr_add_interval_int [OF Suc.prems(1) u0 u1]])
      fix cr1
      assume cr1: "cr_inv cr1" "cr_contents cr1 = cr_contents cr @ flat [(uint code + uint i, uint code + uint i + 1)]"
      have "cr_result (cr_contents cr1 @ flat (alt_ivs (uint code + uint (i + 2)) (uint code + uint len))) (ul_loop fuel code (i + 2) len cr1)"
        using Suc.prems lt by (intro Suc.IH) (auto simp: cr1 u2)
      then show "cr_result (cr_contents cr @ flat (alt_ivs (uint code + uint i) (uint code + uint len))) (ul_loop fuel code (i + 2) len cr1)"
        using cr1(2) lt by (simp add: u2 add.assoc)
    qed
    with True show ?thesis by simp
  qed
qed

lemma add_if_result:
  assumes "cr_result ps (Inr s)" "uint c1 = a" "uint c2 = b"
  shows "cr_result (ps @ flat (if B then [(a, b)] else [])) (add_if B c1 c2 s)"
proof -
  obtain cr r where s: "s = (cr, r)" by (cases s)
  with assms(1) have "cr_inv cr" "r = 0 \<and> cr_contents cr = ps \<or> r = -1" by (auto simp: cr_result_def)
  then show ?thesis
    using cr_add_interval_if [OF \<open>cr_inv cr\<close> assms(2,3), of B] by (auto simp: s add_if_def cr_result_def)
qed

lemma cr_resultE:
  assumes "cr_result ps m"
  obtains s where "m = Inr s" "cr_result ps (Inr s)"
  using assms by (auto simp: cr_result_def)

lemma case1_entry_result:
  assumes "cr_inv cr"
  shows "cr_result (cr_contents cr @ flat (entry_ivs case_mask v)) (case1_entry case_mask v cr)"
proof -
  define code len where "code = case_code v" and "len = case_len v"
  have code: "uint code < 2 ^ 17" and len: "uint len < 128"
    by (simp_all only: code_def len_def case_code_lt case_len_lt)
  have add: "uint (code + 1) = uint code + 1" "uint (code + 2) = uint code + 2" "uint (code + 3) = uint code + 3"
    "uint (code + len) = uint code + uint len"
    using code len by (subst uint_add_u32; simp)+
  consider (ul) "case_type v = 4" "one_case case_mask" | (lsu) "case_type v = 5" "one_case case_mask"
    | (rest) "\<not> (case_type v = 4 \<and> one_case case_mask)" "\<not> (case_type v = 5 \<and> one_case case_mask)" by blast
  then show ?thesis
  proof cases
    case ul
    define d :: u32 where "d = (if case_mask AND CASE_U \<noteq> 0 then 1 else 0)"
    have d: "uint (code + d) = uint code + (if case_mask AND CASE_U \<noteq> 0 then 1 else 0)" using add by (simp add: d_def)
    have "cr_result (cr_contents cr @ flat (alt_ivs (uint (code + d) + uint (0 :: u32)) (uint (code + d) + uint len)))
        (ul_loop (unat len + 1) (code + d) 0 len cr)"
      by (rule ul_loop_result) (use assms code len d in \<open>simp_all del: ul_loop.simps\<close>)
    with ul show ?thesis
      by (simp add: case1_entry_def entry_ivs_def one_case_def Let_def code_def [symmetric] len_def [symmetric] d
          d_def [symmetric] del: ul_loop.simps)
  next
    case lsu
    define U where "U \<longleftrightarrow> case_mask AND CASE_U \<noteq> 0"
    obtain s1 where s1: "add_if (\<not> U) code (code + 1) (cr, 0) = Inr s1"
      "cr_result (cr_contents cr @ flat (if \<not> U then [(uint code, uint code + 1)] else [])) (Inr s1)"
      by (rule cr_resultE [OF add_if_result [OF cr_result_done [OF assms] refl add(1)]])
    obtain s2 where s2: "add_if True (code + 1) (code + 2) s1 = Inr s2"
      "cr_result ((cr_contents cr @ flat (if \<not> U then [(uint code, uint code + 1)] else [])) @
         flat (if True then [(uint code + 1, uint code + 2)] else [])) (Inr s2)"
      by (rule cr_resultE [OF add_if_result [OF s1(2) add(1,2)]])
    have "case1_entry case_mask v cr = add_if U (code + 2) (code + 3) s2"
      using lsu s1(1) s2(1) by (simp add: case1_entry_def one_case_def Let_def U_def code_def)
    with add_if_result [OF s2(2) add(2,3), of U] lsu show ?thesis
      by (cases U) (simp_all add: entry_ivs_def Let_def flip: U_def code_def)
  next
    case rest
    then show ?thesis
      using cr_add_interval_int [OF assms refl add(4)]
      by (auto simp: case1_entry_def entry_ivs_def one_case_def Let_def code_def len_def)
  qed
qed

section \<open>The whole table\<close>

definition case_ivs :: "u32 \<Rightarrow> u32 \<Rightarrow> u32 list \<Rightarrow> (int \<times> int) list" where
  "case_ivs case_mask run_mask vs =
     concat (map (\<lambda>v. if bit run_mask (unat (case_type v)) then entry_ivs case_mask v else []) vs)"

lemma case1_loop_result:
  "cr_inv cr \<Longrightarrow> cr_result (cr_contents cr @ flat (case_ivs case_mask run_mask vs)) (case1_loop case_mask run_mask vs cr)"
proof (induction vs arbitrary: cr)
  case Nil
  then show ?case by (simp add: case_ivs_def cr_result_done)
next
  case (Cons v vs)
  let ?ivs = "if bit run_mask (unat (case_type v)) then entry_ivs case_mask v else []"
  have 1: "cr_result (cr_contents cr @ flat ?ivs)
      (if drop_bit (unat (case_type v)) run_mask AND 1 \<noteq> 0 then case1_entry case_mask v cr else Inr (cr, 0))"
    unfolding shr_and_1 using case1_entry_result [OF Cons.prems] cr_result_done [OF Cons.prems] by simp
  show ?case
    unfolding case1_loop.simps
  proof (rule cr_result_bind [OF 1])
    fix cr1
    assume cr1: "cr_inv cr1" "cr_contents cr1 = cr_contents cr @ flat ?ivs"
    then show "cr_result (cr_contents cr @ flat (case_ivs case_mask run_mask (v # vs))) (case1_loop case_mask run_mask vs cr1)"
      using Cons.IH [OF cr1(1)] by (simp add: case_ivs_def)
  qed
qed

lemma alt_ivs_even:
  assumes "even len" "0 \<le> len" "code + len < 2 ^ 32"
  shows "ascending code (alt_ivs (code + 1) (code + 1 + len)) \<and> (\<forall>(l, h)\<in>set (alt_ivs (code + 1) (code + 1 + len)). h \<le> code + len)"
  using assms
proof (induction "nat len" arbitrary: code len rule: less_induct)
  case less
  show ?case
  proof (cases "len = 0")
    case False
    with less.prems have len: "2 \<le> len" by presburger
    have eq: "alt_ivs (code + 1) (code + 1 + len) = (code + 1, code + 2) # alt_ivs (code + 2 + 1) (code + 2 + 1 + (len - 2))"
      using len by (simp add: algebra_simps)
    have "ascending (code + 2) (alt_ivs (code + 2 + 1) (code + 2 + 1 + (len - 2))) \<and>
        (\<forall>(l, h)\<in>set (alt_ivs (code + 2 + 1) (code + 2 + 1 + (len - 2))). h \<le> code + 2 + (len - 2))"
      using less.prems len by (intro less.hyps) auto
    then show ?thesis unfolding eq using less.prems len by (auto intro: ascending_mono)
  qed simp
qed

lemma entry_ivs_ascending:
  assumes "shape_ok v"
  shows "ascending (uint (case_code v)) (entry_ivs m v) \<and>
    (\<forall>(l, h)\<in>set (entry_ivs m v). h \<le> uint (case_code v) + uint (case_len v))"
proof -
  define code len where "code = uint (case_code v)" and "len = uint (case_len v)"
  have b: "0 \<le> code" "code < 2 ^ 17" "0 \<le> len" "len < 128"
    using case_code_lt [of v] case_len_lt [of v] by (simp_all add: code_def len_def)
  have "case_type v = 4 \<Longrightarrow> even len" "case_type v = 5 \<Longrightarrow> len = 3"
    using assms by (auto simp: shape_ok_def len_def)
  with b alt_ivs_ascending [of "code + len" code] alt_ivs_even [of len code] show ?thesis
    by (auto simp: entry_ivs_def Let_def code_def [symmetric] len_def [symmetric] simp del: alt_ivs_simps)
qed

lemma entry_ivs_set:
  assumes "shape_ok v"
  shows "x \<in> iv_set (entry_ivs m v) \<longleftrightarrow> covers case_code case_len v x \<and> case_pos m v (uint x - uint (case_code v))"
proof -
  define code len where "code = uint (case_code v)" and "len = uint (case_len v)"
  have cov: "covers case_code case_len v x \<longleftrightarrow> code \<le> uint x \<and> uint x < code + len"
    by (simp add: covers_def word_le_def word_less_def uint_case_end code_def len_def)
  have sh: "case_type v = 4 \<Longrightarrow> even len" "case_type v = 5 \<Longrightarrow> len = 3"
    using assms by (auto simp: shape_ok_def len_def)
  have odd: "code + 1 \<le> u \<and> u < code + 1 + len \<and> even (u - (code + 1)) \<longleftrightarrow> code \<le> u \<and> u < code + len \<and> odd (u - code)"
    if "even len" for u :: int
    using that by presburger
  consider (ul) "case_type v = 4" "one_case m" | (lsu) "case_type v = 5" "one_case m"
    | (rest) "\<not> (case_type v = 4 \<and> one_case m)" "\<not> (case_type v = 5 \<and> one_case m)" by blast
  then show ?thesis
  proof cases
    case ul
    then show ?thesis
      using odd [OF sh(1), of "uint x"] unfolding cov
      by (simp add: entry_ivs_def case_pos_def Let_def alt_ivs_set code_def [symmetric] len_def [symmetric] del: alt_ivs_simps)
  next
    case lsu
    then show ?thesis
      using sh(2) unfolding cov
      by (auto simp: entry_ivs_def case_pos_def Let_def code_def [symmetric] len_def [symmetric])
  next
    case rest
    then show ?thesis unfolding cov by (auto simp: entry_ivs_def case_pos_def Let_def code_def len_def)
  qed
qed

lemma case_ivs_ascending:
  assumes "\<forall>v\<in>set vs. shape_ok v" "sorted_wrt (\<lambda>v w. case_code v + case_len v \<le> case_code w) vs"
    "\<forall>v\<in>set vs. lo \<le> uint (case_code v)"
  shows "ascending lo (case_ivs m rm vs)"
  using assms
proof (induction vs arbitrary: lo)
  case (Cons v vs)
  let ?e = "uint (case_code v) + uint (case_len v)"
  have rest: "ascending ?e (case_ivs m rm vs)"
    using Cons.prems by (intro Cons.IH) (auto simp: word_le_def uint_case_end)
  have lo: "lo \<le> uint (case_code v)" "lo \<le> ?e" using Cons.prems(3) by (auto simp: add_increasing2)
  have "ascending lo (if bit rm (unat (case_type v)) then entry_ivs m v else [])"
    using entry_ivs_ascending [of v m] Cons.prems(1) ascending_mono [OF _ lo(1)] by auto
  then have "ascending lo ((if bit rm (unat (case_type v)) then entry_ivs m v else []) @ case_ivs m rm vs)"
    using entry_ivs_ascending [of v m] Cons.prems(1) lo(2) rest
    by (intro ascending_append [where m = ?e]) auto
  then show ?case by (simp add: case_ivs_def)
qed (simp add: case_ivs_def)

definition case_run_mask :: "u32 \<Rightarrow> u32" where
  "case_run_mask case_mask =
     (if bit case_mask 0 then tab_run_mask ! 0 else 0) OR (if bit case_mask 1 then tab_run_mask ! 1 else 0) OR
     (if bit case_mask 2 then tab_run_mask ! 2 else 0)"

text \<open>The characters \<open>unicode_case1\<close> selects.\<close>

definition case_changed :: "u32 \<Rightarrow> u32 \<Rightarrow> bool" where
  "case_changed case_mask x \<longleftrightarrow>
     (\<exists>v\<in>set case_conv_table1. covers case_code case_len v x \<and>
        bit (case_run_mask case_mask) (unat (case_type v)) \<and> case_pos case_mask v (uint x - uint (case_code v)))"

lemma unicode_case1_denotes:
  assumes "cr_inv cr" "cr_len cr = 0"
  shows "cr_denotes {x. case_changed case_mask x} (unicode_case1 cr case_mask)"
proof -
  let ?ivs = "case_ivs case_mask (case_run_mask case_mask) case_conv_table1"
  have sh: "\<forall>v\<in>set case_conv_table1. shape_ok v" using shapes_ok by (simp add: list_all_iff)
  have c0: "cr_contents cr = []" using assms(2) by (simp add: cr_contents_def)
  have eq: "unicode_case1 cr case_mask = (if case_mask = 0 then Inr (cr, 0) else
      case1_loop case_mask (case_run_mask case_mask) case_conv_table1 cr)"
    using shr_and_1 [of 0 case_mask] by (simp add: unicode_case1_def case_run_mask_def shr_and_1)
  have "cr_result (flat ?ivs) (unicode_case1 cr case_mask)"
  proof (cases "case_mask = 0")
    case True
    then have "?ivs = []" by (simp add: case_run_mask_def case_ivs_def)
    moreover have "unicode_case1 cr case_mask = Inr (cr, 0)" using True unfolding eq by (rule if_P)
    ultimately show ?thesis using cr_result_done [OF assms(1)] by (simp add: c0)
  next
    case False
    then show ?thesis
      using case1_loop_result [OF assms(1), of case_mask "case_run_mask case_mask" case_conv_table1] by (simp add: eq c0)
  qed
  moreover have "sorted_wrt (\<lambda>v w. case_code v + case_len v \<le> case_code w) case_conv_table1"
    using case_runs.ordered_nth by (simp add: sorted_wrt_iff_nth_less)
  then have "ascending 0 ?ivs" by (intro case_ivs_ascending sh) auto
  ultimately have "cr_denotes (iv_set ?ivs) (unicode_case1 cr case_mask)" by (rule cr_result_denotes)
  moreover have "iv_set ?ivs = {x. case_changed case_mask x}"
  proof -
    have "x \<in> iv_set ?ivs \<longleftrightarrow> (\<exists>v\<in>set case_conv_table1. bit (case_run_mask case_mask) (unat (case_type v)) \<and> x \<in> iv_set (entry_ivs case_mask v))" for x
      by (auto simp: iv_set_def case_ivs_def split: if_splits)
    then show ?thesis using sh entry_ivs_set by (auto simp: case_changed_def)
  qed
  ultimately show ?thesis by simp
qed

end
