(* ===== verification/Case_Changes.thy ===== *)
theory Case_Changes
  imports Case_Ranges
begin

text \<open>
  \<open>unicode_case1\<close> against \<open>lre_case_conv\<close>: the ranges collected from the run types of \<open>case_conv_table1\<close> are
  exactly the characters that one of the selected conversions changes.
\<close>

section \<open>The entries\<close>

text \<open>No run is mapped to itself: what a conversion reads from the tables is never the code it started from.\<close>

definition changes_ok :: "u32 \<Rightarrow> u32 \<Rightarrow> u8 \<Rightarrow> bool" where
  "changes_ok i v low =
     (let type = case_type v; code = case_code v; data = push_bit 8 (v AND 0xf) OR ucast low :: u32 in
      case_len v \<noteq> 0 \<and>
      (if type < 4 then data \<noteq> i
       else if type = 6 then ucast (case_conv_ext ! unat (data AND 0x3f)) \<noteq> code
       else if type = 7 then case_len v = 1 \<and> data \<noteq> code \<and> data + 0x20 \<noteq> code
       else if type = 8 then case_len v = 1 \<and> ucast (case_conv_ext ! unat data) \<noteq> code \<and> ucast (case_conv_ext ! unat data) + 1 \<noteq> code
       else if type = 9 \<or> type = 10 then case_len v = 1 \<and> ucast (case_conv_ext ! unat data) \<noteq> code
       else type < 14))"

fun all_indexed :: "(u32 \<Rightarrow> u32 \<Rightarrow> u8 \<Rightarrow> bool) \<Rightarrow> u32 \<Rightarrow> u32 list \<Rightarrow> u8 list \<Rightarrow> bool" where
  "all_indexed P i (x # xs) (y # ys) \<longleftrightarrow> P i x y \<and> all_indexed P (i + 1) xs ys"
| "all_indexed P i [] [] \<longleftrightarrow> True"
| "all_indexed P i _ _ \<longleftrightarrow> False"

lemma all_indexed_nth:
  "all_indexed P i xs ys \<Longrightarrow> k < length xs \<Longrightarrow> P (i + of_nat k) (xs ! k) (ys ! k)"
proof (induction P i xs ys arbitrary: k rule: all_indexed.induct)
  case (1 P i x xs y ys)
  then show ?case by (cases k) (auto simp: ac_simps)
qed auto

lemma changes_ok_0: "all_indexed changes_ok 0 (case_conv_table1_0 @ rest) (case_conv_table2_0 @ rest') =
    all_indexed changes_ok 96 rest rest'"
  by code_simp

lemma changes_ok_1: "all_indexed changes_ok 96 (case_conv_table1_1 @ rest) (case_conv_table2_1 @ rest') =
    all_indexed changes_ok 192 rest rest'"
  by code_simp

lemma changes_ok_2: "all_indexed changes_ok 192 (case_conv_table1_2 @ rest) (case_conv_table2_2 @ rest') =
    all_indexed changes_ok 288 rest rest'"
  by code_simp

lemma changes_ok_3: "all_indexed changes_ok 288 (case_conv_table1_3 @ []) (case_conv_table2_3 @ [])"
  by code_simp

lemma changes_ok_nth: "idx < 370 \<Longrightarrow> changes_ok (of_nat idx) (case_conv_table1 ! idx) (case_conv_table2 ! idx)"
proof -
  have "all_indexed changes_ok 0 case_conv_table1 case_conv_table2"
    unfolding case_conv_table1_def case_conv_table2_def concat.simps
    by (simp only: changes_ok_0 changes_ok_1 changes_ok_2 changes_ok_3)
  then show "idx < 370 \<Longrightarrow> changes_ok (of_nat idx) (case_conv_table1 ! idx) (case_conv_table2 ! idx)"
    using all_indexed_nth [of changes_ok 0] by (simp add: length_case_conv_table1)
qed

lemma case_code_distinct:
  assumes "i < 370" "j < 370" "case_code (case_conv_table1 ! i) = case_code (case_conv_table1 ! j)"
  shows "i = j"
proof (rule case_runs.covered_unique)
  have cov: "covers case_code case_len (case_conv_table1 ! k) (case_code (case_conv_table1 ! k))" if "k < 370" for k
  proof -
    have "case_len (case_conv_table1 ! k) \<noteq> 0" using changes_ok_nth [OF that] by (simp add: changes_ok_def Let_def)
    then have "0 < uint (case_len (case_conv_table1 ! k))" by (simp add: uint_0_iff order_less_le)
    then show ?thesis by (simp add: covers_def word_less_def uint_case_end)
  qed
  show "covers case_code case_len (case_conv_table1 ! i) (case_code (case_conv_table1 ! i))" using assms cov by blast
  show "covers case_code case_len (case_conv_table1 ! j) (case_code (case_conv_table1 ! i))" using assms cov by simp
qed (use assms in \<open>simp_all add: length_case_conv_table1\<close>)

lemma bit_run_bit: "unat x < 32 \<Longrightarrow> bit (run_bit x) n \<longleftrightarrow> n = unat x"
  by (auto simp: run_bit_def bit_simps)

lemma tab_run_mask_bits:
  "bit (tab_run_mask ! 0) n \<longleftrightarrow> n \<in> {0, 2, 4, 5, 6, 7, 8, 9, 11, 13}"
  "bit (tab_run_mask ! 1) n \<longleftrightarrow> n \<in> {1, 3, 4, 5, 6, 10, 12}"
  "bit (tab_run_mask ! 2) n \<longleftrightarrow> n \<in> {2, 3, 4, 5, 6, 7, 8, 10, 11, 12, 13}"
  by (auto simp: tab_run_mask_def bit_or_iff bit_run_bit)

end
