(* ===== verification/Case_Modified.thy ===== *)
theory Case_Modified
  imports Case_Changes
begin

text \<open>
  The comment above \<open>unicode_case1\<close> promises the characters modified by upper casing, lower casing or case
  folding. Here it is proved against \<open>lre_case_conv\<close> itself, for every combination of the three.
\<close>

section \<open>One entry\<close>

text \<open>Conversion \<open>t\<close> changes the character at distance \<open>d\<close> in a run \<open>v\<close>.\<close>

definition run_changed :: "nat \<Rightarrow> u32 \<Rightarrow> int \<Rightarrow> bool" where
  "run_changed t v d \<longleftrightarrow> bit (tab_run_mask ! t) (unat (case_type v)) \<and> case_pos (push_bit t 1) v d"

lemma two_le_one: "\<not> (2 :: u32) \<le> 1"
  by (simp add: word_le_def)

lemmas run_bits = tab_run_mask_bits tab_run_mask_bits(2) [unfolded One_nat_def] two_le_one

lemma entry_cbind_ne: "(\<And>x. f x \<noteq> y) \<Longrightarrow> (\<exists>x. m = Inr x) \<Longrightarrow> cbind m f \<noteq> y"
  by (elim exE) simp

lemma one_cases [simp]: "one_case 1" "one_case 2" "one_case 4"
  by (simp_all add: one_case_def)

lemma even_diff_word: "(d :: u32) AND 1 = 0 \<longleftrightarrow> even (uint d)"
  unfolding and_one_eq even_iff_mod_2_eq_zero [symmetric] using bit_uint_iff [of d 0] by (simp add: bit_0)

lemma type_cases:
  assumes "type < (14 :: u32)"
  shows "type \<in> {0, 1, 2, 3, 4, 5, 6, 7, 8, 9, 10, 11, 12, 13}"
proof -
  have "unat type < 14" using assms by (simp add: word_less_nat_alt)
  then have "unat type \<in> {0, 1, 2, 3, 4, 5, 6, 7, 8, 9, 10, 11, 12, 13}"
    unfolding insert_iff empty_iff by presburger
  then show ?thesis by (auto simp: word_unat_eq_iff)
qed

lemma run_distance:
  assumes "covers case_code case_len v c"
  shows "uint (c - case_code v) = uint c - uint (case_code v)" "case_len v = 1 \<Longrightarrow> c = case_code v"
proof -
  have le: "uint (case_code v) \<le> uint c" "uint c < uint (case_code v) + uint (case_len v)"
    using assms by (simp_all add: covers_def word_le_def word_less_def uint_case_end)
  then show "uint (c - case_code v) = uint c - uint (case_code v)" by (intro uint_sub_u32) (simp add: word_le_def)
  show "c = case_code v" if "case_len v = 1"
  proof -
    have "uint c = uint (case_code v)" using le unfolding that by simp
    then show ?thesis by (simp add: word_uint_eq_iff)
  qed
qed

text \<open>The field \<open>data\<close> of an entry, and what the entry converts to, by type.\<close>

definition case_data :: "nat \<Rightarrow> u32" where
  "case_data idx = push_bit 8 (case_conv_table1 ! idx AND 0xf) OR ucast (case_conv_table2 ! idx)"

lemma entry_unfold:
  assumes "idx < 370"
  shows "rd case_conv_table2 idx = Inr (case_conv_table2 ! idx)"
    "push_bit 8 (case_conv_table1 ! idx AND 0xf) OR ucast (case_conv_table2 ! idx) = case_data idx"
  using assms by (simp_all add: case_data_def length_case_conv_table2)

lemmas entry_data = entry_okD [OF entry_ok_nth, folded case_data_def]
lemmas entry_change = changes_ok_nth [unfolded changes_ok_def Let_def, folded case_data_def]

lemma entry_offset:
  assumes idx: "idx < 370" and type: "case_type (case_conv_table1 ! idx) = ty" "ty = 0 \<or> ty = 1 \<or> ty = 2 \<or> ty = 3"
  shows "lre_case_conv_entry c t idx (case_conv_table1 ! idx) =
      Inr [if t = uint (ty AND 1) \<or> ty \<ge> 2 \<and> t = 2 then c - case_code (case_conv_table1 ! idx) + case_code (case_conv_table1 ! unat (case_data idx)) else c]"
    and "case_code (case_conv_table1 ! unat (case_data idx)) \<noteq> case_code (case_conv_table1 ! idx)"
proof -
  have data: "case_data idx < 370" using entry_data(1) [OF idx] type by simp
  show "lre_case_conv_entry c t idx (case_conv_table1 ! idx) =
      Inr [if t = uint (ty AND 1) \<or> ty \<ge> 2 \<and> t = 2 then c - case_code (case_conv_table1 ! idx) + case_code (case_conv_table1 ! unat (case_data idx)) else c]"
    unfolding lre_case_conv_entry.simps [of c t idx] Let_def entry_unfold [OF idx] cbind.simps(2) type(1)
    using type(2) by (simp add: rd_table1_ok [OF data] case_code_def)
  have "ty < 4" using type(2) by auto
  then have "case_data idx \<noteq> of_nat idx" using entry_change [OF idx] by (simp add: type(1))
  then have "unat (case_data idx) \<noteq> idx" by (metis of_nat_unat ucast_id)
  with u32_lt_unat [OF data] show "case_code (case_conv_table1 ! unat (case_data idx)) \<noteq> case_code (case_conv_table1 ! idx)"
    using case_code_distinct [OF _ idx, of "unat (case_data idx)"] by auto
qed

lemma entry_changed_offset:
  assumes idx: "idx < 370" and type: "case_type (case_conv_table1 ! idx) \<in> {0, 1, 2, 3}" and t: "t \<in> {0, 1, 2}"
  shows "lre_case_conv_entry c (int t) idx (case_conv_table1 ! idx) \<noteq> Inr [c] \<longleftrightarrow> run_changed t (case_conv_table1 ! idx) d"
proof -
  have off: "c - code + b = c \<longleftrightarrow> b = code" for c code b :: u32 by (simp add: diff_add_eq diff_eq_eq)
  show ?thesis
    using type t entry_offset(2) [OF idx refl]
    by (elim insertE emptyE; simp add: entry_offset(1) [OF idx refl] off run_changed_def run_bits case_pos_def)
qed

lemma entry_changed_alternate:
  assumes idx: "idx < 370" and cov: "covers case_code case_len (case_conv_table1 ! idx) c"
    and type: "case_type (case_conv_table1 ! idx) \<in> {4, 5}" and t: "t \<in> {0, 1, 2}"
  shows "lre_case_conv_entry c (int t) idx (case_conv_table1 ! idx) \<noteq> Inr [c] \<longleftrightarrow>
    run_changed t (case_conv_table1 ! idx) (uint c - uint (case_code (case_conv_table1 ! idx)))"
proof -
  define d where "d = c - case_code (case_conv_table1 ! idx)"
  have c: "c = d + case_code (case_conv_table1 ! idx)" by (simp add: d_def)
  have "bit (d XOR 1) 0 \<noteq> bit d 0" by (simp add: bit_xor_iff)
  then have x: "d XOR 1 \<noteq> d" by auto
  have u: "d = 0 \<longleftrightarrow> uint d = 0" "d = 1 \<longleftrightarrow> uint d = 1" "d = 2 \<longleftrightarrow> uint d = 2" by (simp_all add: word_uint_eq_iff)
  have one: "d AND 1 = 1 \<longleftrightarrow> odd (uint d)" using even_diff_word [of d] by (simp add: and_one_eq mod_2_eq_odd)
  show ?thesis
    using type t
    unfolding lre_case_conv_entry.simps [of c "int t" idx] Let_def entry_unfold [OF idx] cbind.simps(2)
      run_distance(1) [OF cov, symmetric] d_def [symmetric]
    by (elim insertE emptyE; simp add: c x u one even_diff_word run_changed_def run_bits case_pos_def Let_def)
qed

lemma entry_changed_other:
  assumes idx: "idx < 370" and cov: "covers case_code case_len (case_conv_table1 ! idx) c"
    and type: "case_type (case_conv_table1 ! idx) \<in> {6, 7, 8, 9, 10}" and t: "t \<in> {0, 1, 2}"
  shows "lre_case_conv_entry c (int t) idx (case_conv_table1 ! idx) \<noteq> Inr [c] \<longleftrightarrow> run_changed t (case_conv_table1 ! idx) d"
proof -
  have off: "c - code + b = c \<longleftrightarrow> b = code" for c code b :: u32 by (simp add: diff_add_eq diff_eq_eq)
  show ?thesis
    using type t entry_data [OF idx] entry_change [OF idx] run_distance(2) [OF cov]
    unfolding lre_case_conv_entry.simps [of c "int t" idx] Let_def entry_unfold [OF idx] cbind.simps(2)
    by (elim insertE emptyE; simp add: rd_ext_ok off run_changed_def run_bits case_pos_def)
qed

lemma entry_changed_multi:
  assumes idx: "idx < 370"
    and type: "case_type (case_conv_table1 ! idx) \<in> {11, 12, 13}" and t: "t \<in> {0, 1, 2}"
  shows "lre_case_conv_entry c (int t) idx (case_conv_table1 ! idx) \<noteq> Inr [c] \<longleftrightarrow> run_changed t (case_conv_table1 ! idx) d"
  using type t entry_data [OF idx]
  unfolding lre_case_conv_entry.simps [of c "int t" idx] Let_def entry_unfold [OF idx] cbind.simps(2)
  by (elim insertE emptyE; simp add: rd_ext_ok run_changed_def run_bits case_pos_def entry_cbind_ne conv1_lower)

lemma entry_types:
  assumes "idx < 370"
  obtains "case_type (case_conv_table1 ! idx) \<in> {0, 1, 2, 3}" | "case_type (case_conv_table1 ! idx) \<in> {4, 5}"
    | "case_type (case_conv_table1 ! idx) \<in> {6, 7, 8, 9, 10}" | "case_type (case_conv_table1 ! idx) \<in> {11, 12, 13}"
proof -
  define ty where "ty = case_type (case_conv_table1 ! idx)"
  have "ty < 4 \<or> ty = 6 \<or> ty = 7 \<or> ty = 8 \<or> ty = 9 \<or> ty = 10 \<or> ty < 14"
    using entry_change [OF assms] unfolding ty_def [symmetric] by argo
  moreover have "ty < 4 \<Longrightarrow> ty < 14" by (erule order_less_trans) simp
  ultimately have "ty < 14" by auto
  from type_cases [OF this [unfolded ty_def]] that show ?thesis unfolding insert_iff empty_iff by argo
qed

lemma entry_changed:
  assumes idx: "idx < 370" and cov: "covers case_code case_len (case_conv_table1 ! idx) c" and t: "t \<in> {0, 1, 2}"
  shows "lre_case_conv_entry c (int t) idx (case_conv_table1 ! idx) \<noteq> Inr [c] \<longleftrightarrow>
    run_changed t (case_conv_table1 ! idx) (uint c - uint (case_code (case_conv_table1 ! idx)))"
  by (rule entry_types [OF idx]) (rule entry_changed_offset [OF idx _ t] entry_changed_alternate [OF idx cov _ t]
      entry_changed_other [OF idx cov _ t] entry_changed_multi [OF idx _ t], assumption)+

section \<open>All characters\<close>

text \<open>The ASCII letters are the first two runs.\<close>

lemma ascii_runs:
  assumes "c < 128"
  shows "covers case_code case_len v c \<and> v \<in> set case_conv_table1 \<longleftrightarrow>
    v = 0x00209a30 \<and> 0x41 \<le> c \<and> c \<le> 0x5a \<or> v = 0x00309a00 \<and> 0x61 \<le> c \<and> c \<le> 0x7a"
proof -
  obtain vs where vs: "case_conv_table1 = 0x00209a30 # 0x00309a00 # 0x005a8173 # vs"
    unfolding case_conv_table1_def case_conv_table1_0_def by simp
  have "sorted_wrt (\<lambda>v w. case_code v + case_len v \<le> case_code w) case_conv_table1"
    using case_runs.ordered_nth by (simp add: sorted_wrt_iff_nth_less)
  then have "0xb6 \<le> case_code w" if "w \<in> set vs" for w
    using that unfolding vs by (auto simp: case_code_def case_len_def)
  then have big: "\<not> covers case_code case_len w c" if "w \<in> set vs \<or> w = 0x005a8173" for w
  proof -
    have "128 \<le> case_code w" using that \<open>\<And>w. w \<in> set vs \<Longrightarrow> 0xb6 \<le> case_code w\<close> order_trans [of 128 "0xb6" "case_code w"]
      by (auto simp: case_code_def)
    with assms have "\<not> case_code w \<le> c" by (meson leD order_trans)
    then show ?thesis by (simp add: covers_def)
  qed
  have lt: "a < b + 1 \<longleftrightarrow> a \<le> b" if "b < 0x100" for a b :: u32
    using that by (simp add: word_less_def word_le_def uint_add_u32)
  have "covers case_code case_len 0x00209a30 c \<longleftrightarrow> 0x41 \<le> c \<and> c \<le> 0x5a"
    "covers case_code case_len 0x00309a00 c \<longleftrightarrow> 0x61 \<le> c \<and> c \<le> 0x7a"
    using lt [of "0x5a" c] lt [of "0x7a" c] by (simp_all add: covers_def case_code_def case_len_def)
  with big show ?thesis unfolding vs by auto
qed

lemma run_changed_ascii:
  "run_changed t 0x00209a30 d \<longleftrightarrow> t = 1 \<or> t = 2" "run_changed t 0x00309a00 d \<longleftrightarrow> t = 0" if "t \<in> {0, 1, 2}"
  using that by (elim insertE emptyE; simp add: run_changed_def run_bits case_type_def case_pos_def)+

lemma conv_changed:
  assumes t: "t \<in> {0, 1, 2}"
  shows "lre_case_conv c (int t) \<noteq> Inr [c] \<longleftrightarrow>
    (\<exists>v\<in>set case_conv_table1. covers case_code case_len v c \<and> run_changed t v (uint c - uint (case_code v)))"
proof (cases "c < 128")
  case True
  have "c - 0x41 + 0x61 \<noteq> c" "c - 0x61 + 0x41 \<noteq> c" by (simp_all add: diff_add_eq diff_eq_eq)
  moreover have "(\<exists>v\<in>set case_conv_table1. covers case_code case_len v c \<and> run_changed t v (uint c - uint (case_code v))) \<longleftrightarrow>
      (\<exists>v. (covers case_code case_len v c \<and> v \<in> set case_conv_table1) \<and> run_changed t v (uint c - uint (case_code v)))"
    by blast
  then have "(\<exists>v\<in>set case_conv_table1. covers case_code case_len v c \<and> run_changed t v (uint c - uint (case_code v))) \<longleftrightarrow>
      (0x41 \<le> c \<and> c \<le> 0x5a \<and> (t = 1 \<or> t = 2) \<or> 0x61 \<le> c \<and> c \<le> 0x7a \<and> t = 0)"
    unfolding ascii_runs [OF True] by (simp add: conj_disj_distribR ex_disj_distrib run_changed_ascii [OF t])
  ultimately show ?thesis using True t by (auto simp: lre_case_conv.simps [of c])
next
  case False
  show ?thesis
  proof (cases rule: case_find_cases [of c])
    case (run idx)
    have "v = case_conv_table1 ! idx" if v: "v \<in> set case_conv_table1" "covers case_code case_len v c" for v
    proof -
      obtain j where j: "j < length case_conv_table1" "v = case_conv_table1 ! j" using v(1) by (auto simp: in_set_conv_nth)
      have "j = idx"
        using case_runs.covered_unique [OF v(2) [unfolded j(2)] run(3) j(1)] run(2) by (simp add: length_case_conv_table1)
      then show ?thesis using j(2) by simp
    qed
    moreover have "case_conv_table1 ! idx \<in> set case_conv_table1" using run by (simp add: length_case_conv_table1)
    ultimately have "(\<exists>v\<in>set case_conv_table1. covers case_code case_len v c \<and> run_changed t v (uint c - uint (case_code v))) \<longleftrightarrow>
        run_changed t (case_conv_table1 ! idx) (uint c - uint (case_code (case_conv_table1 ! idx)))"
      using run(3) by metis
    then show ?thesis using entry_changed [OF run(2,3) t] unfolding lre_case_conv_run [OF False run(1)] by argo
  next
    case none
    then show ?thesis using lre_case_conv_none [OF False] by auto
  qed
qed

lemma case_changed_split:
  "case_changed m c \<longleftrightarrow> (\<exists>t\<in>{0, 1, 2}. bit m t \<and> lre_case_conv c (int t) \<noteq> Inr [c])"
proof -
  have u: "m AND 1 \<noteq> 0 \<longleftrightarrow> bit m 0" by (simp add: and_one_eq bit_0 mod_2_eq_odd)
  have lf: "m AND (2 OR 4) \<noteq> 0 \<longleftrightarrow> bit m 1 \<or> bit m 2" using and_6 [of m] by simp
  have split: "bit (case_run_mask m) (unat (case_type v)) \<and> case_pos m v d \<longleftrightarrow> (\<exists>t\<in>{0, 1, 2}. bit m t \<and> run_changed t v d)"
    if "case_type v = 5 \<Longrightarrow> d = 0 \<or> d = 1 \<or> d = 2" for v d
    using that unfolding case_run_mask_def run_changed_def case_pos_def one_case_def u lf
    by (auto simp: bit_or_iff run_bits Let_def)
  have lsu: "uint c - uint (case_code v) = 0 \<or> uint c - uint (case_code v) = 1 \<or> uint c - uint (case_code v) = 2"
    if "v \<in> set case_conv_table1" "covers case_code case_len v c" "case_type v = 5" for v
  proof -
    have "case_len v = 3" using shapes_ok that by (auto simp: list_all_iff shape_ok_def)
    then have "uint (case_code v + case_len v) = uint (case_code v) + 3" using uint_case_end [of v] by simp
    with that(2) have "uint (case_code v) \<le> uint c" "uint c < uint (case_code v) + 3"
      by (simp_all add: covers_def word_le_def word_less_def)
    then show ?thesis by linarith
  qed
  have "case_changed m c \<longleftrightarrow> (\<exists>v\<in>set case_conv_table1. covers case_code case_len v c \<and>
      (\<exists>t\<in>{0, 1, 2}. bit m t \<and> run_changed t v (uint c - uint (case_code v))))"
    unfolding case_changed_def using split lsu by (intro bex_cong refl conj_cong) blast
  then show ?thesis using conv_changed by blast
qed

section \<open>The characters modified by case conversion\<close>

text \<open>
  C21. For any set of conversions, \<open>unicode_case1\<close> on an empty range either reports an allocation failure or
  returns the sorted range whose members are exactly the characters that \<open>lre_case_conv\<close> with one of these
  conversions does not map to themselves.
\<close>

theorem unicode_case1_correct:
  assumes "cr_inv cr" "cr_len cr = 0"
  shows "cr_denotes {c. \<exists>t\<in>{0, 1, 2}. bit case_mask t \<and> lre_case_conv c (int t) \<noteq> Inr [c]} (unicode_case1 cr case_mask)"
  using unicode_case1_denotes [OF assms] unfolding case_changed_split .

theorem unicode_case1_correct_witness:
  "cr_denotes {c. \<exists>t\<in>{0, 1, 2}. bit (5 :: u32) t \<and> lre_case_conv c (int t) \<noteq> Inr [c]} (unicode_case1 (cr_init 100000 None) 5)"
  using unicode_case1_correct [of "cr_init 100000 None" 5] cr_init_inv [of None 100000]
  by (simp add: cr_init_def)

end
