(* ===== verification/Range_Canon.thy ===== *)
theory Range_Canon
  imports Range_Sort Case_Modified
begin

text \<open>
  \<open>cr_regexp_canonicalize\<close> of \<^verbatim>\<open>libunicode.c\<close>: the image of a character set under \<open>lre_canonicalize\<close>, computed
  by one pass over the case conversion table instead of one call per character. The temporary ranges use
  the allocator of the argument.
\<close>

section \<open>Definitions\<close>

text \<open>The search for the run of \<open>c\<close>: it only moves forward, and the end of the table is asserted away.\<close>

function canon_find :: "u32 \<Rightarrow> nat \<Rightarrow> u32 \<Rightarrow> (nat \<times> u32) cres" where
  "canon_find c idx v =
     (if c \<ge> case_code v \<and> c < case_code v + case_len v then Inr (idx, v)
      else if idx + 1 < length case_conv_table1 then
        cbind (rd case_conv_table1 (idx + 1)) (\<lambda>v. canon_find c (idx + 1) v)
      else Inl AssertFailed)"
  by pat_completeness auto
termination by (relation "measure (\<lambda>(c, idx, v). length case_conv_table1 - idx)") auto

declare canon_find.simps [simp del]

text \<open>The loop variables: the result so far, the interval being built and the position in the table.\<close>

record canon_state =
  cs_result :: char_range
  d_start :: u32
  d_end :: u32
  cs_idx :: nat
  cs_v :: u32

definition canon_char :: "bool \<Rightarrow> u32 \<Rightarrow> canon_state \<Rightarrow> canon_state cres" where
  "canon_char is_unicode c s =
     cbind (canon_find c (cs_idx s) (cs_v s)) (\<lambda>(idx, v).
     cbind (lre_case_folding_entry c idx v is_unicode) (\<lambda>d.
     let s = s\<lparr>cs_idx := idx, cs_v := v\<rparr> in
     if d_start s = -1 then Inr (s\<lparr>d_start := d, d_end := d + 1\<rparr>)
     else if d_end s = d then Inr (s\<lparr>d_end := d_end s + 1\<rparr>)
     else cbind (cr_add_interval (cs_result s) (d_start s) (d_end s)) (\<lambda>(cr_result, _).
          Inr (s\<lparr>cs_result := cr_result, d_start := d, d_end := d + 1\<rparr>))))"

function canon_chars :: "bool \<Rightarrow> u32 \<Rightarrow> u32 \<Rightarrow> canon_state \<Rightarrow> canon_state cres" where
  "canon_chars is_unicode c en s =
     (if c < en then cbind (canon_char is_unicode c s) (\<lambda>s. canon_chars is_unicode (c + 1) en s) else Inr s)"
  by pat_completeness auto
termination
proof (relation "measure (\<lambda>(is_unicode, c, en, s). unat en - unat c)")
  fix is_unicode and c en :: u32 and s s' :: canon_state
  assume lt: "c < en"
  then have "unat c < unat en" "unat en < 2 ^ 32" using u32_unat_lt [of en] by (simp_all add: word_less_nat_alt)
  moreover from this have "unat c + 1 < 2 ^ 32" by linarith
  then have "unat (c + 1) = unat c + 1" by (simp add: unat_word_ariths)
  ultimately show "((is_unicode, c + 1, en, s'), is_unicode, c, en, s) \<in> measure (\<lambda>(is_unicode, c, en, s). unat en - unat c)"
    by simp
qed simp

declare canon_chars.simps [simp del]

function canon_loop :: "bool \<Rightarrow> u32 list \<Rightarrow> nat \<Rightarrow> nat \<Rightarrow> canon_state \<Rightarrow> canon_state cres" where
  "canon_loop is_unicode points len i s =
     (if i < len then
        cbind (rd points i) (\<lambda>start. cbind (rd points (i + 1)) (\<lambda>en.
        cbind (canon_chars is_unicode start en s) (\<lambda>s. canon_loop is_unicode points len (i + 2) s)))
      else Inr s)"
  by pat_completeness auto
termination by (relation "measure (\<lambda>(is_unicode, points, len, i, s). len - i)") auto

declare canon_loop.simps [simp del]

abbreviation (input) or_fail :: "char_range \<Rightarrow> (char_range \<times> int) cres \<Rightarrow> (char_range \<Rightarrow> (char_range \<times> int) cres) \<Rightarrow> (char_range \<times> int) cres" where
  "or_fail cr m f \<equiv> cbind m (\<lambda>(x, r). if r \<noteq> 0 then Inr (cr, -1) else f x)"

definition cr_regexp_canonicalize :: "char_range \<Rightarrow> bool \<Rightarrow> (char_range \<times> int) cres" where
  "cr_regexp_canonicalize cr is_unicode =
     (let cr0 = cr_init 0 (Some (cr_realloc_func cr)) in
      or_fail cr (unicode_case1 cr0 (if is_unicode then CASE_F else CASE_U)) (\<lambda>cr_mask.
      or_fail cr (cr_op cr0 (cr_points cr_mask) (cr_len cr_mask) (cr_points cr) (cr_len cr) CR_OP_INTER) (\<lambda>cr_inter.
      or_fail cr (cr_invert cr_mask) (\<lambda>cr_mask.
      or_fail cr (cr_op cr0 (cr_points cr_mask) (cr_len cr_mask) (cr_points cr) (cr_len cr) CR_OP_INTER) (\<lambda>cr_sub.
      cbind (rd case_conv_table1 0) (\<lambda>v.
      cbind (canon_loop is_unicode (cr_points cr_inter) (cr_len cr_inter) 0
               \<lparr>cs_result = cr0, d_start = -1, d_end = -1, cs_idx = 0, cs_v = v\<rparr>) (\<lambda>s.
      or_fail cr (if d_start s \<noteq> -1 then cr_add_interval (cs_result s) (d_start s) (d_end s) else Inr (cs_result s, 0)) (\<lambda>cr_result.
      cbind (cr_sort_and_remove_overlap cr_result) (\<lambda>cr_result.
      cbind (cr_op (cr\<lparr>cr_len := 0\<rparr>) (cr_points cr_result) (cr_len cr_result) (cr_points cr_sub) (cr_len cr_sub) CR_OP_UNION) (\<lambda>(cr, r).
      if r \<noteq> 0 then Inr (cr, -1) else Inr (cr, 0)))))))))))"

section \<open>Folding through the table\<close>

text \<open>The characters the pass visits: those changed by the conversion that \<open>lre_canonicalize\<close> is based on.\<close>

abbreviation (input) affected :: "bool \<Rightarrow> u32 set" where
  "affected is_unicode \<equiv> {c. lre_case_conv c (if is_unicode then 2 else 0) \<noteq> Inr [c]}"

lemma canonicalize_unaffected: "c \<notin> affected u \<Longrightarrow> lre_canonicalize c u = Inr c"
  using canonicalize_legacy [of c "[c]"] canonicalize_unicode [of c "[c]"]
  by (cases u) (auto simp: es_canonicalize_def es_canonicalize_unicode_def)

lemma affected_covered:
  assumes "c \<in> affected u"
  obtains idx where "idx < 370" "covers case_code case_len (case_conv_table1 ! idx) c"
proof -
  have "\<exists>v\<in>set case_conv_table1. covers case_code case_len v c"
    using assms conv_changed [of 2 c] conv_changed [of 0 c] by (cases u) auto
  then show ?thesis using that by (auto simp: in_set_conv_nth length_case_conv_table1)
qed

lemma covered_idx:
  assumes "idx < 370" "j < 370" "covers case_code case_len (case_conv_table1 ! idx) c" "covers case_code case_len (case_conv_table1 ! j) c"
  shows "idx = j"
  using case_runs.covered_unique [OF assms(3,4)] assms(1,2) by (simp add: length_case_conv_table1)

lemma ascii_entry:
  assumes "idx < 370" "covers case_code case_len (case_conv_table1 ! idx) c" "0x41 \<le> c" "c \<le> 0x5a"
  shows "lre_case_conv_entry c 2 idx (case_conv_table1 ! idx) = Inr [c - 0x41 + 0x61]"
proof -
  have t: "case_conv_table1 ! 0 = 0x00209a30" "case_conv_table1 ! 1 = 0x00309a00" "case_conv_table2 ! 0 = 1"
    by (simp_all add: case_conv_table1_def case_conv_table1_0_def case_conv_table2_def case_conv_table2_0_def)
  have lt: "c < 128" by (rule order_le_less_trans [OF assms(4)]) simp
  have "covers case_code case_len (case_conv_table1 ! 0) c"
    using ascii_runs [OF lt, of "0x00209a30"] assms(3,4) by (simp add: t)
  then have idx: "idx = 0" using covered_idx [OF assms(1) _ assms(2), of 0] by simp
  have d: "case_data 0 = 1" by (simp add: case_data_def t)
  have "case_type (case_conv_table1 ! 0) = 3" by (simp add: t case_type_def)
  from entry_offset(1) [OF _ this, of c 2] show ?thesis
    unfolding idx by (simp add: d t t(2) [unfolded One_nat_def] case_code_def)
qed

lemma folding_entry_canonicalize:
  assumes "idx < 370" "covers case_code case_len (case_conv_table1 ! idx) c" "c \<in> affected u"
  shows "lre_case_folding_entry c idx (case_conv_table1 ! idx) u = lre_canonicalize c u"
proof (cases "c < 128")
  case False
  have "case_find c = Inr (Some (idx, case_conv_table1 ! idx))"
  proof (cases rule: case_find_cases [of c])
    case (run j)
    then show ?thesis using covered_idx [OF assms(1) run(2) assms(2) run(3)] by simp
  next
    case none
    then show ?thesis using assms(1,2) by (simp add: length_case_conv_table1)
  qed
  with False show ?thesis by (simp add: lre_canonicalize_def)
next
  case True
  show ?thesis
  proof (cases u)
    case False
    with True show ?thesis by (simp add: lre_canonicalize_def lre_case_folding_entry_def)
  next
    case u: True
    have "0x41 \<le> c" "c \<le> 0x5a" using assms(3) True u by (auto simp: lre_case_conv.simps [of c] split: if_splits)
    with True u ascii_entry [OF assms(1,2)] show ?thesis by (simp add: lre_canonicalize_def lre_case_folding_entry_def)
  qed
qed

text \<open>Every folded character is far below the sentinel \<open>-1\<close>.\<close>

lemma u32_ucast_lt: "uint (ucast (x :: u16) :: u32) < 2 ^ 16"
  using uint_lt2p [of x] by (simp add: uint_up_ucast is_up)

lemma distance_lt:
  assumes "covers case_code case_len v c"
  shows "uint (c - case_code v) < 128" "uint c < 2 ^ 18"
proof -
  have "uint c < uint (case_code v) + uint (case_len v)"
    using assms by (simp add: covers_def word_less_def uint_case_end)
  then show "uint (c - case_code v) < 128" "uint c < 2 ^ 18"
    using run_distance(1) [OF assms] case_len_lt [of v] case_code_lt [of v] by simp_all
qed

lemma add_small: "uint a < 128 \<Longrightarrow> uint b < 2 ^ 18 \<Longrightarrow> uint (a + b :: u32) < 2 ^ 19"
  using uint_add_u32 [of a b] by simp

lemma add_small': "uint a < 128 \<Longrightarrow> uint b < 2 ^ 18 \<Longrightarrow> uint (b + a :: u32) < 2 ^ 19"
  using uint_add_u32 [of b a] by simp

lemma case_data_lt: "uint (case_data idx) < 4096"
proof -
  have "drop_bit 8 (case_data idx) = case_conv_table1 ! idx AND 0xf" unfolding case_data_def by (rule u32_data_high)
  then have "drop_bit 8 (case_data idx) < 16" by simp
  then have "uint (case_data idx) div 256 < 16" by (simp add: word_less_def uint_shr)
  then show ?thesis by (simp add: div_less_iff_less_mult)
qed

lemma xor_1_lt: "uint (a :: u32) < 128 \<Longrightarrow> uint (a XOR 1) < 128"
  using XOR_upper [of "uint a" 7 1] by (simp add: unsigned_xor_eq)

lemma entry_alternate_bound:
  assumes idx: "idx < 370" and cov: "covers case_code case_len (case_conv_table1 ! idx) c"
    and type: "case_type (case_conv_table1 ! idx) \<in> {4, 5}"
    and d: "lre_case_conv_entry c t idx (case_conv_table1 ! idx) = Inr [d]"
  shows "uint d < 2 ^ 19"
proof -
  define code where "code = case_code (case_conv_table1 ! idx)"
  define a where "a = c - code"
  have c: "c = a + code" by (simp add: a_def)
  have lt: "uint a < 128" "uint c < 2 ^ 18" "uint code < 2 ^ 18"
    using distance_lt [OF cov] case_code_lt [of "case_conv_table1 ! idx"] by (simp_all add: a_def code_def)
  let ?l = "if t \<noteq> 0 then 1 else 0 :: u32"
  have e: "lre_case_conv_entry c t idx (case_conv_table1 ! idx) =
      (if case_type (case_conv_table1 ! idx) = 4 then Inr [if a AND 1 \<noteq> 1 - ?l then c else (a XOR 1) + code]
       else Inr [if a = 1 then c + (2 * ?l - 1) else if a = (1 - ?l) * 2 then c + (2 * ?l - 1) * 2 else c])"
    using type unfolding lre_case_conv_entry.simps [of c t idx] Let_def entry_unfold [OF idx] cbind.simps(2)
      code_def [symmetric] a_def [symmetric]
    by (elim insertE emptyE) simp_all
  have "d \<in> {c, (a XOR 1) + code, 1 + c, code, 2 + c}"
    using d unfolding e by (cases "case_type (case_conv_table1 ! idx) = 4"; cases "t = 0") (auto simp: c split: if_splits)
  then show ?thesis using lt add_small [OF xor_1_lt [OF lt(1)] lt(3)] add_small [of 1 c] add_small [of 2 c] by auto
qed

lemma entry_bound:
  assumes idx: "idx < 370" and cov: "covers case_code case_len (case_conv_table1 ! idx) c" and t: "t = 0 \<or> t = 2"
    and d: "lre_case_conv_entry c t idx (case_conv_table1 ! idx) = Inr [d]"
  shows "uint d < 2 ^ 19"
proof -
  let ?v = "case_conv_table1 ! idx"
  have lt: "uint (c - case_code ?v) < 128" "uint c < 2 ^ 18" using distance_lt [OF cov] by auto
  have ext: "uint (ucast (x :: u16) :: u32) < 2 ^ 18" for x using u32_ucast_lt [of x] by simp
  have e: "uint (c - case_code ?v + ucast (x :: u16)) < 2 ^ 19" "uint (ucast x + 1 :: u32) < 2 ^ 19" for x
    using add_small [OF lt(1) ext] add_small' [of 1 "ucast x :: u32"] ext [of x] by simp_all
  have o: "uint (c - case_code ?v + case_code w) < 2 ^ 19" for w
    using add_small [OF lt(1), of "case_code w"] case_code_lt [of w] by simp
  have dt: "uint (case_data idx) < 2 ^ 19" "uint (case_data idx + 0x20) < 2 ^ 19"
    using case_data_lt [of idx] add_small' [of "0x20" "case_data idx"] by simp_all
  consider "case_type ?v \<in> {0, 1, 2, 3}" | "case_type ?v \<in> {4, 5}" | "case_type ?v \<in> {6, 7, 8, 9, 10}" | "case_type ?v \<in> {11, 12, 13}"
    using entry_types [OF idx] .
  then show ?thesis
  proof cases
    case 1
    then show ?thesis using d o [of "case_conv_table1 ! unat (case_data idx)"] lt(2)
      by (auto simp: entry_offset(1) [OF idx refl] split: if_splits)
  next
    case 2
    then show ?thesis using entry_alternate_bound [OF idx cov] d by blast
  next
    case 3
    then show ?thesis
      using d entry_data [OF idx] lt(2) e ext dt t
      unfolding lre_case_conv_entry.simps [of c t idx] Let_def entry_unfold [OF idx] cbind.simps(2)
      by (elim insertE emptyE; auto simp: rd_ext_ok order_less_trans [OF ext] split: if_splits)
  next
    case 4
    have "d = c"
      using d entry_data [OF idx] t 4
      unfolding lre_case_conv_entry.simps [of c t idx] Let_def entry_unfold [OF idx] cbind.simps(2)
      by (elim insertE emptyE; simp add: rd_ext_ok entry_cbind_ne conv1_lower split: if_splits)
    then show ?thesis using lt(2) by simp
  qed
qed

lemma canonicalize_bound:
  assumes "c \<in> affected u" "lre_canonicalize c u = Inr d"
  shows "uint d < 2 ^ 19"
proof -
  obtain idx where idx: "idx < 370" "covers case_code case_len (case_conv_table1 ! idx) c" using affected_covered [OF assms(1)] .
  have c: "uint c < 2 ^ 19" using distance_lt(2) [OF idx(2)] by simp
  have one: "\<exists>d. res = [d] \<and> uint d < 2 ^ 19"
    if "length res = 1" "lre_case_conv_entry c t idx (case_conv_table1 ! idx) = Inr res" "t = 0 \<or> t = 2" for res t
    using that entry_bound [OF idx that(3)] by (cases res) auto
  have fold: "lre_case_folding_entry c idx (case_conv_table1 ! idx) u = Inr d"
    using folding_entry_canonicalize [OF idx assms(1)] assms(2) by simp
  show ?thesis
  proof (cases u)
    case True
    obtain res where res: "lre_case_conv_entry c 2 idx (case_conv_table1 ! idx) = Inr res"
      using entry_result_all [OF idx(1), of c 2] by (auto simp: conv_result_def)
    with fold True have "length res = 1 \<and> d = res ! 0 \<or> d \<in> {0xfb05, 0x390, 0x3b0, c}"
      by (auto simp: lre_case_folding_entry_def split: if_splits)
    then show ?thesis using one [OF _ res] c by auto
  next
    case False
    obtain res where res: "lre_case_conv_entry c 0 idx (case_conv_table1 ! idx) = Inr res"
      using entry_result_all [OF idx(1), of c 0] by (auto simp: conv_result_def)
    have "uint (c - 0x61 + 0x41) < 2 ^ 19" if "0x61 \<le> c" "c \<le> 0x7a"
      using add_small [of "c - 0x61" "0x41"] that uint_sub_u32 [of "0x61" c] by (simp add: word_le_def)
    moreover from fold False res have "length res = 1 \<and> d = res ! 0 \<or> d = c \<or> 0x61 \<le> c \<and> c \<le> 0x7a \<and> d = c - 0x61 + 0x41"
      by (auto simp: lre_case_folding_entry_def split: if_splits)
    ultimately show ?thesis using one [OF _ res] c by auto
  qed
qed

section \<open>The pass over the table\<close>

lemma canon_find_spec:
  assumes "i \<le> j" "j < 370" "covers case_code case_len (case_conv_table1 ! j) c"
  shows "canon_find c i (case_conv_table1 ! i) = Inr (j, case_conv_table1 ! j)"
  using assms
proof (induction "j - i" arbitrary: i)
  case 0
  then show ?case by (simp add: canon_find.simps [of c i] covers_def)
next
  case (Suc n)
  then have "\<not> covers case_code case_len (case_conv_table1 ! i) c" "i < 369" "i + 1 \<le> j" "n = j - (i + 1)"
    using covered_idx [of i j c] by auto
  with Suc.hyps(1) Suc.prems(2,3) show ?case by (simp add: canon_find.simps [of c i] covers_def length_case_conv_table1)
qed

text \<open>The runs of the characters still to come are not behind the position in the table.\<close>

definition canon_pos :: "u32 \<Rightarrow> canon_state \<Rightarrow> bool" where
  "canon_pos c s \<longleftrightarrow> cs_v s = case_conv_table1 ! cs_idx s \<and>
     (\<forall>x j. c \<le> x \<longrightarrow> j < 370 \<longrightarrow> covers case_code case_len (case_conv_table1 ! j) x \<longrightarrow> cs_idx s \<le> j)"

lemma canon_pos_mono: "canon_pos c s \<Longrightarrow> c \<le> c' \<Longrightarrow> canon_pos c' s"
  unfolding canon_pos_def by (meson order_trans)

lemma canon_pos_step:
  assumes "idx < 370" "covers case_code case_len (case_conv_table1 ! idx) c"
  shows "canon_pos c (s\<lparr>cs_idx := idx, cs_v := case_conv_table1 ! idx\<rparr>)"
proof -
  have "idx \<le> j" if "c \<le> x" "j < 370" "covers case_code case_len (case_conv_table1 ! j) x" for x j
  proof (rule ccontr)
    assume "\<not> idx \<le> j"
    then have "case_code (case_conv_table1 ! j) + case_len (case_conv_table1 ! j) \<le> case_code (case_conv_table1 ! idx)"
      using case_runs.ordered_nth [of j idx] assms(1) by (simp add: length_case_conv_table1)
    moreover have "case_code (case_conv_table1 ! idx) \<le> c" using assms(2) by (simp add: covers_def)
    ultimately show False using that(1,3) by (simp add: covers_def) (meson leD order_trans)
  qed
  then show ?thesis by (simp add: canon_pos_def)
qed

text \<open>An allocator that never fails.\<close>

definition cr_total :: "char_range \<Rightarrow> bool" where
  "cr_total cr \<longleftrightarrow> (\<forall>old n. 0 < n \<longrightarrow> cr_realloc_func cr old n \<noteq> None)"

lemma cr_realloc_total:
  assumes "cr_total cr"
  shows "snd (cr_realloc cr n) = 0 \<and> cr_total (fst (cr_realloc cr n))"
proof (cases "n > cr_size cr")
  case True
  then have "0 < max n (cr_size cr * 3 div 2)" by simp
  then obtain b where "cr_realloc_func cr (cr_points cr) (max n (cr_size cr * 3 div 2)) = Some b"
    using assms unfolding cr_total_def by blast
  with True assms show ?thesis by (simp add: cr_realloc_def cr_total_def)
qed (use assms in \<open>simp add: cr_realloc_def\<close>)

lemma cr_add_interval_total:
  assumes "cr_inv cr" "cr_total cr"
  obtains cr' where "cr_add_interval cr c1 c2 = Inr (cr', 0)" "cr_inv cr'" "cr_total cr'" "cr_contents cr' = cr_contents cr @ [c1, c2]"
proof -
  obtain cr' r where a: "cr_add_interval cr c1 c2 = Inr (cr', r)" "cr_inv cr'" "r = 0 \<and> cr_contents cr' = cr_contents cr @ [c1, c2] \<or> r = -1"
    using cr_add_interval_result [OF assms(1), of c1 c2] by (auto simp: cr_result_def)
  have "r = 0 \<and> cr_total cr'"
    using a(1) assms(2) cr_realloc_total [OF assms(2), of "cr_len cr + 2"]
    by (auto simp: cr_add_interval_def cr_total_def split: if_splits prod.splits)
  with a that show ?thesis by auto
qed

text \<open>
  \<open>canon_inv D s\<close>: the intervals collected so far and the one being built hold exactly the characters in \<open>D\<close>.
\<close>

definition canon_inv :: "u32 set \<Rightarrow> canon_state \<Rightarrow> bool" where
  "canon_inv D s \<longleftrightarrow> cr_inv (cs_result s) \<and> cr_total (cs_result s) \<and> even (cr_len (cs_result s)) \<and>
     (\<forall>(a, b)\<in>set (as_pairs (cr_contents (cs_result s))). a < b) \<and>
     (if d_start s = -1 then cr_contents (cs_result s) = [] \<and> D = {}
      else d_start s < d_end s \<and> uint (d_end s) \<le> 2 ^ 19 \<and>
        D = pair_set (as_pairs (cr_contents (cs_result s))) \<union> {d_start s..<d_end s})"

lemma as_pairs_append: "even (length xs) \<Longrightarrow> as_pairs (xs @ [a, b]) = as_pairs xs @ [(a, b)]"
  by (induction xs rule: as_pairs.induct) auto

lemma pair_set_append [simp]: "pair_set (xs @ ys) = pair_set xs \<union> pair_set ys"
  by (auto simp: pair_set_def)

lemma small_word:
  assumes "uint (d :: u32) < 2 ^ 20"
  shows "d \<noteq> -1" "d < d + 1" "uint (d + 1) = uint d + 1" "x < d + 1 \<longleftrightarrow> x \<le> d"
proof -
  show u: "uint (d + 1) = uint d + 1" using assms by (subst uint_add_u32) simp_all
  then show "d < d + 1" "x < d + 1 \<longleftrightarrow> x \<le> d" by (simp_all add: word_less_def word_le_def)
  have "uint (-1 :: u32) = 2 ^ 32 - 1" by (simp add: unsigned_minus_1_eq_mask mask_eq_exp_minus_1)
  then show "d \<noteq> -1" using assms by auto
qed

lemma canon_char_spec:
  assumes inv: "canon_inv D s" and pos: "canon_pos c s" and c: "c \<in> affected u"
  shows "\<exists>d s'. lre_canonicalize c u = Inr d \<and> canon_char u c s = Inr s' \<and> canon_inv (insert d D) s' \<and> canon_pos c s'"
proof -
  obtain idx where idx: "idx < 370" "covers case_code case_len (case_conv_table1 ! idx) c" using affected_covered [OF c] .
  obtain d where d: "lre_canonicalize c u = Inr d" using lre_canonicalize_total by blast
  note small = small_word [of d]
  have bound: "uint d < 2 ^ 19" by (rule canonicalize_bound [OF c d])
  have "cs_idx s \<le> idx" "cs_v s = case_conv_table1 ! cs_idx s" using pos idx by (auto simp: canon_pos_def)
  then have find: "canon_find c (cs_idx s) (cs_v s) = Inr (idx, case_conv_table1 ! idx)" using canon_find_spec idx by simp
  have entry: "lre_case_folding_entry c idx (case_conv_table1 ! idx) u = Inr d"
    using folding_entry_canonicalize [OF idx c] d by simp
  let ?s = "s\<lparr>cs_idx := idx, cs_v := case_conv_table1 ! idx\<rparr>"
  have p: "canon_pos c (?s\<lparr>cs_result := cr, d_start := a, d_end := b\<rparr>)" for cr a b
    using canon_pos_step [OF idx, of s] by (simp add: canon_pos_def)
  consider (first) "d_start s = -1" | (extend) "d_start s \<noteq> -1" "d_end s = d" | (new) "d_start s \<noteq> -1" "d_end s \<noteq> d" by blast
  then show ?thesis
  proof cases
    case first
    then have "canon_char u c s = Inr (?s\<lparr>cs_result := cs_result s, d_start := d, d_end := d + 1\<rparr>)"
      by (simp add: canon_char_def find entry)
    moreover have "canon_inv (insert d D) (?s\<lparr>cs_result := cs_result s, d_start := d, d_end := d + 1\<rparr>)"
      using inv first small bound by (auto simp: canon_inv_def)
    ultimately show ?thesis using p d by blast
  next
    case extend
    then have "canon_char u c s = Inr (?s\<lparr>cs_result := cs_result s, d_start := d_start s, d_end := d + 1\<rparr>)"
      by (simp add: canon_char_def find entry)
    moreover have "canon_inv (insert d D) (?s\<lparr>cs_result := cs_result s, d_start := d_start s, d_end := d + 1\<rparr>)"
      using inv extend small bound by (auto simp: canon_inv_def order_less_imp_le intro: order_less_trans)
    ultimately show ?thesis using p d by blast
  next
    case new
    obtain cr where cr: "cr_add_interval (cs_result s) (d_start s) (d_end s) = Inr (cr, 0)" "cr_inv cr" "cr_total cr"
      "cr_contents cr = cr_contents (cs_result s) @ [d_start s, d_end s]"
      using inv cr_add_interval_total unfolding canon_inv_def by blast
    have ev: "even (length (cr_contents (cs_result s)))" using inv by (simp add: canon_inv_def)
    have "cr_len cr = length (cr_contents (cs_result s)) + 2" using length_cr_contents [OF cr(2)] unfolding cr(4) by simp
    then have "even (cr_len cr)" using ev by simp
    moreover have "canon_char u c s = Inr (?s\<lparr>cs_result := cr, d_start := d, d_end := d + 1\<rparr>)"
      using new cr(1) by (simp add: canon_char_def find entry)
    moreover have "canon_inv (insert d D) (?s\<lparr>cs_result := cr, d_start := d, d_end := d + 1\<rparr>)"
      using inv new small bound cr(2-4) \<open>even (cr_len cr)\<close> by (auto simp: canon_inv_def as_pairs_append [OF ev])
    ultimately show ?thesis using p d by blast
  qed
qed

definition canon_image :: "bool \<Rightarrow> u32 set \<Rightarrow> u32 set" where
  "canon_image u C = {d. \<exists>c\<in>C. lre_canonicalize c u = Inr d}"

lemma canon_image_simps [simp]:
  "canon_image u {} = {}" "lre_canonicalize c u = Inr d \<Longrightarrow> canon_image u (insert c C) = insert d (canon_image u C)"
  "canon_image u (C \<union> C') = canon_image u C \<union> canon_image u C'"
  by (auto simp: canon_image_def)

lemma canon_chars_spec:
  assumes "canon_inv D s" "canon_pos c s" "{c..<en} \<subseteq> affected u"
  shows "\<exists>s'. canon_chars u c en s = Inr s' \<and> canon_inv (canon_image u {c..<en} \<union> D) s' \<and> (c \<le> en \<longrightarrow> canon_pos en s')"
  using assms
proof (induction "unat en - unat c" arbitrary: c s D rule: less_induct)
  case less
  show ?case
  proof (cases "c < en")
    case False
    then have "{c..<en} = {}" by auto
    with False less.prems show ?thesis by (auto simp: canon_chars.simps [of u c] intro: canon_pos_mono)
  next
    case True
    then have "unat c < unat en" by (simp add: word_less_nat_alt)
    moreover have "unat en < 2 ^ 32" using u32_unat_lt [of en] by simp
    ultimately have lt: "unat c < unat en" "unat c + 1 < 2 ^ 32" by linarith+
    then have u1: "unat (c + 1) = unat c + 1" by (simp add: unat_word_ariths)
    have le: "c \<le> c + 1" "c + 1 \<le> en" using lt by (simp_all add: word_le_nat_alt u1)
    have set: "{c..<en} = insert c {c + 1..<en}"
      using lt by (auto simp: word_le_nat_alt word_less_nat_alt u1 word_unat_eq_iff)
    have "c \<in> affected u" using less.prems(3) True by auto
    from canon_char_spec [OF less.prems(1,2) this] obtain d s1 where s1: "lre_canonicalize c u = Inr d"
      "canon_char u c s = Inr s1" "canon_inv (insert d D) s1" "canon_pos c s1" by blast
    have "unat en - unat (c + 1) < unat en - unat c" using lt u1 by simp
    from less.hyps [OF this s1(3) canon_pos_mono [OF s1(4) le(1)]] obtain s2 where s2: "canon_chars u (c + 1) en s1 = Inr s2"
      "canon_inv (canon_image u {c + 1..<en} \<union> insert d D) s2" "canon_pos en s2"
      using less.prems(3) le(2) unfolding set by blast
    with True s1(1,2) show ?thesis unfolding set by (simp add: canon_chars.simps [of u c])
  qed
qed

lemma pairs_lower: "sorted (a # b # ps) \<Longrightarrow> even (length ps) \<Longrightarrow> x \<in> cr_set ps \<Longrightarrow> b \<le> x"
proof -
  assume a: "sorted (a # b # ps)" "even (length ps)" "x \<in> cr_set ps"
  then obtain i where "2 * i + 1 < length ps" "ps ! (2 * i) \<le> x" using cr_set_intervals [of ps x] by auto
  moreover have "b \<le> ps ! (2 * i)" using a(1) calculation(1) by (auto dest: bspec [of "set ps" _ "ps ! (2 * i)"])
  ultimately show "b \<le> x" by simp
qed

lemma cr_set_Cons2:
  assumes "sorted (a # b # ps)" "even (length ps)"
  shows "cr_set (a # b # ps) = {a..<b} \<union> cr_set ps"
proof -
  have "x \<in> cr_set (a # b # ps) \<longleftrightarrow> x \<in> {a..<b} \<union> cr_set ps" for x
  proof (cases "b \<le> x")
    case True
    moreover from True assms(1) have "a \<le> x" by auto
    ultimately show ?thesis by (auto simp: cr_set_def)
  next
    case False
    then have "x \<notin> cr_set ps" using pairs_lower [OF assms] by blast
    moreover have "below x ps = 0" using False assms(1) by (force simp: below_0_iff)
    ultimately show ?thesis using False by (auto simp: cr_set_def)
  qed
  then show ?thesis by blast
qed

lemma canon_loop_spec:
  assumes "len \<le> length points" "sorted (take len points)" "even len"
  shows "canon_inv D s \<Longrightarrow> even i \<Longrightarrow> i \<le> len \<Longrightarrow> (\<And>x. x \<in> cr_set (drop i (take len points)) \<Longrightarrow> canon_pos x s) \<Longrightarrow>
     cr_set (drop i (take len points)) \<subseteq> affected u \<Longrightarrow>
     \<exists>s'. canon_loop u points len i s = Inr s' \<and> canon_inv (canon_image u (cr_set (drop i (take len points))) \<union> D) s'"
proof (induction "len - i" arbitrary: i s D rule: less_induct)
  case less
  show ?case
  proof (cases "i < len")
    case False
    with less.prems show ?thesis by (simp add: canon_loop.simps [of u points] cr_set_def)
  next
    case True
    then have i: "i + 1 < len" "i + 2 \<le> len" using True less.prems(2) assms(3) by presburger+
    let ?a = "points ! i" and ?b = "points ! (i + 1)" and ?ps = "drop (i + 2) (take len points)"
    have d: "drop i (take len points) = ?a # ?b # ?ps"
      using i assms(1) Cons_nth_drop_Suc [of i "take len points"] Cons_nth_drop_Suc [of "i + 1" "take len points"] by simp
    have srt: "sorted (?a # ?b # ?ps)" unfolding d [symmetric] by (rule sorted_wrt_drop) (rule assms(2))
    have ev: "even (length ?ps)" using assms less.prems(2) i by simp
    note cs = cr_set_Cons2 [OF srt ev]
    have "{?a..<?b} \<subseteq> affected u" using less.prems(5) unfolding d cs by blast
    moreover have "canon_pos ?a s \<or> {?a..<?b} = {}" using less.prems(4) [of ?a] unfolding d cs by auto
    ultimately obtain s1 where s1: "canon_chars u ?a ?b s = Inr s1" "canon_inv (canon_image u {?a..<?b} \<union> D) s1"
      "\<And>x. x \<in> cr_set ?ps \<Longrightarrow> canon_pos x s1"
    proof (cases "?a < ?b")
      case False
      then have "{?a..<?b} = {}" by auto
      with False less.prems(1,4) cs d that [of s] show ?thesis by (simp add: canon_chars.simps [of u ?a])
    next
      case True
      then obtain s1 where "canon_chars u ?a ?b s = Inr s1" "canon_inv (canon_image u {?a..<?b} \<union> D) s1" "canon_pos ?b s1"
        using canon_chars_spec [OF less.prems(1), of ?a ?b u] \<open>{?a..<?b} \<subseteq> affected u\<close> \<open>canon_pos ?a s \<or> {?a..<?b} = {}\<close> by auto
      with that canon_pos_mono pairs_lower [OF srt ev] show ?thesis by blast
    qed
    have "\<exists>s'. canon_loop u points len (i + 2) s1 = Inr s' \<and> canon_inv (canon_image u (cr_set ?ps) \<union> (canon_image u {?a..<?b} \<union> D)) s'"
      using less.prems i s1 True cs unfolding d by (intro less.hyps) auto
    moreover have "canon_loop u points len i s = canon_loop u points len (i + 2) s1"
      using True i assms(1) s1(1) by (simp add: canon_loop.simps [of u points len i])
    ultimately show ?thesis unfolding d cs by (simp add: Un_ac)
  qed
qed

section \<open>The image of a character set\<close>

lemma or_fail_yields:
  assumes "cr_denotes A m" "cr_inv cr" "\<And>x. cr_sorted x \<Longrightarrow> cr_set (cr_contents x) = A \<Longrightarrow> cr_yields S (f x)"
  shows "cr_yields S (or_fail cr m f)"
proof -
  obtain x r where x: "m = Inr (x, r)" "r = 0 \<and> cr_sorted x \<and> cr_set (cr_contents x) = A \<or> r = -1"
    using assms(1) unfolding cr_denotes_def by blast
  then show ?thesis using assms(2,3) by (auto simp: cr_yields_def)
qed

lemma cr_op_denotes:
  assumes "cr_inv cr" "cr_len cr = 0" "cr_sorted a" "cr_sorted b"
  shows "cr_yields (op_set op (cr_set (cr_contents a)) (cr_set (cr_contents b))) (cr_op cr (cr_points a) (cr_len a) (cr_points b) (cr_len b) op)"
  using assms cr_op_yields [of cr "cr_len a" "cr_points a" "cr_len b" "cr_points b" op]
  by (simp add: cr_sorted_def cr_contents_def cr_inv_def)

lemma affected_case_changed: "{x. case_changed (if u then CASE_F else CASE_U) x} = affected u"
proof -
  have "bit (4 :: u32) n \<longleftrightarrow> n = 2" "bit (1 :: u32) n \<longleftrightarrow> n = 0" for n
    using bit_exp_iff [where 'a = u32, of 2 n] by (auto simp: bit_1_iff)
  then show ?thesis by (cases u) (auto simp: case_changed_split)
qed

lemma canon_finish:
  assumes "canon_inv D s" "cr_sorted sub" "cr_inv cr"
  shows "cr_yields (D \<union> cr_set (cr_contents sub))
    (or_fail cr (if d_start s \<noteq> -1 then cr_add_interval (cs_result s) (d_start s) (d_end s) else Inr (cs_result s, 0)) (\<lambda>cr_result.
      cbind (cr_sort_and_remove_overlap cr_result) (\<lambda>cr_result.
      cbind (cr_op (cr\<lparr>cr_len := 0\<rparr>) (cr_points cr_result) (cr_len cr_result) (cr_points sub) (cr_len sub) CR_OP_UNION) (\<lambda>(cr, r).
      if r \<noteq> 0 then Inr (cr, -1) else Inr (cr, 0)))))"
proof -
  let ?m = "if d_start s \<noteq> -1 then cr_add_interval (cs_result s) (d_start s) (d_end s) else Inr (cs_result s, 0)"
  have ev: "even (length (cr_contents (cs_result s)))" using assms(1) by (simp add: canon_inv_def)
  obtain x where x: "?m = Inr (x, 0)" "cr_inv x" "even (cr_len x)" "\<forall>(a, b)\<in>set (as_pairs (cr_contents x)). a < b"
    "pair_set (as_pairs (cr_contents x)) = D"
  proof (cases "d_start s = -1")
    case True
    with assms(1) that [of "cs_result s"] show ?thesis by (simp add: canon_inv_def)
  next
    case False
    obtain x where x: "cr_add_interval (cs_result s) (d_start s) (d_end s) = Inr (x, 0)" "cr_inv x"
      "cr_contents x = cr_contents (cs_result s) @ [d_start s, d_end s]"
      using assms(1) cr_add_interval_total unfolding canon_inv_def by blast
    have "cr_len x = length (cr_contents (cs_result s)) + 2" using length_cr_contents [OF x(2)] unfolding x(3) by simp
    with False assms(1) x ev that [of x] show ?thesis by (simp add: canon_inv_def as_pairs_append)
  qed
  obtain y where y: "cr_sort_and_remove_overlap x = Inr y" "cr_inv y" "canonical (cr_contents y)" "cr_set (cr_contents y) = D"
    using cr_sort_and_remove_overlap_spec [OF x(2-4)] x(5) by (auto simp: pair_set_def)
  have srt: "cr_sorted y" using y canonical_sorted canonical_even by (simp add: cr_sorted_def)
  have "cr_inv (cr\<lparr>cr_len := 0\<rparr>)" using assms(3) by (simp add: cr_inv_def)
  from cr_op_denotes [OF this _ srt assms(2), of CR_OP_UNION]
  have "cr_yields (D \<union> cr_set (cr_contents sub)) (cr_op (cr\<lparr>cr_len := 0\<rparr>) (cr_points y) (cr_len y) (cr_points sub) (cr_len sub) CR_OP_UNION)"
    by (simp add: op_set_def y(4))
  then show ?thesis unfolding x(1) using y(1) by (auto simp: cr_yields_def)
qed

lemma canon_pass:
  assumes "cr_sorted ir" "cr_set (cr_contents ir) \<subseteq> affected u" "cr_sorted sub" "cr_inv cr"
    and "cr_inv cr0" "cr_contents cr0 = []" "cr_total cr0"
  shows "cr_yields (canon_image u (cr_set (cr_contents ir)) \<union> cr_set (cr_contents sub))
    (cbind (canon_loop u (cr_points ir) (cr_len ir) 0
        \<lparr>cs_result = cr0, d_start = -1, d_end = -1, cs_idx = 0, cs_v = case_conv_table1 ! 0\<rparr>) (\<lambda>s.
    or_fail cr (if d_start s \<noteq> -1 then cr_add_interval (cs_result s) (d_start s) (d_end s) else Inr (cs_result s, 0)) (\<lambda>cr_result.
      cbind (cr_sort_and_remove_overlap cr_result) (\<lambda>cr_result.
      cbind (cr_op (cr\<lparr>cr_len := 0\<rparr>) (cr_points cr_result) (cr_len cr_result) (cr_points sub) (cr_len sub) CR_OP_UNION) (\<lambda>(cr, r).
      if r \<noteq> 0 then Inr (cr, -1) else Inr (cr, 0))))))"
proof -
  let ?s = "\<lparr>cs_result = cr0, d_start = -1, d_end = -1, cs_idx = 0, cs_v = case_conv_table1 ! 0\<rparr>"
  have "canon_inv {} ?s" using assms(5-7) length_cr_contents [OF assms(5)] by (simp add: canon_inv_def)
  moreover have "canon_pos x ?s" for x by (simp add: canon_pos_def)
  ultimately obtain s where "canon_loop u (cr_points ir) (cr_len ir) 0 ?s = Inr s"
    "canon_inv (canon_image u (cr_set (cr_contents ir))) s"
    using canon_loop_spec [of "cr_len ir" "cr_points ir" "{}" ?s 0 u] assms(1,2)
    by (auto simp: cr_sorted_def cr_inv_def cr_contents_def)
  with canon_finish [OF _ assms(3,4)] show ?thesis by simp
qed

lemma cr_regexp_canonicalize_yields:
  assumes "cr_sorted cr" "cr_total cr"
  shows "cr_yields (canon_image u (cr_set (cr_contents cr))) (cr_regexp_canonicalize cr u)"
proof -
  let ?S = "cr_set (cr_contents cr)"
  define cr0 where "cr0 = cr_init 0 (Some (cr_realloc_func cr))"
  have inv: "cr_inv cr" using assms(1) by (simp add: cr_sorted_def)
  have cr0: "cr_inv cr0" "cr_len cr0 = 0" "cr_contents cr0 = []" "cr_total cr0"
    using inv assms(2) cr_init_inv [of "Some (cr_realloc_func cr)" 0] by (auto simp: cr0_def cr_init_def cr_inv_def cr_total_def)
  have mask: "cr_denotes (affected u) (unicode_case1 cr0 (if u then CASE_F else CASE_U))"
    using unicode_case1_denotes [OF cr0(1,2), of "if u then CASE_F else CASE_U"] unfolding affected_case_changed .
  have split: "canon_image u ?S = canon_image u (affected u \<inter> ?S) \<union> (- affected u - {0xFFFFFFFF}) \<inter> ?S"
  proof -
    have "0xFFFFFFFF \<notin> ?S" using assms(1) by (intro cr_set_not_max) (simp add: cr_sorted_def)
    moreover have "canon_image u (?S - affected u) = ?S - affected u"
      using canonicalize_unaffected unfolding canon_image_def by auto
    moreover have "?S = affected u \<inter> ?S \<union> (?S - affected u)" by blast
    ultimately show ?thesis using canon_image_simps(3) [of u "affected u \<inter> ?S" "?S - affected u"] by auto
  qed
  have t0: "rd case_conv_table1 0 = Inr (case_conv_table1 ! 0)" by (simp add: length_case_conv_table1)
  have inter: "cr_denotes (A \<inter> ?S) (cr_op cr0 (cr_points m) (cr_len m) (cr_points cr) (cr_len cr) CR_OP_INTER)"
    if "cr_sorted m" "cr_set (cr_contents m) = A" for m A
    using cr_op_denotes [OF cr0(1,2) that(1) assms(1), of CR_OP_INTER] by (intro cr_yields_denotes) (simp add: that(2) op_set_def)
  have inverted: "cr_denotes (- affected u - {0xFFFFFFFF}) (cr_invert m)"
    if "cr_sorted m" "cr_set (cr_contents m) = affected u" for m
    using cr_invert_yields [of m] that by (intro cr_yields_denotes) (simp add: cr_sorted_def)
  show ?thesis
    unfolding cr_regexp_canonicalize_def cr0_def [symmetric] Let_def split t0 cbind.simps(2)
  proof (rule or_fail_yields [OF mask inv], rule or_fail_yields [OF inter inv], assumption, assumption,
      rule or_fail_yields [OF inverted inv], assumption, assumption, rule or_fail_yields [OF inter inv], assumption, assumption, goal_cases)
    case (1 m i n sub)
    then show ?case using canon_pass [of i u sub cr cr0] inv cr0 by simp
  qed
qed


lemma total_realloc:
  "cr_sorted \<lparr>cr_len = 2, cr_size = 2, cr_points = [0x61, 0x7b], cr_realloc_func = \<lambda>p n. Some (take n p @ replicate (n - length p) 0)\<rparr>"
  by (simp add: cr_sorted_def cr_inv_def cr_contents_def cr_realloc_law_def min_def)


end
