(* ===== verification/Char_Class.thy ===== *)
theory Char_Class
  imports Unicode_Class
begin

text \<open>
  What the character class functions of \<open>Unicode_Class\<close> decide: the sets encoded by the property tables,
  and the white space and identifier characters of the language.
\<close>

section \<open>Lookups\<close>

lemma lre_is_cased_mem:
  "lre_is_cased c = Inr ((\<exists>v\<in>set case_conv_table1. covers case_code case_len v c) \<or> table_mem unicode_prop_Cased1_table c)"
  using run_lookup_None_iff [of case_code case_len case_conv_table1 c]
  by (auto simp: lre_is_cased_def case_runs.search length_Cased1_index cased1.in_table)

lemma lre_is_case_ignorable_mem: "lre_is_case_ignorable c = Inr (table_mem unicode_prop_Case_Ignorable_table c)"
  by (simp add: lre_is_case_ignorable_def length_Case_Ignorable_index case_ignorable.in_table)

lemma lre_is_id_start_mem: "lre_is_id_start c = Inr (table_mem unicode_prop_ID_Start_table c)"
  by (simp add: lre_is_id_start_def length_ID_Start_index id_start.in_table)

lemma lre_is_id_continue_mem:
  "lre_is_id_continue c =
     Inr (table_mem unicode_prop_ID_Start_table c \<or> table_mem unicode_prop_ID_Continue1_table c)"
  by (simp add: lre_is_id_continue_def lre_is_id_start_mem length_ID_Continue1_index id_continue1.in_table)

section \<open>ASCII classes and white space\<close>

text \<open>White space and line terminators of the language, and its ASCII identifier characters.\<close>

definition js_space :: "int \<Rightarrow> bool" where
  "js_space c \<longleftrightarrow> 9 \<le> c \<and> c \<le> 13 \<or> c = 0x20 \<or> c = 0xA0 \<or> c = 0x1680 \<or> 0x2000 \<le> c \<and> c \<le> 0x200A \<or>
     c = 0x2028 \<or> c = 0x2029 \<or> c = 0x202F \<or> c = 0x205F \<or> c = 0x3000 \<or> c = 0xFEFF"

definition js_letter :: "int \<Rightarrow> bool" where
  "js_letter c \<longleftrightarrow> 65 \<le> c \<and> c \<le> 90 \<or> 97 \<le> c \<and> c \<le> 122 \<or> c = 36 \<or> c = 95"

definition js_digit :: "int \<Rightarrow> bool" where
  "js_digit c \<longleftrightarrow> 48 \<le> c \<and> c \<le> 57"

text \<open>The bits of the class table, position by position.\<close>

definition ctype_ok :: "int \<Rightarrow> u8 \<Rightarrow> bool" where
  "ctype_ok i b \<longleftrightarrow> (b AND 1 \<noteq> 0) = js_space i \<and> (b AND 60 \<noteq> 0) = js_letter i \<and>
     (b AND 62 \<noteq> 0) = (js_letter i \<or> js_digit i)"

fun ctypes_ok :: "int \<Rightarrow> u8 list \<Rightarrow> bool" where
  "ctypes_ok i [] = True"
| "ctypes_ok i (b # bs) = (ctype_ok i b \<and> ctypes_ok (i + 1) bs)"

lemma ctypes_ok_nth: "ctypes_ok i bs \<Longrightarrow> k < length bs \<Longrightarrow> ctype_ok (i + int k) (bs ! k)"
proof (induction i bs arbitrary: k rule: ctypes_ok.induct)
  case (2 i b bs)
  then show ?case by (cases k) (auto simp: algebra_simps)
qed simp

lemma length_lre_ctype_bits: "length lre_ctype_bits = 256"
  by (simp add: lre_ctype_bits_def)

lemma lre_ctype_bits_ok: "ctypes_ok 0 lre_ctype_bits"
  by (simp add: lre_ctype_bits_def ctype_ok_def js_space_def js_letter_def js_digit_def)

lemma lre_is_space_byte_iff: "lre_is_space_byte b = Inr (js_space (uint b))"
  using ctypes_ok_nth [OF lre_ctype_bits_ok, of "unat b"]
  by (simp add: lre_is_space_byte_def length_lre_ctype_bits ctype_ok_def)

lemma lre_is_id_start_byte_iff: "lre_is_id_start_byte b = Inr (js_letter (uint b))"
  using ctypes_ok_nth [OF lre_ctype_bits_ok, of "unat b"]
  by (simp add: lre_is_id_start_byte_def length_lre_ctype_bits ctype_ok_def)

lemma lre_is_id_continue_byte_iff: "lre_is_id_continue_byte b = Inr (js_letter (uint b) \<or> js_digit (uint b))"
  using ctypes_ok_nth [OF lre_ctype_bits_ok, of "unat b"]
  by (simp add: lre_is_id_continue_byte_def length_lre_ctype_bits ctype_ok_def)

lemma uint_ucast_u8: "c < (256 :: u32) \<Longrightarrow> uint (ucast c :: u8) = uint c"
  by (simp add: unsigned_ucast_eq word_less_def take_bit_int_eq_self)

lemma uint_ucast_u16 [simp]: "uint (ucast (x :: u16) :: u32) = uint x"
  by (rule uint_up_ucast) (simp add: is_up)

lemma char_range_s_len: "length char_range_s = 21"
  by (simp add: char_range_s_def)

lemma js_space_high:
  assumes "256 \<le> (n :: int)"
  shows "js_space n \<longleftrightarrow> 0xA0 \<le> n \<and> n < 0xA1 \<or> 0x1680 \<le> n \<and> n < 0x1681 \<or> 0x2000 \<le> n \<and> n < 0x200B \<or>
    0x2028 \<le> n \<and> n < 0x202A \<or> 0x202F \<le> n \<and> n < 0x2030 \<or> 0x205F \<le> n \<and> n < 0x2060 \<or>
    0x3000 \<le> n \<and> n < 0x3001 \<or> 0xFEFF \<le> n \<and> n < 0xFF00"
proof -
  have "\<not> n \<le> 13" "n \<noteq> 0x20" using assms by auto
  moreover have "n \<le> 0x200A \<longleftrightarrow> n < 0x200B" "0x2028 \<le> n \<and> n < 0x202A \<longleftrightarrow> n = 0x2028 \<or> n = 0x2029" by auto
  moreover have "0xA0 \<le> n \<and> n < 0xA1 \<longleftrightarrow> n = 0xA0" "0x1680 \<le> n \<and> n < 0x1681 \<longleftrightarrow> n = 0x1680"
    "0x202F \<le> n \<and> n < 0x2030 \<longleftrightarrow> n = 0x202F" "0x205F \<le> n \<and> n < 0x2060 \<longleftrightarrow> n = 0x205F"
    "0x3000 \<le> n \<and> n < 0x3001 \<longleftrightarrow> n = 0x3000" "0xFEFF \<le> n \<and> n < 0xFF00 \<longleftrightarrow> n = 0xFEFF"
    by auto
  ultimately show ?thesis unfolding js_space_def by simp
qed

lemma lre_is_space_non_ascii_iff:
  assumes "256 \<le> c" shows "lre_is_space_non_ascii c = Inr (js_space (uint c))"
proof -
  have step: "space_loop c i =
      (if uint c < uint (char_range_s ! i) then Inr False
       else if uint c < uint (char_range_s ! (i + 1)) then Inr True else space_loop c (i + 2))"
    if "i + 1 < 21" for i
    using that unfolding space_loop.simps [of c i]
    by (simp add: char_range_s_len word_less_def)
  have c: "256 \<le> uint c" using assms by (simp add: word_le_def)
  have cells: "map uint char_range_s = [10, 9, 14, 0x20, 0x21, 0xA0, 0xA1, 0x1680, 0x1681, 0x2000, 0x200B, 0x2028, 0x202A,
      0x202F, 0x2030, 0x205F, 0x2060, 0x3000, 0x3001, 0xFEFF, 0xFF00]"
    by (simp add: char_range_s_def)
  have cell: "uint (char_range_s ! i) = [10, 9, 14, 0x20, 0x21, 0xA0, 0xA1, 0x1680, 0x1681, 0x2000, 0x200B, 0x2028, 0x202A,
      0x202F, 0x2030, 0x205F, 0x2060, 0x3000, 0x3001, 0xFEFF, 0xFF00] ! i" if "i < 21" for i
    using arg_cong [OF cells, of "\<lambda>l. l ! i"] that by (simp add: char_range_s_len)
  have "space_loop c 5 = Inr (js_space (uint c))"
    unfolding js_space_high [OF c]
    using step [of 5] step [of 7] step [of 9] step [of 11] step [of 13] step [of 15] step [of 17] step [of 19]
      space_loop.simps [of c 21]
    by (simp add: cell char_range_s_len)
  then show ?thesis by (simp add: lre_is_space_non_ascii_def)
qed

lemma lre_is_space_iff: "lre_is_space c = Inr (js_space (uint c))"
  by (cases "c < 256")
    (simp_all add: lre_is_space_def lre_is_space_byte_iff uint_ucast_u8 lre_is_space_non_ascii_iff not_less)

section \<open>Properties\<close>

text \<open>
  C17. Lookups in the indexed property tables are memory safe, terminate, and decide membership in the set
  the table encodes: for every character, searching the index and decoding one block gives the
  same answer as decoding the table from its first byte. \<open>lre_is_cased\<close> also accepts every character of
  the case conversion table.
\<close>

theorem property_lookup_correct:
  "lre_is_case_ignorable c = Inr (table_mem unicode_prop_Case_Ignorable_table c) \<and>
   lre_is_id_start c = Inr (table_mem unicode_prop_ID_Start_table c) \<and>
   lre_is_id_continue c = Inr (table_mem unicode_prop_ID_Start_table c \<or> table_mem unicode_prop_ID_Continue1_table c) \<and>
   lre_is_cased c = Inr ((\<exists>v\<in>set case_conv_table1. covers case_code case_len v c) \<or>
     table_mem unicode_prop_Cased1_table c)"
  by (simp only: lre_is_case_ignorable_mem lre_is_id_start_mem lre_is_id_continue_mem lre_is_cased_mem)

text \<open>
  C18. \<open>lre_is_space\<close> decides the white space and line terminator characters of the language, and
  \<open>lre_js_is_ident_first\<close> and \<open>lre_js_is_ident_next\<close> its identifier characters: the letters, digits, \<open>$\<close> and \<open>_\<close> of
  ASCII, the property tables beyond it, and the joiners U+200C and U+200D inside an identifier.
\<close>

theorem js_char_classes:
  "lre_is_space c = Inr (js_space (uint c)) \<and>
   lre_js_is_ident_first c = Inr (if c < 128 then js_letter (uint c) else table_mem unicode_prop_ID_Start_table c) \<and>
   lre_js_is_ident_next c = Inr (if c < 128 then js_letter (uint c) \<or> js_digit (uint c)
     else c = 0x200C \<or> c = 0x200D \<or> table_mem unicode_prop_ID_Start_table c \<or> table_mem unicode_prop_ID_Continue1_table c)"
proof -
  have small: "uint (ucast c :: u8) = uint c" if "c < 128"
    using that by (intro uint_ucast_u8) (simp add: word_less_def)
  have "c \<ge> 0x200C \<and> c \<le> 0x200D \<longleftrightarrow> c = 0x200C \<or> c = 0x200D"
    unfolding word_le_def word_uint_eq_iff by auto
  then show ?thesis
    by (simp add: lre_is_space_iff lre_js_is_ident_first_def lre_js_is_ident_next_def lre_is_id_start_byte_iff
        lre_is_id_continue_byte_iff lre_is_id_start_mem lre_is_id_continue_mem small)
qed

end
