(* ===== verification/Unicode_Prop.thy ===== *)
theory Unicode_Prop
  imports Range_Canon Char_Class
begin

text \<open>
  Named general categories and properties of \<^verbatim>\<open>libunicode.c\<close>. Most derived properties are programs for the
  stack machine \<open>unicode_prop_ops\<close>, whose operands are the ranges of the decoders and whose operators are
  those of \<open>cr_op\<close> and \<open>cr_invert\<close>. The machine's stack has four entries; its limits are asserted.
\<close>

section \<open>Definitions\<close>

text \<open>The variable arguments of \<open>unicode_prop_ops\<close>: an operation with its operand.\<close>

datatype prop_op = POP_GC u32 | POP_PROP nat | POP_CASE u32 | POP_UNION | POP_INTER | POP_XOR | POP_INVERT | POP_END

definition POP_STACK_LEN_MAX :: nat where
  "POP_STACK_LEN_MAX = 4"

text \<open>\<open>cr_init (&stack[...], cr->mem_opaque, cr->realloc_func)\<close>: an empty range with the allocator of \<open>cr\<close>.\<close>

abbreviation (input) cr_like :: "char_range \<Rightarrow> char_range" where
  "cr_like cr \<equiv> cr_init 0 (Some (cr_realloc_func cr))"

definition pop_push :: "char_range list \<Rightarrow> (char_range \<times> int) cres \<Rightarrow> (char_range list \<times> int) cres" where
  "pop_push stack m =
     (if length stack < POP_STACK_LEN_MAX then cbind m (\<lambda>(x, r). Inr (x # stack, r)) else Inl AssertFailed)"

text \<open>One operation other than \<open>POP_END\<close>; the head of the list is the top of the stack.\<close>

definition pop_binary :: "char_range \<Rightarrow> cr_op_enum \<Rightarrow> char_range list \<Rightarrow> (char_range list \<times> int) cres" where
  "pop_binary cr op stack =
     (case stack of
        cr2 # cr1 # rest \<Rightarrow>
          if length stack < POP_STACK_LEN_MAX then
            cbind (cr_op (cr_like cr) (cr_points cr1) (cr_len cr1) (cr_points cr2) (cr_len cr2) op) (\<lambda>(cr3, r).
            Inr (cr3 # rest, r))
          else Inl AssertFailed
      | _ \<Rightarrow> Inl AssertFailed)"

fun pop_step :: "char_range \<Rightarrow> prop_op \<Rightarrow> char_range list \<Rightarrow> (char_range list \<times> int) cres" where
  "pop_step cr (POP_GC a) stack = pop_push stack (unicode_general_category1 (cr_like cr) a)"
| "pop_step cr (POP_PROP a) stack = pop_push stack (unicode_prop1 (cr_like cr) a)"
| "pop_step cr (POP_CASE a) stack = pop_push stack (unicode_case1 (cr_like cr) a)"
| "pop_step cr POP_UNION stack = pop_binary cr CR_OP_UNION stack"
| "pop_step cr POP_INTER stack = pop_binary cr CR_OP_INTER stack"
| "pop_step cr POP_XOR stack = pop_binary cr CR_OP_XOR stack"
| "pop_step cr POP_INVERT stack =
     (case stack of x # rest \<Rightarrow> cbind (cr_invert x) (\<lambda>(x, r). Inr (x # rest, r)) | [] \<Rightarrow> Inl AssertFailed)"
| "pop_step cr POP_END stack = Inl Aborted"

text \<open>The loop; reading beyond the last argument is out of bounds.\<close>

fun prop_ops_loop :: "char_range \<Rightarrow> prop_op list \<Rightarrow> char_range list \<Rightarrow> (char_range \<times> int) cres" where
  "prop_ops_loop cr [] stack = Inl OutOfBounds"
| "prop_ops_loop cr (op # ops) stack =
     (if op = POP_END then
        case stack of [x] \<Rightarrow> cr_copy cr x | _ \<Rightarrow> Inl AssertFailed
      else cbind (pop_step cr op stack) (\<lambda>(stack, r).
           if r \<noteq> 0 then Inr (cr, -1) else prop_ops_loop cr ops stack))"

definition unicode_prop_ops :: "char_range \<Rightarrow> prop_op list \<Rightarrow> (char_range \<times> int) cres" where
  "unicode_prop_ops cr ops = prop_ops_loop cr ops []"

abbreviation (input) M_all :: "nat list \<Rightarrow> u32" where
  "M_all ks \<equiv> foldr (\<lambda>k m. gc_bit k OR m) ks 0"

definition unicode_gc_mask_table :: "u32 list" where
  "unicode_gc_mask_table = [
    M_all [UNICODE_GC_Lu, UNICODE_GC_Ll, UNICODE_GC_Lt],
    M_all [UNICODE_GC_Lu, UNICODE_GC_Ll, UNICODE_GC_Lt, UNICODE_GC_Lm, UNICODE_GC_Lo],
    M_all [UNICODE_GC_Mn, UNICODE_GC_Mc, UNICODE_GC_Me],
    M_all [UNICODE_GC_Nd, UNICODE_GC_Nl, UNICODE_GC_No],
    M_all [UNICODE_GC_Sm, UNICODE_GC_Sc, UNICODE_GC_Sk, UNICODE_GC_So],
    M_all [UNICODE_GC_Pc, UNICODE_GC_Pd, UNICODE_GC_Ps, UNICODE_GC_Pe, UNICODE_GC_Pi, UNICODE_GC_Pf, UNICODE_GC_Po],
    M_all [UNICODE_GC_Zs, UNICODE_GC_Zl, UNICODE_GC_Zp],
    M_all [UNICODE_GC_Cc, UNICODE_GC_Cf, UNICODE_GC_Cs, UNICODE_GC_Co, UNICODE_GC_Cn]]"

definition unicode_general_category :: "char_range \<Rightarrow> string \<Rightarrow> (char_range \<times> int) cres" where
  "unicode_general_category cr gc_name =
     cbind (unicode_find_name unicode_gc_name_table gc_name) (\<lambda>gc_idx.
     if gc_idx < 0 then Inr (cr, -2)
     else
       cbind (if gc_idx \<le> int UNICODE_GC_Co then Inr (push_bit (nat gc_idx) 1)
              else rd unicode_gc_mask_table (nat gc_idx - UNICODE_GC_LC)) (\<lambda>gc_mask.
       unicode_general_category1 cr gc_mask))"

definition unicode_prop_switch :: "char_range \<Rightarrow> nat \<Rightarrow> (char_range \<times> int) cres" where
  "unicode_prop_switch cr prop_idx =
     (if prop_idx = UNICODE_PROP_ASCII then
        cbind (cr_add_interval cr 0x00 (0x7f + 1)) (\<lambda>(cr, r). if r \<noteq> 0 then Inr (cr, -1) else Inr (cr, 0))
      else if prop_idx = UNICODE_PROP_Any then
        cbind (cr_add_interval cr 0x00000 (0x10ffff + 1)) (\<lambda>(cr, r). if r \<noteq> 0 then Inr (cr, -1) else Inr (cr, 0))
      else if prop_idx = UNICODE_PROP_Assigned then
        unicode_prop_ops cr [POP_GC (M_all [UNICODE_GC_Cn]), POP_INVERT, POP_END]
      else if prop_idx = UNICODE_PROP_Math then
        unicode_prop_ops cr [POP_GC (M_all [UNICODE_GC_Sm]), POP_PROP UNICODE_PROP_Other_Math, POP_UNION, POP_END]
      else if prop_idx = UNICODE_PROP_Lowercase then
        unicode_prop_ops cr [POP_GC (M_all [UNICODE_GC_Ll]), POP_PROP UNICODE_PROP_Other_Lowercase, POP_UNION, POP_END]
      else if prop_idx = UNICODE_PROP_Uppercase then
        unicode_prop_ops cr [POP_GC (M_all [UNICODE_GC_Lu]), POP_PROP UNICODE_PROP_Other_Uppercase, POP_UNION, POP_END]
      else if prop_idx = UNICODE_PROP_Cased then
        unicode_prop_ops cr [POP_GC (M_all [UNICODE_GC_Lu, UNICODE_GC_Ll, UNICODE_GC_Lt]),
          POP_PROP UNICODE_PROP_Other_Uppercase, POP_UNION, POP_PROP UNICODE_PROP_Other_Lowercase, POP_UNION, POP_END]
      else if prop_idx = UNICODE_PROP_Alphabetic then
        unicode_prop_ops cr [POP_GC (M_all [UNICODE_GC_Lu, UNICODE_GC_Ll, UNICODE_GC_Lt, UNICODE_GC_Lm, UNICODE_GC_Lo, UNICODE_GC_Nl]),
          POP_PROP UNICODE_PROP_Other_Uppercase, POP_UNION, POP_PROP UNICODE_PROP_Other_Lowercase, POP_UNION,
          POP_PROP UNICODE_PROP_Other_Alphabetic, POP_UNION, POP_END]
      else if prop_idx = UNICODE_PROP_Grapheme_Base then
        unicode_prop_ops cr [POP_GC (M_all [UNICODE_GC_Cc, UNICODE_GC_Cf, UNICODE_GC_Cs, UNICODE_GC_Co, UNICODE_GC_Cn,
            UNICODE_GC_Zl, UNICODE_GC_Zp, UNICODE_GC_Me, UNICODE_GC_Mn]),
          POP_PROP UNICODE_PROP_Other_Grapheme_Extend, POP_UNION, POP_INVERT, POP_END]
      else if prop_idx = UNICODE_PROP_Grapheme_Extend then
        unicode_prop_ops cr [POP_GC (M_all [UNICODE_GC_Me, UNICODE_GC_Mn]), POP_PROP UNICODE_PROP_Other_Grapheme_Extend, POP_UNION, POP_END]
      else if prop_idx = UNICODE_PROP_XID_Start then
        unicode_prop_ops cr [POP_GC (M_all [UNICODE_GC_Lu, UNICODE_GC_Ll, UNICODE_GC_Lt, UNICODE_GC_Lm, UNICODE_GC_Lo, UNICODE_GC_Nl]),
          POP_PROP UNICODE_PROP_Other_ID_Start, POP_UNION,
          POP_PROP UNICODE_PROP_Pattern_Syntax, POP_PROP UNICODE_PROP_Pattern_White_Space, POP_UNION,
          POP_PROP UNICODE_PROP_XID_Start1, POP_UNION, POP_INVERT, POP_INTER, POP_END]
      else if prop_idx = UNICODE_PROP_XID_Continue then
        unicode_prop_ops cr [POP_GC (M_all [UNICODE_GC_Lu, UNICODE_GC_Ll, UNICODE_GC_Lt, UNICODE_GC_Lm, UNICODE_GC_Lo, UNICODE_GC_Nl,
            UNICODE_GC_Mn, UNICODE_GC_Mc, UNICODE_GC_Nd, UNICODE_GC_Pc]),
          POP_PROP UNICODE_PROP_Other_ID_Start, POP_UNION, POP_PROP UNICODE_PROP_Other_ID_Continue, POP_UNION,
          POP_PROP UNICODE_PROP_Pattern_Syntax, POP_PROP UNICODE_PROP_Pattern_White_Space, POP_UNION,
          POP_PROP UNICODE_PROP_XID_Continue1, POP_UNION, POP_INVERT, POP_INTER, POP_END]
      else if prop_idx = UNICODE_PROP_Changes_When_Uppercased then unicode_case1 cr CASE_U
      else if prop_idx = UNICODE_PROP_Changes_When_Lowercased then unicode_case1 cr CASE_L
      else if prop_idx = UNICODE_PROP_Changes_When_Casemapped then unicode_case1 cr (CASE_U OR CASE_L OR CASE_F)
      else if prop_idx = UNICODE_PROP_Changes_When_Titlecased then
        unicode_prop_ops cr [POP_CASE CASE_U, POP_PROP UNICODE_PROP_Changes_When_Titlecased1, POP_XOR, POP_END]
      else if prop_idx = UNICODE_PROP_Changes_When_Casefolded then
        unicode_prop_ops cr [POP_CASE CASE_F, POP_PROP UNICODE_PROP_Changes_When_Casefolded1, POP_XOR, POP_END]
      else if prop_idx = UNICODE_PROP_Changes_When_NFKC_Casefolded then
        unicode_prop_ops cr [POP_CASE CASE_F, POP_PROP UNICODE_PROP_Changes_When_NFKC_Casefolded1, POP_XOR, POP_END]
      else if prop_idx = UNICODE_PROP_ID_Continue then
        unicode_prop_ops cr [POP_PROP UNICODE_PROP_ID_Start, POP_PROP UNICODE_PROP_ID_Continue1, POP_XOR, POP_END]
      else if prop_idx \<ge> length unicode_prop_table then Inr (cr, -2)
      else unicode_prop1 cr prop_idx)"

definition unicode_prop :: "char_range \<Rightarrow> string \<Rightarrow> (char_range \<times> int) cres" where
  "unicode_prop cr prop_name =
     cbind (unicode_find_name unicode_prop_name_table prop_name) (\<lambda>prop_idx.
     if prop_idx < 0 then Inr (cr, -2)
     else unicode_prop_switch cr (nat prop_idx + UNICODE_PROP_ASCII_Hex_Digit))"

end
