(* ===== verification/Name_Lookup.thy ===== *)
theory Name_Lookup
  imports Unicode_Range
begin

text \<open>
  What \<open>unicode_find_name\<close> computes: the position of the first entry of a name table that lists the name. An
  entry is a comma separated list of names, ended by a null character.
\<close>

section \<open>Entries\<close>

function names_of :: "string \<Rightarrow> string list" where
  "names_of e =
     (let n = takeWhile (\<lambda>c. c \<noteq> CHR '','') e in
      n # (if length n < length e then names_of (drop (length n + 1) e) else []))"
  by pat_completeness auto
termination by (relation "measure length") auto

declare names_of.simps [simp del]

text \<open>The position of the first entry with the name, counted from \<open>pos\<close>, or -1.\<close>

fun name_index :: "string list \<Rightarrow> string \<Rightarrow> nat \<Rightarrow> int" where
  "name_index [] name pos = -1"
| "name_index (e # es) name pos = (if name \<in> set (names_of e) then int pos else name_index es name (pos + 1))"

definition entry_str :: "string \<Rightarrow> bool" where
  "entry_str e \<longleftrightarrow> e \<noteq> [] \<and> CHR 0x00 \<notin> set e"

lemma c_strchr_entry:
  assumes "CHR 0x00 \<notin> set e"
  shows "c_strchr CHR '','' (e @ CHR 0x00 # rest) =
    Inr (if CHR '','' \<in> set e then Some (length (takeWhile (\<lambda>c. c \<noteq> CHR '','') e)) else None)"
  using assms by (induction e) auto

lemma c_strlen_entry: "CHR 0x00 \<notin> set e \<Longrightarrow> c_strlen (e @ CHR 0x00 # rest) = Inr (length e)"
  by (induction e) auto

lemma takeWhile_comma: "CHR '','' \<in> set e \<longleftrightarrow> length (takeWhile (\<lambda>c. c \<noteq> CHR '','') e) < length e"
proof -
  have "takeWhile (\<lambda>c. c \<noteq> CHR '','') e = e \<longleftrightarrow> CHR '','' \<notin> set e" by (auto simp: takeWhile_eq_all_conv)
  moreover have "length (takeWhile (\<lambda>c. c \<noteq> CHR '','') e) < length e \<longleftrightarrow> takeWhile (\<lambda>c. c \<noteq> CHR '','') e \<noteq> e"
    by (metis length_takeWhile_le le_neq_implies_less less_irrefl takeWhile_eq_take take_all_iff)
  ultimately show ?thesis by blast
qed

lemma find_name_entry_spec:
  "drop p tbl = e @ CHR 0x00 # rest \<Longrightarrow> CHR 0x00 \<notin> set e \<Longrightarrow>
     find_name_entry tbl p name = Inr (if name \<in> set (names_of e) then None else Some (p + length e + 1))"
proof (induction e arbitrary: p rule: names_of.induct)
  case (1 e)
  define n where "n = takeWhile (\<lambda>c. c \<noteq> CHR '','') e"
  have len: "length n \<le> length e" by (simp add: n_def length_takeWhile_le)
  have tn: "take (length n) e = n" by (simp add: n_def takeWhile_eq_take [symmetric])
  have names: "names_of e = n # (if length n < length e then names_of (drop (length n + 1) e) else [])"
    by (simp add: names_of.simps [of e] n_def Let_def)
  have chr: "c_strchr CHR '','' (drop p tbl) = Inr (if length n < length e then Some (length n) else None)"
    using c_strchr_entry [OF 1(3)] by (simp add: 1(2) n_def takeWhile_comma)
  have match: "length n = length name \<and> take (length n) (drop p tbl) = name \<longleftrightarrow> n = name"
    using len tn by (auto simp: 1(2))
  show ?case
  proof (cases "length n < length e")
    case True
    have "drop (p + length n + 1) tbl = drop (length n + 1) e @ CHR 0x00 # rest"
      using True 1(2) drop_drop [of "length n + 1" p tbl] by (simp add: add.commute)
    moreover have "CHR 0x00 \<notin> set (drop (length n + 1) e)" using 1(3) by (meson in_set_dropD)
    ultimately have "find_name_entry tbl (p + length n + 1) name =
        Inr (if name \<in> set (names_of (drop (length n + 1) e)) then None else Some (p + length n + 1 + length (drop (length n + 1) e) + 1))"
      using 1(1) [OF n_def] True by blast
    then show ?thesis
      using True match by (auto simp: find_name_entry.simps [of tbl p] chr names)
  next
    case False
    then have "n = e" using len tn by simp
    moreover have "c_strlen (drop p tbl) = Inr (length e)" unfolding 1(2) by (rule c_strlen_entry [OF 1(3)])
    ultimately show ?thesis
      using False match unfolding find_name_entry.simps [of tbl p] chr names by (auto simp: not_less)
  qed
qed

lemma c_strings_Cons: "c_strings (e # es) = e @ CHR 0x00 # c_strings es"
  by (simp add: c_strings_def)

lemma find_name_loop_spec:
  "drop p tbl = c_strings es \<Longrightarrow> list_all entry_str es \<Longrightarrow> find_name_loop tbl p name pos = Inr (name_index es name pos)"
proof (induction es arbitrary: p pos)
  case Nil
  then have d: "drop p tbl = [CHR 0x00]" by (simp add: c_strings_def)
  then have "p < length tbl" by (cases "p < length tbl") auto
  moreover have "tbl ! p = CHR 0x00" using d by (rule nth_via_drop)
  ultimately have "p < length tbl" "tbl ! p = CHR 0x00" by auto
  then show ?case by (simp add: find_name_loop.simps [of tbl p])
next
  case (Cons e es)
  have e: "e \<noteq> []" "CHR 0x00 \<notin> set e" "list_all entry_str es" using Cons.prems by (simp_all add: entry_str_def [of e])
  have d: "drop p tbl = e @ CHR 0x00 # c_strings es" using Cons.prems by (simp add: c_strings_Cons)
  then have "p < length tbl" by (cases "p < length tbl") auto
  moreover from this have "tbl ! p = hd e" using e(1) d by (simp add: hd_drop_conv_nth [symmetric])
  moreover have "hd e \<noteq> CHR 0x00" using e(1,2) by (cases e) auto
  moreover have "drop (p + length e + 1) tbl = c_strings es"
    using d drop_drop [of "length e + 1" p tbl] by (simp add: add.commute)
  ultimately show ?case
    using find_name_entry_spec [OF d e(2)] Cons.IH e(3) by (simp add: find_name_loop.simps [of tbl p])
qed

lemma name_index_spec:
  "name_index es name pos = -1 \<and> (\<forall>e\<in>set es. name \<notin> set (names_of e)) \<or>
   (\<exists>i<length es. name_index es name pos = int (pos + i) \<and> name \<in> set (names_of (es ! i)) \<and> (\<forall>j<i. name \<notin> set (names_of (es ! j))))"
proof (induction es arbitrary: pos)
  case (Cons e es)
  show ?case
  proof (cases "name \<in> set (names_of e)")
    case False
    from Cons [of "pos + 1"] show ?thesis
    proof (elim disjE exE conjE)
      fix i assume i: "i < length es" "name_index es name (pos + 1) = int (pos + 1 + i)" "name \<in> set (names_of (es ! i))"
        "\<forall>j<i. name \<notin> set (names_of (es ! j))"
      then have "\<forall>j<Suc i. name \<notin> set (names_of ((e # es) ! j))" using False by (auto simp: less_Suc_eq_0_disj)
      with i False show ?thesis by (intro disjI2 exI [of _ "Suc i"]) auto
    qed (use False in auto)
  qed (auto intro!: exI [of _ 0])
qed simp

section \<open>The three tables\<close>

lemma entries_str:
  "list_all entry_str unicode_gc_name_table_entries"
  "list_all entry_str unicode_script_name_table_entries"
  "list_all entry_str unicode_prop_name_table_entries"
  by (simp_all add: unicode_gc_name_table_entries_def unicode_script_name_table_entries_def unicode_prop_name_table_entries_def entry_str_def)

lemma unicode_find_name_index:
  "unicode_find_name unicode_gc_name_table name = Inr (name_index unicode_gc_name_table_entries name 0)"
  "unicode_find_name unicode_script_name_table name = Inr (name_index unicode_script_name_table_entries name 0)"
  "unicode_find_name unicode_prop_name_table name = Inr (name_index unicode_prop_name_table_entries name 0)"
  using entries_str
  by (simp_all add: unicode_find_name_def unicode_gc_name_table_def unicode_script_name_table_def unicode_prop_name_table_def find_name_loop_spec)

text \<open>
  C24. \<open>unicode_find_name\<close> on the category, script and property name tables stays inside the table for every
  name, also one with commas or longer than any entry. It returns the position of the first entry that lists
  the name among its comma separated names, and -1 exactly when no entry does.
\<close>

theorem unicode_find_name_correct:
  "\<forall>(table, entries)\<in>{(unicode_gc_name_table, unicode_gc_name_table_entries),
      (unicode_script_name_table, unicode_script_name_table_entries), (unicode_prop_name_table, unicode_prop_name_table_entries)}.
     unicode_find_name table name = Inr (-1) \<and> (\<forall>e\<in>set entries. name \<notin> set (names_of e)) \<or>
     (\<exists>i<length entries. unicode_find_name table name = Inr (int i) \<and> name \<in> set (names_of (entries ! i)) \<and>
        (\<forall>j<i. name \<notin> set (names_of (entries ! j))))"
  using name_index_spec [where pos = 0] by (simp add: unicode_find_name_index)

theorem unicode_find_name_correct_witness:
  "\<exists>i<length unicode_gc_name_table_entries. unicode_find_name unicode_gc_name_table ''Lu'' = Inr (int i) \<and>
     ''Lu'' \<in> set (names_of (unicode_gc_name_table_entries ! i))"
proof -
  have "\<exists>e\<in>set unicode_gc_name_table_entries. ''Lu'' \<in> set (names_of e)"
    by (rule bexI [of _ "''Lu,Uppercase_Letter''"]) (simp_all add: unicode_gc_name_table_entries_def names_of.simps Let_def)
  with unicode_find_name_correct [of "''Lu''"] show ?thesis by auto
qed

end
