(* ===== verification/Prop_Sets.thy ===== *)
theory Prop_Sets
  imports Unicode_Prop Name_Lookup
begin

text \<open>
  What the property programs of \<open>Unicode_Prop\<close> compute: the stack machine on ranges implements the same
  machine on sets of characters, and each named property denotes the set of its definition.
\<close>

section \<open>Operands\<close>

text \<open>A decoder that fills an empty range with the set of its argument.\<close>

locale range_source =
  fixes source :: "char_range \<Rightarrow> 'a \<Rightarrow> (char_range \<times> int) cres"
    and valid :: "'a \<Rightarrow> bool" and chars :: "'a \<Rightarrow> u32 set"
  assumes denotes: "cr_inv cr \<Longrightarrow> cr_len cr = 0 \<Longrightarrow> valid a \<Longrightarrow> cr_denotes (chars a) (source cr a)"
begin

lemma fresh:
  assumes "cr_inv cr" "valid a"
  obtains x r where "source (cr_like cr) a = Inr (x, r)" "r = 0 \<and> cr_sorted x \<and> cr_set (cr_contents x) = chars a \<or> r = -1"
proof -
  have "cr_inv (cr_like cr)" using assms(1) cr_init_inv [of "Some (cr_realloc_func cr)" 0] by (simp add: cr_inv_def)
  then have "cr_denotes (chars a) (source (cr_like cr) a)" using assms(2) by (intro denotes) (simp_all add: cr_init_def)
  then show ?thesis using that unfolding cr_denotes_def by blast
qed

end

definition gc_set :: "u32 \<Rightarrow> u32 set" where
  "gc_set gc_mask = {x. \<exists>k. general_category x = Some k \<and> bit gc_mask k}"

definition prop_set :: "nat \<Rightarrow> u32 set" where
  "prop_set i = {x. table_mem (unicode_prop_table ! i) x}"

definition case_set :: "u32 \<Rightarrow> u32 set" where
  "case_set case_mask = {c. \<exists>t\<in>{0, 1, 2}. bit case_mask t \<and> lre_case_conv c (int t) \<noteq> Inr [c]}"

interpretation categories: range_source unicode_general_category1 "\<lambda>_. True" gc_set
  by unfold_locales (simp add: gc_set_def unicode_general_category1_denotes)

interpretation properties: range_source unicode_prop1 "\<lambda>i. i < length unicode_prop_table" prop_set
  by unfold_locales (simp add: prop_set_def unicode_prop1_denotes)

interpretation changes: range_source unicode_case1 "\<lambda>_. True" case_set
  using unicode_case1_denotes by unfold_locales (simp add: case_set_def case_changed_split)

section \<open>The machine on sets\<close>

fun pop_sem :: "prop_op \<Rightarrow> u32 set list \<Rightarrow> u32 set list option" where
  "pop_sem (POP_GC a) st = (if length st < 4 then Some (gc_set a # st) else None)"
| "pop_sem (POP_PROP a) st = (if length st < 4 \<and> a < length unicode_prop_table then Some (prop_set a # st) else None)"
| "pop_sem (POP_CASE a) st = (if length st < 4 then Some (case_set a # st) else None)"
| "pop_sem POP_UNION (B # A # st) = (if length st < 2 then Some ((A \<union> B) # st) else None)"
| "pop_sem POP_INTER (B # A # st) = (if length st < 2 then Some ((A \<inter> B) # st) else None)"
| "pop_sem POP_XOR (B # A # st) = (if length st < 2 then Some ((A - B \<union> (B - A)) # st) else None)"
| "pop_sem POP_INVERT (A # st) = Some ((- A - {0xFFFFFFFF}) # st)"
| "pop_sem _ st = None"

fun pop_run :: "prop_op list \<Rightarrow> u32 set list \<Rightarrow> u32 set option" where
  "pop_run [] st = None"
| "pop_run (op # ops) st =
     (if op = POP_END then case st of [A] \<Rightarrow> Some A | _ \<Rightarrow> None
      else case pop_sem op st of None \<Rightarrow> None | Some st \<Rightarrow> pop_run ops st)"

definition range_rel :: "char_range \<Rightarrow> u32 set \<Rightarrow> bool" where
  "range_rel x A \<longleftrightarrow> cr_sorted x \<and> cr_set (cr_contents x) = A"

definition step_rel :: "u32 set list \<Rightarrow> (char_range list \<times> int) cres \<Rightarrow> bool" where
  "step_rel st m \<longleftrightarrow> (\<exists>stack r. m = Inr (stack, r) \<and> (r = 0 \<and> list_all2 range_rel stack st \<or> r = -1))"

lemma step_rel_bind:
  assumes "list_all2 range_rel stack st" "m = Inr (x, r)" "r = 0 \<and> range_rel x A \<or> r = -1"
  shows "step_rel (A # st) (cbind m (\<lambda>(x, r). Inr (x # stack, r)))"
  using assms by (auto simp: step_rel_def)

lemma pop_push_rel:
  assumes "list_all2 range_rel stack st" "length st < 4" "m = Inr (x, r)"
    "r = 0 \<and> cr_sorted x \<and> cr_set (cr_contents x) = A \<or> r = -1"
  shows "step_rel (A # st) (pop_push stack m)"
  using step_rel_bind [OF assms(1,3), of A] assms list_all2_lengthD [OF assms(1)]
  by (auto simp: pop_push_def POP_STACK_LEN_MAX_def range_rel_def)

lemma cr_like_inv: "cr_inv cr \<Longrightarrow> cr_inv (cr_like cr) \<and> cr_len (cr_like cr) = 0"
  using cr_init_inv [of "Some (cr_realloc_func cr)" 0] by (auto simp: cr_inv_def cr_init_def)

lemma cr_yieldsE:
  assumes "cr_yields A m"
  obtains x r where "m = Inr (x, r)" "r = 0 \<and> range_rel x A \<or> r = -1"
  using cr_yields_denotes [OF assms] unfolding cr_denotes_def range_rel_def by blast

lemma pop_binary_rel:
  assumes "cr_inv cr" "list_all2 range_rel stack (B # A # st)" "length st < 2"
  shows "step_rel (op_set op A B # st) (pop_binary cr op stack)"
proof -
  obtain cr2 cr1 rest where s: "stack = cr2 # cr1 # rest" "range_rel cr2 B" "range_rel cr1 A" "list_all2 range_rel rest st"
    using assms(2) by (auto simp: list_all2_Cons2)
  have "cr_yields (op_set op A B) (cr_op (cr_like cr) (cr_points cr1) (cr_len cr1) (cr_points cr2) (cr_len cr2) op)"
    using cr_op_denotes [of "cr_like cr" cr1 cr2 op] cr_like_inv [OF assms(1)] s(2,3) by (simp add: range_rel_def)
  then obtain x r where "cr_op (cr_like cr) (cr_points cr1) (cr_len cr1) (cr_points cr2) (cr_len cr2) op = Inr (x, r)"
    "r = 0 \<and> range_rel x (op_set op A B) \<or> r = -1" by (rule cr_yieldsE)
  then show ?thesis
    using s assms(3) list_all2_lengthD [OF s(4)] by (auto simp: pop_binary_def POP_STACK_LEN_MAX_def step_rel_def)
qed

lemma pop_step_rel:
  assumes inv: "cr_inv cr" and rel: "list_all2 range_rel stack st" and sem: "pop_sem op st = Some st'"
  shows "step_rel st' (pop_step cr op stack)"
proof (cases op)
  case (POP_GC a)
  obtain x r where "unicode_general_category1 (cr_like cr) a = Inr (x, r)" "r = 0 \<and> cr_sorted x \<and> cr_set (cr_contents x) = gc_set a \<or> r = -1"
    by (rule categories.fresh [OF inv TrueI])
  with POP_GC sem show ?thesis using pop_push_rel [OF rel] by (auto split: if_splits)
next
  case (POP_PROP a)
  then have a: "a < length unicode_prop_table" "st' = prop_set a # st" "length st < 4" using sem by (auto split: if_splits)
  obtain x r where "unicode_prop1 (cr_like cr) a = Inr (x, r)" "r = 0 \<and> cr_sorted x \<and> cr_set (cr_contents x) = prop_set a \<or> r = -1"
    by (rule properties.fresh [OF inv a(1)])
  with POP_PROP a show ?thesis using pop_push_rel [OF rel] by auto
next
  case (POP_CASE a)
  obtain x r where "unicode_case1 (cr_like cr) a = Inr (x, r)" "r = 0 \<and> cr_sorted x \<and> cr_set (cr_contents x) = case_set a \<or> r = -1"
    by (rule changes.fresh [OF inv TrueI])
  with POP_CASE sem show ?thesis using pop_push_rel [OF rel] by (auto split: if_splits)
next
  case POP_INVERT
  then obtain A rest where st: "st = A # rest" "st' = (- A - {0xFFFFFFFF}) # rest" using sem by (cases st) auto
  then obtain x stack' where s: "stack = x # stack'" "range_rel x A" "list_all2 range_rel stack' rest" using rel by (auto simp: list_all2_Cons2)
  have "cr_yields (- A - {0xFFFFFFFF}) (cr_invert x)" using cr_invert_yields [of x] s(2) by (auto simp: range_rel_def cr_sorted_def)
  then obtain y r where "cr_invert x = Inr (y, r)" "r = 0 \<and> range_rel y (- A - {0xFFFFFFFF}) \<or> r = -1" by (rule cr_yieldsE)
  with POP_INVERT s st show ?thesis by (auto simp: step_rel_def)
next
  case POP_UNION
  with sem obtain A B rest where "st = B # A # rest" "st' = op_set CR_OP_UNION A B # rest" "length rest < 2"
    by (cases "(op, st)" rule: pop_sem.cases) (auto simp: op_set_def split: if_splits)
  with POP_UNION pop_binary_rel [OF inv] rel show ?thesis by simp
next
  case POP_INTER
  with sem obtain A B rest where "st = B # A # rest" "st' = op_set CR_OP_INTER A B # rest" "length rest < 2"
    by (cases "(op, st)" rule: pop_sem.cases) (auto simp: op_set_def split: if_splits)
  with POP_INTER pop_binary_rel [OF inv] rel show ?thesis by simp
next
  case POP_XOR
  with sem obtain A B rest where "st = B # A # rest" "st' = op_set CR_OP_XOR A B # rest" "length rest < 2"
    by (cases "(op, st)" rule: pop_sem.cases) (auto simp: op_set_def split: if_splits)
  with POP_XOR pop_binary_rel [OF inv] rel show ?thesis by simp
next
  case POP_END
  with sem show ?thesis by (cases st) auto
qed

lemma cr_copy_rel: "cr_inv cr \<Longrightarrow> range_rel x A \<Longrightarrow> cr_denotes A (cr_copy cr x)"
  using cr_copy_result [of cr x] unfolding cr_result_def cr_denotes_def range_rel_def cr_sorted_def
  by (metis length_cr_contents)

lemma prop_ops_loop_denotes:
  assumes "cr_inv cr"
  shows "list_all2 range_rel stack st \<Longrightarrow> pop_run ops st = Some A \<Longrightarrow> cr_denotes A (prop_ops_loop cr ops stack)"
proof (induction ops arbitrary: stack st)
  case (Cons op ops)
  show ?case
  proof (cases "op = POP_END")
    case True
    with Cons.prems have "st = [A]" by (auto split: list.splits)
    with Cons.prems obtain x where "stack = [x]" "range_rel x A" by (auto simp: list_all2_Cons2)
    with True show ?thesis using cr_copy_rel [OF assms] by simp
  next
    case False
    with Cons.prems obtain st' where st': "pop_sem op st = Some st'" "pop_run ops st' = Some A" by (auto split: option.splits)
    obtain stack' r where "pop_step cr op stack = Inr (stack', r)" "r = 0 \<and> list_all2 range_rel stack' st' \<or> r = -1"
      using pop_step_rel [OF assms Cons.prems(1) st'(1)] unfolding step_rel_def by blast
    with False Cons.IH st'(2) assms show ?thesis by (auto simp: cr_denotes_def)
  qed
qed simp

lemma unicode_prop_ops_denotes: "cr_inv cr \<Longrightarrow> pop_run ops [] = Some A \<Longrightarrow> cr_denotes A (unicode_prop_ops cr ops)"
  unfolding unicode_prop_ops_def by (rule prop_ops_loop_denotes) simp_all

section \<open>The named properties\<close>

definition in_gc :: "nat list \<Rightarrow> u32 set" where
  "in_gc ks = {x. \<exists>k\<in>set ks. general_category x = Some k}"

lemma bit_gc_bit: "k < 32 \<Longrightarrow> bit (gc_bit k) n \<longleftrightarrow> n = k"
  by (auto simp: gc_bit_def bit_simps)

lemma bit_M_all: "\<forall>k\<in>set ks. k < 32 \<Longrightarrow> bit (M_all ks) n \<longleftrightarrow> n \<in> set ks"
  by (induction ks) (auto simp: bit_or_iff bit_gc_bit)

lemma gc_set_M_all: "\<forall>k\<in>set ks. k < 32 \<Longrightarrow> gc_set (M_all ks) = in_gc ks"
  unfolding gc_set_def in_gc_def bit_M_all by blast

text \<open>The definitions of the properties as sets; \<open>None\<close> for a number without table.\<close>

definition prop_spec :: "nat \<Rightarrow> u32 set option" where
  "prop_spec i =
     (let letters = [UNICODE_GC_Lu, UNICODE_GC_Ll, UNICODE_GC_Lt, UNICODE_GC_Lm, UNICODE_GC_Lo, UNICODE_GC_Nl];
          pattern = prop_set UNICODE_PROP_Pattern_Syntax \<union> prop_set UNICODE_PROP_Pattern_White_Space;
          compl = \<lambda>A. - A - {0xFFFFFFFF};
          xor = \<lambda>A B. A - B \<union> (B - A) in
      if i < 50 then Some (prop_set i)
      else if i = UNICODE_PROP_ASCII then Some {0..<0x80}
      else if i = UNICODE_PROP_Any then Some {0..<0x110000}
      else if i = UNICODE_PROP_Assigned then Some (compl (in_gc [UNICODE_GC_Cn]))
      else if i = UNICODE_PROP_Math then Some (in_gc [UNICODE_GC_Sm] \<union> prop_set UNICODE_PROP_Other_Math)
      else if i = UNICODE_PROP_Lowercase then Some (in_gc [UNICODE_GC_Ll] \<union> prop_set UNICODE_PROP_Other_Lowercase)
      else if i = UNICODE_PROP_Uppercase then Some (in_gc [UNICODE_GC_Lu] \<union> prop_set UNICODE_PROP_Other_Uppercase)
      else if i = UNICODE_PROP_Cased then
        Some (in_gc [UNICODE_GC_Lu, UNICODE_GC_Ll, UNICODE_GC_Lt] \<union> prop_set UNICODE_PROP_Other_Uppercase \<union> prop_set UNICODE_PROP_Other_Lowercase)
      else if i = UNICODE_PROP_Alphabetic then
        Some (in_gc letters \<union> prop_set UNICODE_PROP_Other_Uppercase \<union> prop_set UNICODE_PROP_Other_Lowercase \<union> prop_set UNICODE_PROP_Other_Alphabetic)
      else if i = UNICODE_PROP_Grapheme_Base then
        Some (compl (in_gc [UNICODE_GC_Cc, UNICODE_GC_Cf, UNICODE_GC_Cs, UNICODE_GC_Co, UNICODE_GC_Cn, UNICODE_GC_Zl, UNICODE_GC_Zp,
          UNICODE_GC_Me, UNICODE_GC_Mn] \<union> prop_set UNICODE_PROP_Other_Grapheme_Extend))
      else if i = UNICODE_PROP_Grapheme_Extend then
        Some (in_gc [UNICODE_GC_Me, UNICODE_GC_Mn] \<union> prop_set UNICODE_PROP_Other_Grapheme_Extend)
      else if i = UNICODE_PROP_XID_Start then
        Some ((in_gc letters \<union> prop_set UNICODE_PROP_Other_ID_Start) \<inter> compl (pattern \<union> prop_set UNICODE_PROP_XID_Start1))
      else if i = UNICODE_PROP_XID_Continue then
        Some ((in_gc (letters @ [UNICODE_GC_Mn, UNICODE_GC_Mc, UNICODE_GC_Nd, UNICODE_GC_Pc]) \<union> prop_set UNICODE_PROP_Other_ID_Start \<union>
            prop_set UNICODE_PROP_Other_ID_Continue) \<inter> compl (pattern \<union> prop_set UNICODE_PROP_XID_Continue1))
      else if i = UNICODE_PROP_Changes_When_Uppercased then Some (case_set CASE_U)
      else if i = UNICODE_PROP_Changes_When_Lowercased then Some (case_set CASE_L)
      else if i = UNICODE_PROP_Changes_When_Casemapped then Some (case_set (CASE_U OR CASE_L OR CASE_F))
      else if i = UNICODE_PROP_Changes_When_Titlecased then Some (xor (case_set CASE_U) (prop_set UNICODE_PROP_Changes_When_Titlecased1))
      else if i = UNICODE_PROP_Changes_When_Casefolded then Some (xor (case_set CASE_F) (prop_set UNICODE_PROP_Changes_When_Casefolded1))
      else if i = UNICODE_PROP_Changes_When_NFKC_Casefolded then Some (xor (case_set CASE_F) (prop_set UNICODE_PROP_Changes_When_NFKC_Casefolded1))
      else if i = UNICODE_PROP_ID_Continue then Some (xor (prop_set UNICODE_PROP_ID_Start) (prop_set UNICODE_PROP_ID_Continue1))
      else None)"

lemma length_unicode_prop_table: "length unicode_prop_table = 50"
  by (simp add: unicode_prop_table_def)

lemma cr_add_interval_denotes:
  assumes "cr_inv cr" "cr_len cr = 0" "a \<le> b"
  shows "cr_denotes {a..<b} (cbind (cr_add_interval cr a b) (\<lambda>(cr, r). if r \<noteq> 0 then Inr (cr, -1) else Inr (cr, 0)))"
proof -
  have "cr_result [a, b] (cr_add_interval cr a b)" using cr_add_interval_result [OF assms(1), of a b] assms(2) by (simp add: cr_contents_def)
  then obtain x r where x: "cr_add_interval cr a b = Inr (x, r)" "cr_inv x" "r = 0 \<and> cr_contents x = [a, b] \<or> r = -1"
    by (auto simp: cr_result_def)
  have srt: "cr_sorted x \<and> cr_set (cr_contents x) = {a..<b}" if "cr_contents x = [a, b]"
  proof -
    have "cr_len x = 2" using length_cr_contents [OF x(2)] that by simp
    then show ?thesis using that x(2) assms(3) cr_set_Cons2 [of a b "[]"] by (simp add: cr_sorted_def) (simp add: cr_set_def)
  qed
  from x(3) show ?thesis
  proof (elim disjE conjE)
    assume "r = 0" "cr_contents x = [a, b]"
    then show ?thesis unfolding cr_denotes_def x(1) using x(2) srt by simp
  next
    assume "r = -1"
    then show ?thesis unfolding cr_denotes_def x(1) using x(2) by simp
  qed
qed

lemma bigger_cases:
  assumes "\<not> (i :: nat) < 50"
  shows "i \<in> {50, 51, 52, 53, 54, 55, 56, 57, 58, 59, 60, 61, 62, 63, 64, 65, 66, 67, 68} \<or> 68 < i"
  using assms unfolding insert_iff empty_iff by presburger

lemma prop_switch_spec:
  assumes "cr_inv cr" "cr_len cr = 0"
  shows "case prop_spec i of Some A \<Rightarrow> cr_denotes A (unicode_prop_switch cr i) | None \<Rightarrow> unicode_prop_switch cr i = Inr (cr, -2)"
proof (cases "i < 50")
  case True
  with assms properties.denotes show ?thesis
    by (simp add: prop_spec_def unicode_prop_switch_def length_unicode_prop_table)
next
  case False
  note rules = unicode_prop_ops_denotes [OF assms(1)] cr_add_interval_denotes [OF assms] changes.denotes [OF assms TrueI]
  from bigger_cases [OF False] show ?thesis
  proof (elim disjE insertE)
    assume "68 < i"
    then show ?thesis by (simp add: prop_spec_def unicode_prop_switch_def length_unicode_prop_table Let_def)
  qed (simp_all add: prop_spec_def unicode_prop_switch_def Let_def rules gc_set_M_all length_unicode_prop_table del: foldr.simps)
qed

section \<open>Named categories\<close>

text \<open>The categories an entry of the name table stands for: itself, or the members of a group.\<close>

definition gc_members :: "nat \<Rightarrow> nat list" where
  "gc_members i =
     (if i \<le> UNICODE_GC_Co then [i]
      else if i = UNICODE_GC_LC then [UNICODE_GC_Lu, UNICODE_GC_Ll, UNICODE_GC_Lt]
      else if i = UNICODE_GC_L then [UNICODE_GC_Lu, UNICODE_GC_Ll, UNICODE_GC_Lt, UNICODE_GC_Lm, UNICODE_GC_Lo]
      else if i = UNICODE_GC_M then [UNICODE_GC_Mn, UNICODE_GC_Mc, UNICODE_GC_Me]
      else if i = UNICODE_GC_N then [UNICODE_GC_Nd, UNICODE_GC_Nl, UNICODE_GC_No]
      else if i = UNICODE_GC_S then [UNICODE_GC_Sm, UNICODE_GC_Sc, UNICODE_GC_Sk, UNICODE_GC_So]
      else if i = UNICODE_GC_P then [UNICODE_GC_Pc, UNICODE_GC_Pd, UNICODE_GC_Ps, UNICODE_GC_Pe, UNICODE_GC_Pi, UNICODE_GC_Pf, UNICODE_GC_Po]
      else if i = UNICODE_GC_Z then [UNICODE_GC_Zs, UNICODE_GC_Zl, UNICODE_GC_Zp]
      else [UNICODE_GC_Cc, UNICODE_GC_Cf, UNICODE_GC_Cs, UNICODE_GC_Co, UNICODE_GC_Cn])"

lemma gc_mask_members:
  assumes "i < 38"
  shows "\<exists>m. (if int i \<le> int UNICODE_GC_Co then Inr (push_bit i 1) else rd unicode_gc_mask_table (i - UNICODE_GC_LC)) = Inr m \<and>
    gc_set m = in_gc (gc_members i)"
proof (cases "i \<le> 29")
  case True
  then have "gc_set (push_bit i 1) = in_gc [i]" using gc_set_M_all [of "[i]"] by (simp add: gc_bit_def)
  with True show ?thesis by (simp add: gc_members_def)
next
  case False
  then have "i \<in> {30, 31, 32, 33, 34, 35, 36, 37}" using assms unfolding insert_iff empty_iff by presburger
  then show ?thesis
    by (elim insertE emptyE; simp add: unicode_gc_mask_table_def gc_members_def gc_set_M_all del: foldr.simps)
qed

section \<open>Properties\<close>

text \<open>
  C25. A program of \<open>unicode_prop_ops\<close> that runs on sets of characters within the four stack entries runs on
  ranges: no assertion fails, no access leaves an array, and unless an allocation fails the range returned
  denotes the set. The machine with real ranges thus implements the abstract set machine \<open>pop_run\<close>.
\<close>

theorem unicode_prop_ops_refines:
  assumes "cr_inv cr" "pop_run ops [] = Some A"
  shows "cr_denotes A (unicode_prop_ops cr ops)"
  using assms by (rule unicode_prop_ops_denotes)

theorem unicode_prop_ops_refines_witness:
  "cr_denotes ((gc_set 2 - prop_set 4 \<union> (prop_set 4 - gc_set 2)) \<inter> case_set 1)
     (unicode_prop_ops (cr_init 100000 None) [POP_GC 2, POP_PROP 4, POP_XOR, POP_CASE 1, POP_INTER, POP_END])"
  using unicode_prop_ops_refines [of "cr_init 100000 None" "[POP_GC 2, POP_PROP 4, POP_XOR, POP_CASE 1, POP_INTER, POP_END]"]
    cr_init_inv [of None 100000]
  by (simp add: length_unicode_prop_table)

text \<open>
  C26. \<open>unicode_general_category\<close> on a name of the category table denotes the characters of that category, or of
  all members of a group such as \<open>L\<close> or \<open>Punctuation\<close>, and \<open>unicode_prop\<close> on a property name denotes the set of
  its definition in terms of the tables; both return -2 and leave the range alone for any other name.
\<close>

theorem unicode_named_sets_correct:
  assumes "cr_inv cr" "cr_len cr = 0"
  shows "(let k = name_index unicode_gc_name_table_entries name 0 in
      if k < 0 then unicode_general_category cr name = Inr (cr, -2)
      else cr_denotes (in_gc (gc_members (nat k))) (unicode_general_category cr name)) \<and>
    (let k = name_index unicode_prop_name_table_entries name 0 in
      if k < 0 then unicode_prop cr name = Inr (cr, -2)
      else case prop_spec (nat k + UNICODE_PROP_ASCII_Hex_Digit) of
        Some A \<Rightarrow> cr_denotes A (unicode_prop cr name)
      | None \<Rightarrow> unicode_prop cr name = Inr (cr, -2))"
proof -
  let ?g = "name_index unicode_gc_name_table_entries name 0" and ?p = "name_index unicode_prop_name_table_entries name 0"
  have "cr_denotes (in_gc (gc_members (nat ?g))) (unicode_general_category cr name)" if "\<not> ?g < 0"
  proof -
    from name_index_spec [of unicode_gc_name_table_entries name 0] that
    obtain i where i: "i < length unicode_gc_name_table_entries" "?g = int i" by auto
    then have "i < 38" by (simp add: unicode_gc_name_table_entries_def)
    from gc_mask_members [OF this] obtain m where m:
      "(if int i \<le> int UNICODE_GC_Co then Inr (push_bit i 1) else rd unicode_gc_mask_table (i - UNICODE_GC_LC)) = Inr m"
      "gc_set m = in_gc (gc_members i)" by blast
    have "unicode_general_category cr name = unicode_general_category1 cr m"
      using m(1) by (auto simp: unicode_general_category_def unicode_find_name_index i(2) split: if_splits)
    with categories.denotes [OF assms TrueI, of m] m(2) i(2) show ?thesis by simp
  qed
  moreover have "unicode_general_category cr name = Inr (cr, -2)" if "?g < 0"
    using that by (simp add: unicode_general_category_def unicode_find_name_index)
  moreover have "unicode_prop cr name = (if ?p < 0 then Inr (cr, -2) else unicode_prop_switch cr (nat ?p + 16))"
    by (simp add: unicode_prop_def unicode_find_name_index)
  ultimately show ?thesis
    using prop_switch_spec [OF assms, of "nat ?p + 16"] by (cases "?p < 0"; cases "prop_spec (nat ?p + 16)") (simp_all add: Let_def)
qed

theorem unicode_named_sets_correct_witness:
  "cr_denotes (in_gc [UNICODE_GC_Zs, UNICODE_GC_Zl, UNICODE_GC_Zp]) (unicode_general_category (cr_init 100000 None) ''Separator'') \<and>
   cr_denotes {0..<0x110000} (unicode_prop (cr_init 100000 None) ''Any'') \<and>
   unicode_prop (cr_init 100000 None) ''Any,'' = Inr (cr_init 100000 None, -2)"
proof -
  have inv: "cr_inv (cr_init 100000 None)" "cr_len (cr_init 100000 None) = 0" using cr_init_inv [of None 100000] by (simp_all add: cr_init_def)
  have "name_index unicode_gc_name_table_entries ''Separator'' 0 = 36" "name_index unicode_prop_name_table_entries ''Any'' 0 = 36"
    "name_index unicode_prop_name_table_entries ''Any,'' 0 = -1"
    by (simp_all add: unicode_gc_name_table_entries_def unicode_prop_name_table_entries_def names_of.simps Let_def)
  with unicode_named_sets_correct [OF inv, of "''Separator''"] unicode_named_sets_correct [OF inv, of "''Any''"]
    unicode_named_sets_correct [OF inv, of "''Any,''"]
  show ?thesis by (simp add: gc_members_def prop_spec_def)
qed

end
