(* ===== verification/Run_Decoder.thy ===== *)
theory Run_Decoder
  imports Category_Decode
begin

text \<open>
  Tables that give each run of characters a value, decoded by a loop that adds the runs with selected
  values to a range. The locale states what such a loop does with one code of the table; what it computes
  on a whole table follows once for all. The script table and the script extension table are such tables.
\<close>

section \<open>Runs with values\<close>

inductive decodes :: "(u8 \<Rightarrow> u8 list \<Rightarrow> (int \<times> 'v \<times> u8 list) option) \<Rightarrow> u8 list \<Rightarrow> (int \<times> 'v) list \<Rightarrow> bool"
  for code where
  decodes_Nil: "decodes code [] []"
| decodes_Cons: "code b t = Some (n, v, t') \<Longrightarrow> decodes code t' rs \<Longrightarrow> decodes code (b # t) ((n, v) # rs)"

inductive_cases decodes_NilE: "decodes code [] rs"
inductive_cases decodes_ConsE: "decodes code (b # t) rs"

text \<open>The value of the run that holds \<open>x\<close>.\<close>

fun run_value :: "int \<Rightarrow> int \<Rightarrow> (int \<times> 'v) list \<Rightarrow> 'v option" where
  "run_value x c [] = None"
| "run_value x c ((n, v) # rs) = (if x < c + n then Some v else run_value x (c + n) rs)"

fun selected_ivs :: "('v \<Rightarrow> bool) \<Rightarrow> int \<Rightarrow> (int \<times> 'v) list \<Rightarrow> (int \<times> int) list" where
  "selected_ivs sel c [] = []"
| "selected_ivs sel c ((n, v) # rs) = (if sel v then [(c, c + n)] else []) @ selected_ivs sel (c + n) rs"

lemma selected_ivs_ascending:
  "(\<And>n v. (n, v) \<in> set rs \<Longrightarrow> 1 \<le> n) \<Longrightarrow> c + sum_list (map fst rs) < 2 ^ 32 \<Longrightarrow> ascending c (selected_ivs sel c rs)"
proof (induction rs arbitrary: c)
  case (Cons nv rs)
  obtain n v where nv: "nv = (n, v)" by (cases nv)
  have n: "1 \<le> n" "\<And>n v. (n, v) \<in> set rs \<Longrightarrow> 1 \<le> n" using Cons.prems(1) nv by auto
  then have "0 \<le> sum_list (map fst rs)" by (intro sum_list_nonneg) fastforce
  then have lt: "c + n < 2 ^ 32" using Cons.prems(2) nv by simp
  have "ascending (c + n) (selected_ivs sel (c + n) rs)" using Cons.prems nv by (intro Cons.IH) (auto simp: n algebra_simps)
  with n(1) lt show ?case unfolding nv by (auto intro: ascending_mono)
qed simp

lemma selected_ivs_set:
  "(\<And>n v. (n, v) \<in> set rs \<Longrightarrow> 1 \<le> n) \<Longrightarrow>
     x \<in> iv_set (selected_ivs sel c rs) \<longleftrightarrow> c \<le> uint x \<and> (\<exists>v. run_value (uint x) c rs = Some v \<and> sel v)"
proof (induction rs arbitrary: c)
  case (Cons nv rs)
  obtain n v where nv: "nv = (n, v)" by (cases nv)
  have n: "1 \<le> n" "\<And>n v. (n, v) \<in> set rs \<Longrightarrow> 1 \<le> n" using Cons.prems nv by auto
  have "x \<in> iv_set (selected_ivs sel (c + n) rs) \<longleftrightarrow> c + n \<le> uint x \<and> (\<exists>v. run_value (uint x) (c + n) rs = Some v \<and> sel v)"
    using n by (intro Cons.IH)
  with n(1) show ?case unfolding nv by auto
qed simp

locale run_decoder =
  fixes code :: "u8 \<Rightarrow> u8 list \<Rightarrow> (int \<times> 'v \<times> u8 list) option"
    and loop :: "u8 list \<Rightarrow> nat \<Rightarrow> u32 \<Rightarrow> char_range \<Rightarrow> (char_range \<times> int) cres"
    and sel :: "'v \<Rightarrow> bool"
  assumes run_pos: "code b t = Some (n, v, t') \<Longrightarrow> 1 \<le> n"
    and loop_end: "length table \<le> p \<Longrightarrow> loop table p c cr = Inr (cr, 0)"
    and loop_step: "drop p table = b # t \<Longrightarrow> code b t = Some (n, v, t') \<Longrightarrow> n < 2 ^ 32 \<Longrightarrow>
      \<exists>p' w. p < p' \<and> drop p' table = t' \<and> uint w = n \<and>
        loop table p c cr = cbind (if sel v then cr_add_interval cr c (c + w) else Inr (cr, 0)) (\<lambda>(cr, r).
          if r \<noteq> 0 then Inr (cr, -1) else loop table p' (c + w) cr)"
begin

lemma runs_pos: "decodes code t rs \<Longrightarrow> (n, v) \<in> set rs \<Longrightarrow> 1 \<le> n"
  by (induction rule: decodes.induct) (auto dest: run_pos)

lemma runs_nonneg: "decodes code t rs \<Longrightarrow> 0 \<le> sum_list (map fst rs)"
  using runs_pos by (intro sum_list_nonneg) fastforce

lemma loop_result:
  assumes "decodes code (drop p table) rs" "uint c + sum_list (map fst rs) < 2 ^ 32" "cr_inv cr"
  shows "cr_result (cr_contents cr @ flat (selected_ivs sel (uint c) rs)) (loop table p c cr)"
  using assms
proof (induction "drop p table" rs arbitrary: p c cr rule: decodes.induct)
  case decodes_Nil
  then show ?case by (simp add: loop_end cr_result_done)
next
  case (decodes_Cons b t n v t' rs)
  have n: "1 \<le> n" "0 \<le> sum_list (map fst rs)" using run_pos [OF decodes_Cons(1)] runs_nonneg [OF decodes_Cons(2)] by auto
  have "0 \<le> uint c" by simp
  then have "n < 2 ^ 32" using decodes_Cons.prems(1) n unfolding list.map sum_list.Cons fst_conv by linarith
  then obtain p' w where st: "p < p'" "drop p' table = t'" "uint w = n"
    "loop table p c cr = cbind (if sel v then cr_add_interval cr c (c + w) else Inr (cr, 0)) (\<lambda>(cr, r).
        if r \<noteq> 0 then Inr (cr, -1) else loop table p' (c + w) cr)"
    using loop_step [OF decodes_Cons(4) [symmetric] decodes_Cons(1)] by blast
  have c1: "uint (c + w) = uint c + n" using decodes_Cons.prems(1) n(2) st(3) by (subst uint_add_u32) simp_all
  show ?case
    unfolding st(4)
  proof (rule cr_result_bind [OF cr_add_interval_if [OF decodes_Cons.prems(2) refl c1]])
    fix cr1
    assume cr1: "cr_inv cr1" "cr_contents cr1 = cr_contents cr @ flat (if sel v then [(uint c, uint c + n)] else [])"
    have "cr_result (cr_contents cr1 @ flat (selected_ivs sel (uint (c + w)) rs)) (loop table p' (c + w) cr1)"
      using decodes_Cons.prems(1) by (intro decodes_Cons(3) [OF st(2) [symmetric]] cr1) (simp add: c1)
    then show "cr_result (cr_contents cr @ flat (selected_ivs sel (uint c) ((n, v) # rs))) (loop table p' (c + w) cr1)"
      using cr1(2) by (simp add: c1)
  qed
qed

lemma loop_denotes:
  assumes "decodes code table rs" "sum_list (map fst rs) < 2 ^ 32" "cr_inv cr" "cr_len cr = 0"
  shows "cr_denotes {x. \<exists>v. run_value (uint x) 0 rs = Some v \<and> sel v} (loop table 0 0 cr)"
proof -
  have c0: "cr_contents cr = []" using assms(4) by (simp add: cr_contents_def)
  have pos: "\<And>n v. (n, v) \<in> set rs \<Longrightarrow> 1 \<le> n" by (rule runs_pos [OF assms(1)])
  have "cr_result (cr_contents cr @ flat (selected_ivs sel (uint (0 :: u32)) rs)) (loop table 0 0 cr)"
    by (rule loop_result) (use assms in simp_all)
  then have "cr_denotes (iv_set (selected_ivs sel 0 rs)) (loop table 0 0 cr)"
    using selected_ivs_ascending [of rs 0 sel, OF pos] assms(2) c0 by (intro cr_result_denotes) simp_all
  moreover have "iv_set (selected_ivs sel 0 rs) = {x. \<exists>v. run_value (uint x) 0 rs = Some v \<and> sel v}"
    using selected_ivs_set [of rs _ sel 0, OF pos] by auto
  ultimately show ?thesis by simp
qed

end

section \<open>Counts of one to three bytes\<close>

text \<open>
  The counts of both script tables: below \<open>a\<close> the number itself, below \<open>b\<close> with one more byte, otherwise
  with two.
\<close>

definition count_code :: "int \<Rightarrow> int \<Rightarrow> int \<Rightarrow> u8 list \<Rightarrow> (int \<times> u8 list) option" where
  "count_code a b n t =
     (if n < a then Some (n, t)
      else if n < b then (case t of x # t \<Rightarrow> Some ((n - a) * 256 + uint x + a, t) | _ \<Rightarrow> None)
      else (case t of x # y # t \<Rightarrow> Some ((n - b) * 65536 + uint x * 256 + uint y + (a + (b - a) * 256), t) | _ \<Rightarrow> None))"

definition count_rd :: "u32 \<Rightarrow> u32 \<Rightarrow> u32 \<Rightarrow> u8 list \<Rightarrow> nat \<Rightarrow> u32 \<Rightarrow> (nat \<times> u32) cres" where
  "count_rd a b k table p n =
     (if n < a then Inr (p, n)
      else if n < b then cbind (rd table p) (\<lambda>x. Inr (p + 1, (push_bit 8 (n - a) OR ucast x) + a))
      else cbind (rd table p) (\<lambda>x. cbind (rd table (p + 1)) (\<lambda>y.
           Inr (p + 2, (push_bit 16 (n - b) OR push_bit 8 (ucast x) OR ucast y) + k))))"

lemma count_bound:
  fixes n a b x y :: int
  assumes "0 \<le> a" "a \<le> b" "b < 256" "n < 256" "x < 256" "y < 256"
  shows "(n - a) * 256 + x + a < 4294967296" "(n - b) * 65536 + x * 256 + y + (a + (b - a) * 256) < 4294967296"
  using assms by (simp_all add: left_diff_distrib)

lemma count_rd_code:
  assumes "drop p table = t" "count_code (uint a) (uint b) (uint n) t = Some (m, t')"
    and ab: "uint a \<le> uint b" "uint b < 256" "uint k = uint a + (uint b - uint a) * 256" and n: "uint n < 256"
  obtains p' w where "count_rd a b k table p n = Inr (p', w)" "uint w = m" "p \<le> p'" "drop p' table = t'" "0 \<le> m"
proof -
  have small: "uint n - uint x < 2 ^ 16" for x :: u32
  proof -
    have "0 \<le> uint x" by simp
    with n have "uint n - uint x < 256" by linarith
    then show ?thesis by simp
  qed
  have nonneg: "0 \<le> uint a" "0 \<le> uint b" by simp_all
  have big: "(2 :: int) ^ 32 = 4294967296" by simp
  consider (one) "n < a" | (two) "\<not> n < a" "n < b" | (three) "\<not> n < a" "\<not> n < b" by blast
  then show thesis
  proof cases
    case one
    then have "m = uint n" "t' = t" using assms(2) by (simp_all add: count_code_def word_less_def)
    with one assms(1) that [of p n] show thesis by (simp add: count_rd_def)
  next
    case two
    then have le: "uint a \<le> uint n" "uint n < uint b" by (simp_all add: word_less_def)
    with assms(2) obtain x where t: "t = x # t'" "m = (uint n - uint a) * 256 + uint x + uint a"
      by (auto simp: count_code_def split: list.splits)
    have r: "rd table p = Inr x" "drop (Suc p) table = t'" using drop_ConsD [of p table x t'] assms(1) t by simp_all
    have s: "uint (n - a) = uint n - uint a" using le by (intro uint_sub_u32) (simp add: word_le_def)
    have o: "uint (push_bit 8 (n - a) OR ucast x :: u32) = (uint n - uint a) * 256 + uint x"
      unfolding s [symmetric] by (rule uint_or_low) (use small [of a] s in simp)
    have u: "uint ((push_bit 8 (n - a) OR ucast x) + a) = m"
      unfolding t(2) o [symmetric]
      by (rule uint_add_u32, unfold o big) (rule count_bound(1) [of "uint a" "uint b" "uint n" "uint x" 0], use n ab nonneg uint_u8_bounds [of x] in simp_all)
    have "0 \<le> m" using u uint_ge_0 [of "(push_bit 8 (n - a) OR ucast x) + a"] by simp
    with that [of "p + 1" "(push_bit 8 (n - a) OR ucast x) + a"] two r u show thesis by (simp add: count_rd_def)
  next
    case three
    then have le: "uint a \<le> uint n" "uint b \<le> uint n" by (simp_all add: word_less_def)
    with assms(2) obtain x y where t: "t = x # y # t'" "m = (uint n - uint b) * 65536 + uint x * 256 + uint y + (uint a + (uint b - uint a) * 256)"
      by (auto simp: count_code_def split: list.splits)
    have r: "rd table p = Inr x" "drop (Suc p) table = y # t'" using drop_ConsD [of p table x "y # t'"] assms(1) t by simp_all
    have r': "rd table (Suc p) = Inr y" "drop (Suc (Suc p)) table = t'" using drop_ConsD [of "Suc p" table y t'] r t by simp_all
    have s: "uint (n - b) = uint n - uint b" using le by (intro uint_sub_u32) (simp add: word_le_def)
    have o: "uint (push_bit 16 (n - b) OR push_bit 8 (ucast x) OR ucast y :: u32) = (uint n - uint b) * 65536 + uint x * 256 + uint y"
      unfolding s [symmetric] by (rule uint_or_low2) (use small [of b] s in simp)
    have u: "uint ((push_bit 16 (n - b) OR push_bit 8 (ucast x) OR ucast y) + k) = m"
      unfolding t(2) o [symmetric] ab(3) [symmetric]
      by (rule uint_add_u32, unfold o big ab(3)) (rule count_bound(2), use n ab nonneg uint_u8_bounds [of x] uint_u8_bounds [of y] in simp_all)
    have "0 \<le> m" using u uint_ge_0 [of "(push_bit 16 (n - b) OR push_bit 8 (ucast x) OR ucast y) + k"] by simp
    with that [of "p + 2" "(push_bit 16 (n - b) OR push_bit 8 (ucast x) OR ucast y) + k"] three r r' u show thesis
      by (simp add: count_rd_def)
  qed
qed

end
