(* ===== verification/Script_Decode.thy ===== *)
theory Script_Decode
  imports Run_Decoder Name_Lookup
begin

text \<open>
  The script table and the script extension table as decoded tables, and what \<open>unicode_script\<close> computes from
  them.
\<close>

section \<open>The encodings\<close>

definition script_code :: "u8 \<Rightarrow> u8 list \<Rightarrow> (int \<times> int \<times> u8 list) option" where
  "script_code b t =
     (case count_code 96 112 (uint b mod 128) t of None \<Rightarrow> None
      | Some (n, t) \<Rightarrow>
          if b < 128 then Some (n + 1, 0, t)
          else (case t of v # t \<Rightarrow> Some (n + 1, uint v, t) | [] \<Rightarrow> None))"

fun split_at :: "nat \<Rightarrow> 'a list \<Rightarrow> ('a list \<times> 'a list) option" where
  "split_at 0 t = Some ([], t)"
| "split_at (Suc k) [] = None"
| "split_at (Suc k) (x # t) = map_option (\<lambda>(vs, t). (x # vs, t)) (split_at k t)"

definition ext_code :: "u8 \<Rightarrow> u8 list \<Rightarrow> (int \<times> u8 list \<times> u8 list) option" where
  "ext_code b t =
     (case count_code 128 192 (uint b) t of None \<Rightarrow> None
      | Some (n, []) \<Rightarrow> None
      | Some (n, l # t) \<Rightarrow> map_option (\<lambda>(vs, t). (n + 1, vs, t)) (split_at (unat l) t))"

lemma count_code_length: "count_code a b n t = Some (m, t') \<Longrightarrow> length t' \<le> length t"
  by (auto simp: count_code_def split: if_splits list.splits)

lemma split_at_Some: "split_at k t = Some (vs, t') \<Longrightarrow> t = vs @ t' \<and> length vs = k"
  by (induction k t arbitrary: vs rule: split_at.induct) auto

lemma script_code_length: "script_code b t = Some (n, v, t') \<Longrightarrow> length t' \<le> length t"
  by (auto simp: script_code_def dest!: count_code_length split: option.splits if_splits list.splits)

lemma ext_code_length: "ext_code b t = Some (n, v, t') \<Longrightarrow> length t' \<le> length t"
  by (auto simp: ext_code_def dest!: count_code_length split_at_Some split: option.splits list.splits)

function script_total :: "int \<Rightarrow> u8 list \<Rightarrow> int option" where
  "script_total s [] = Some s"
| "script_total s (b # t) = (case script_code b t of None \<Rightarrow> None | Some (n, v, t') \<Rightarrow> script_total (s + n) t')"
  by pat_completeness auto
termination
  by (relation "measure (length \<circ> snd)") (auto dest: script_code_length)

function ext_total :: "int \<Rightarrow> u8 list \<Rightarrow> int option" where
  "ext_total s [] = Some s"
| "ext_total s (b # t) = (case ext_code b t of None \<Rightarrow> None | Some (n, v, t') \<Rightarrow> ext_total (s + n) t')"
  by pat_completeness auto
termination
  by (relation "measure (length \<circ> snd)") (auto dest: ext_code_length)

function script_runs :: "u8 list \<Rightarrow> (int \<times> int) list" where
  "script_runs [] = []"
| "script_runs (b # t) = (case script_code b t of None \<Rightarrow> [] | Some (n, v, t') \<Rightarrow> (n, v) # script_runs t')"
  by pat_completeness auto
termination by (relation "measure length") (auto dest: script_code_length)

function ext_runs :: "u8 list \<Rightarrow> (int \<times> u8 list) list" where
  "ext_runs [] = []"
| "ext_runs (b # t) = (case ext_code b t of None \<Rightarrow> [] | Some (n, v, t') \<Rightarrow> (n, v) # ext_runs t')"
  by pat_completeness auto
termination by (relation "measure length") (auto dest: ext_code_length)

lemma script_total_runs:
  "script_total s t = Some m \<Longrightarrow> decodes script_code t (script_runs t) \<and> m = s + sum_list (map fst (script_runs t))"
proof (induction s t rule: script_total.induct)
  case (2 s b t)
  from "2.prems" obtain n v t' where c: "script_code b t = Some (n, v, t')" "script_total (s + n) t' = Some m"
    by (auto split: option.splits)
  with "2.IH" [OF c(1) refl refl] show ?case by (simp add: decodes.intros)
qed (simp add: decodes.intros)

lemma ext_total_runs:
  "ext_total s t = Some m \<Longrightarrow> decodes ext_code t (ext_runs t) \<and> m = s + sum_list (map fst (ext_runs t))"
proof (induction s t rule: ext_total.induct)
  case (2 s b t)
  from "2.prems" obtain n v t' where c: "ext_code b t = Some (n, v, t')" "ext_total (s + n) t' = Some m"
    by (auto split: option.splits)
  with "2.IH" [OF c(1) refl refl] show ?case by (simp add: decodes.intros)
qed (simp add: decodes.intros)

section \<open>The loops\<close>

lemma uint_ucast_and_7f: "uint ((ucast (b :: u8) :: u32) AND 0x7f) = uint b mod 128"
proof -
  have "(ucast b :: u32) AND 0x7f = take_bit 7 (ucast b)" by (simp add: take_bit_eq_mask mask_eq_exp_minus_1)
  then show ?thesis by (simp only: uint_low_bits uint_ucast_u32) simp
qed

lemma script_next_count:
  "script_next table p = cbind (rd table p) (\<lambda>b. cbind (count_rd 96 112 4192 table (p + 1) (ucast b AND 0x7f)) (\<lambda>(p, n).
     if b < 128 then Inr (p, n, 0) else cbind (rd table p) (\<lambda>v. Inr (p + 1, n, ucast v))))"
proof -
  have "drop_bit 7 (ucast b :: u32) = 0 \<longleftrightarrow> b < 128" for b :: u8
  proof -
    have "drop_bit 7 (ucast b :: u32) = 0 \<longleftrightarrow> uint b div 128 = 0" by (simp add: word_uint_eq_iff uint_shr)
    also have "\<dots> \<longleftrightarrow> uint b < 128" unfolding zdiv_eq_0_iff using uint_ge_0 [of b] by presburger
    finally show ?thesis by (simp add: word_less_def)
  qed
  then show ?thesis by (simp add: script_next_def count_rd_def Let_def eval_nat_numeral cong: if_cong)
qed

lemma script_ext_next_count:
  "script_ext_next table p = cbind (rd table p) (\<lambda>b. cbind (count_rd 128 192 16512 table (p + 1) (ucast b)) (\<lambda>(p, n).
     cbind (rd table p) (\<lambda>v_len. Inr (p + 1, n, unat v_len))))"
  by (simp add: script_ext_next_def count_rd_def Let_def eval_nat_numeral cong: if_cong)

lemma count_succ:
  assumes "uint (w :: u32) = n" "n + 1 < 2 ^ 32"
  shows "uint (w + 1) = n + 1"
  using assms by (subst uint_add_u32) simp_all

lemma script_code_step:
  assumes "drop p table = b # t" "script_code b t = Some (n, v, t')" "n < 2 ^ 32"
  shows "1 \<le> n \<and> (\<exists>p' w u. p < p' \<and> drop p' table = t' \<and> uint (w + 1) = n \<and> uint u = v \<and> script_next table p = Inr (p', w, u))"
proof -
  obtain m t1 where m: "count_code 96 112 (uint b mod 128) t = Some (m, t1)" using assms(2) by (auto simp: script_code_def split: option.splits)
  have r: "rd table p = Inr b" "drop (p + 1) table = t" using drop_ConsD [OF assms(1)] by simp_all
  have "uint b mod 128 < 256" by (rule order_less_trans [of _ 128]) simp_all
  then obtain p1 w where c: "count_rd 96 112 4192 table (p + 1) (ucast b AND 0x7f) = Inr (p1, w)" "uint w = m" "p + 1 \<le> p1" "drop p1 table = t1" "0 \<le> m"
    using count_rd_code [OF r(2), of 96 112 "ucast b AND 0x7f" m t1 4192] m by (auto simp: uint_ucast_and_7f)
  show ?thesis
  proof (cases "b < 128")
    case True
    then have "n = m + 1" "v = 0" "t' = t1" using assms(2) m by (simp_all add: script_code_def)
    with True r(1) c assms(3) count_succ [OF c(2)] show ?thesis by (auto simp: script_next_count intro!: exI [of _ p1] exI [of _ w])
  next
    case False
    then obtain x where x: "t1 = x # t'" "v = uint x" "n = m + 1" using assms(2) m by (auto simp: script_code_def split: list.splits)
    then have "rd table p1 = Inr x" "drop (Suc p1) table = t'" using drop_ConsD [of p1 table x t'] c(4) by simp_all
    with False r(1) c assms(3) x(2,3) count_succ [OF c(2)] show ?thesis
      by (auto simp: script_next_count intro!: exI [of _ "Suc p1"] exI [of _ w])
  qed
qed

lemma script_code_pos: "script_code b t = Some (n, v, t') \<Longrightarrow> 1 \<le> n"
proof -
  assume a: "script_code b t = Some (n, v, t')"
  then obtain m t1 where m: "count_code 96 112 (uint b mod 128) t = Some (m, t1)" "n = m + 1"
    by (auto simp: script_code_def split: option.splits if_splits list.splits)
  have "uint b mod 128 < 256" by (rule order_less_trans [of _ 128]) simp_all
  then have "0 \<le> m"
    using count_rd_code [of 0 t t 96 112 "ucast b AND 0x7f" m t1 4192] m by (auto simp: uint_ucast_and_7f)
  with m(2) show ?thesis by simp
qed

interpretation scripts: run_decoder script_code "\<lambda>table p. script_loop table p script_idx" "\<lambda>v. v = uint script_idx" for script_idx
proof (unfold_locales, goal_cases)
  case (1 b t n v t')
  then show ?case by (rule script_code_pos)
next
  case (2 table p c cr)
  then show ?case by (simp add: script_loop.simps)
next
  case (3 p table b t n v t' c cr)
  then obtain p' w u where s: "p < p'" "drop p' table = t'" "uint (w + 1) = n" "uint u = v" "script_next table p = Inr (p', w, u)"
    using script_code_step by blast
  have "p < length table" using drop_ConsD [OF 3(1)] by simp
  with s show ?case by (intro exI [of _ p'] exI [of _ "w + 1"]) (simp add: script_loop.simps [of table p] word_uint_eq_iff add.assoc cong: if_cong)
qed

lemma has_script_spec: "drop p table = vs @ t \<Longrightarrow> has_script table p script_idx (length vs) = Inr (script_idx \<in> ucast ` set vs)"
proof (induction vs arbitrary: p)
  case (Cons x vs)
  then have "rd table p = Inr x" "drop (p + 1) table = vs @ t" using drop_ConsD [of p table x "vs @ t"] by simp_all
  with Cons.IH show ?case by auto
qed simp

definition ext_selects :: "u32 \<Rightarrow> bool \<Rightarrow> u8 list \<Rightarrow> bool" where
  "ext_selects script_idx is_common vs = (if is_common then vs \<noteq> [] else script_idx \<in> ucast ` set vs)"

lemma ext_code_cases:
  assumes "ext_code b t = Some (n, vs, t')"
  obtains m l t1 where "count_code 128 192 (uint b) t = Some (m, l # t1)" "n = m + 1" "t1 = vs @ t'" "length vs = unat l"
  using assms by (auto simp: ext_code_def dest!: split_at_Some split: option.splits list.splits)

lemma count_rd_ext:
  assumes "drop p table = t" "count_code 128 192 (uint b) t = Some (m, t')"
  shows "\<exists>p' w. count_rd 128 192 16512 table p (ucast (b :: u8)) = Inr (p', w) \<and> uint w = m \<and> p \<le> p' \<and> drop p' table = t' \<and> 0 \<le> m"
proof -
  have a: "count_code (uint (128 :: u32)) (uint (192 :: u32)) (uint (ucast b :: u32)) t = Some (m, t')" using assms(2) by simp
  have b: "uint (ucast b :: u32) < 256" using uint_u8_bounds [of b] by simp
  have c: "uint (128 :: u32) \<le> uint (192 :: u32)" "uint (192 :: u32) < 256"
    "uint (16512 :: u32) = uint (128 :: u32) + (uint (192 :: u32) - uint (128 :: u32)) * 256" by simp_all
  show ?thesis by (rule count_rd_code [OF assms(1) a c b]) blast
qed

lemma ext_code_step:
  assumes "drop p table = b # t" "ext_code b t = Some (n, vs, t')" "n < 2 ^ 32"
  shows "\<exists>p' w. p < p' \<and> drop p' table = vs @ t' \<and> uint (w + 1) = n \<and> script_ext_next table p = Inr (p', w, length vs)"
proof -
  obtain m l t1 where m: "count_code 128 192 (uint b) t = Some (m, l # t1)" "n = m + 1" "t1 = vs @ t'" "length vs = unat l"
    using ext_code_cases [OF assms(2)] .
  have r: "rd table p = Inr b" "drop (p + 1) table = t" using drop_ConsD [OF assms(1)] by simp_all
  obtain p1 w where c: "count_rd 128 192 16512 table (p + 1) (ucast b) = Inr (p1, w)" "uint w = m" "p + 1 \<le> p1" "drop p1 table = l # t1"
    using count_rd_ext [OF r(2) m(1)] by blast
  then have "rd table p1 = Inr l" "drop (Suc p1) table = t1" using drop_ConsD [of p1 table l t1] by simp_all
  with c m r(1) assms(3) count_succ [OF c(2)] show ?thesis
    by (intro exI [of _ "Suc p1"] exI [of _ w]) (auto simp: script_ext_next_count)
qed

interpretation extensions: run_decoder ext_code "\<lambda>table p. script_ext_loop table p script_idx is_common" "ext_selects script_idx is_common"
  for script_idx is_common
proof (unfold_locales, goal_cases)
  case (1 b t n vs t')
  obtain m l t1 where m: "count_code 128 192 (uint b) t = Some (m, l # t1)" "n = m + 1" using ext_code_cases [OF 1] .
  have "0 \<le> m" using count_rd_ext [of 0 t t, OF _ m(1)] by auto
  with m(2) show ?case by simp
next
  case (2 table p c cr)
  then show ?case by (simp add: script_ext_loop.simps)
next
  case (3 p table b t n vs t' c cr)
  obtain p' w where s: "p < p'" "drop p' table = vs @ t'" "uint (w + 1) = n" "script_ext_next table p = Inr (p', w, length vs)"
    using ext_code_step [OF 3] by blast
  have "p < length table" using drop_ConsD [OF 3(1)] by simp
  moreover have "drop (p' + length vs) table = t'" using s(2) drop_drop [of "length vs" p' table] by (simp add: add.commute)
  moreover have "(if is_common then Inr (length vs \<noteq> 0) else has_script table p' script_idx (length vs)) = Inr (ext_selects script_idx is_common vs)"
    using has_script_spec [OF s(2)] by (simp add: ext_selects_def)
  ultimately show ?case
    using s by (intro exI [of _ "p' + length vs"] exI [of _ "w + 1"]) (simp add: script_ext_loop.simps [of table p] add.assoc cong: if_cong)
qed

end
