(* ===== verification/Script_Sets.thy ===== *)
theory Script_Sets
  imports Script_Decode Range_Canon
begin

text \<open>
  The sets of characters \<open>unicode_script\<close> computes. The two tables are evaluated part by part: every code is whole,
  and the runs end at U+10FFFF or before.
\<close>

section \<open>The real tables\<close>

lemma script_total_0: "script_total 0 (unicode_script_table_0 @ rest) = script_total 1611 rest"
  by code_simp

lemma script_total_1: "script_total 1611 (unicode_script_table_1 @ rest) = script_total 2613 rest"
  by code_simp

lemma script_total_2: "script_total 2613 (unicode_script_table_2 @ rest) = script_total 2971 rest"
  by code_simp

lemma script_total_3: "script_total 2971 (unicode_script_table_3 @ rest) = script_total 3428 rest"
  by code_simp

lemma script_total_4: "script_total 3428 (unicode_script_table_4 @ rest) = script_total 4682 (0x83 # rest)"
  by code_simp

lemma script_total_5: "script_total 4682 (0x83 # unicode_script_table_5 @ rest) = script_total 6460 rest"
  by code_simp

lemma script_total_6: "script_total 6460 (unicode_script_table_6 @ rest) = script_total 7615 (0x80 # rest)"
  by code_simp

lemma script_total_7: "script_total 7615 (0x80 # unicode_script_table_7 @ rest) = script_total 11264 rest"
  by code_simp

lemma script_total_8: "script_total 11264 (unicode_script_table_8 @ rest) = script_total 12800 rest"
  by code_simp

lemma script_total_9: "script_total 12800 (unicode_script_table_9 @ rest) = script_total 43739 (0x84 # rest)"
  by code_simp

lemma script_total_10: "script_total 43739 (0x84 # unicode_script_table_10 @ rest) = script_total 65277 rest"
  by code_simp

lemma script_total_11: "script_total 65277 (unicode_script_table_11 @ rest) = script_total 66688 rest"
  by code_simp

lemma script_total_12: "script_total 66688 (unicode_script_table_12 @ rest) = script_total 68108 rest"
  by code_simp

lemma script_total_13: "script_total 68108 (unicode_script_table_13 @ rest) = script_total 70007 rest"
  by code_simp

lemma script_total_14: "script_total 70007 (unicode_script_table_14 @ rest) = script_total 71740 rest"
  by code_simp

lemma script_total_15: "script_total 71740 (unicode_script_table_15 @ rest) = script_total 73648 rest"
  by code_simp

lemma script_total_16: "script_total 73648 (unicode_script_table_16 @ rest) = script_total 110589 rest"
  by code_simp

lemma script_total_17: "script_total 110589 (unicode_script_table_17 @ rest) = script_total 120005 rest"
  by code_simp

lemma script_total_18: "script_total 120005 (unicode_script_table_18 @ rest) = script_total 125274 rest"
  by code_simp

lemma script_total_19: "script_total 125274 (unicode_script_table_19 @ rest) = script_total 127169 rest"
  by code_simp

lemma script_total_20: "script_total 127169 (unicode_script_table_20 @ rest) = script_total 183984 rest"
  by code_simp

lemma script_total_21: "script_total 183984 (unicode_script_table_21 @ rest) = script_total 918000 rest"
  by code_simp

lemmas script_total_parts =
  script_total_0 script_total_1 script_total_2 script_total_3 script_total_4 script_total_5
  script_total_6 script_total_7 script_total_8 script_total_9 script_total_10 script_total_11
  script_total_12 script_total_13 script_total_14 script_total_15 script_total_16 script_total_17
  script_total_18 script_total_19 script_total_20 script_total_21

lemma unicode_script_table_total: "script_total 0 unicode_script_table = Some 918000"
  by (simp only: unicode_script_table_def concat.simps script_total_parts script_total.simps(1))

lemma ext_total_0: "ext_total 0 (unicode_script_ext_table_0 @ rest) = ext_total 2386 rest"
  by code_simp

lemma ext_total_1: "ext_total 2386 (unicode_script_ext_table_1 @ rest) = ext_total 6146 (0x1 # rest)"
  by code_simp

lemma ext_total_2: "ext_total 6146 (0x1 # unicode_script_ext_table_2 @ rest) = ext_total 7418 (0x0 # rest)"
  by code_simp

lemma ext_total_3: "ext_total 7418 (0x0 # unicode_script_ext_table_3 @ rest) = ext_total 12348 rest"
  by code_simp

lemma ext_total_4: "ext_total 12348 (unicode_script_ext_table_4 @ rest) = ext_total 43059 (0x2 # 0xd # 0x20 # 0x22 # 0x2d # 0x2f # 0x43 # 0x3d # 0x3c # 0x50 # 0x5c # 0x63 # 0x45 # 0x91 # rest)"
  by code_simp

lemma ext_total_5: "ext_total 43059 (0x2 # 0xd # 0x20 # 0x22 # 0x2d # 0x2f # 0x43 # 0x3d # 0x3c # 0x50 # 0x5c # 0x63 # 0x45 # 0x91 # unicode_script_ext_table_5 @ rest) = ext_total 66300 (0x87 # 0x75 # rest)"
  by code_simp

lemma ext_total_6: "ext_total 66300 (0x87 # 0x75 # unicode_script_ext_table_6 @ rest) = ext_total 1114112 rest"
  by code_simp

lemmas ext_total_parts =
  ext_total_0 ext_total_1 ext_total_2 ext_total_3 ext_total_4 ext_total_5 ext_total_6

lemma unicode_script_ext_table_total: "ext_total 0 unicode_script_ext_table = Some 1114112"
  by (simp only: unicode_script_ext_table_def concat.simps ext_total_parts ext_total.simps(1))

lemma script_tables:
  "decodes script_code unicode_script_table (script_runs unicode_script_table)"
  "sum_list (map fst (script_runs unicode_script_table)) < 2 ^ 32"
  "decodes ext_code unicode_script_ext_table (ext_runs unicode_script_ext_table)"
  "sum_list (map fst (ext_runs unicode_script_ext_table)) < 2 ^ 32"
  using script_total_runs [OF unicode_script_table_total] ext_total_runs [OF unicode_script_ext_table_total] by simp_all

section \<open>The sets\<close>

definition script_of :: "u32 \<Rightarrow> int option" where
  "script_of c = run_value (uint c) 0 (script_runs unicode_script_table)"

definition script_exts :: "u32 \<Rightarrow> int set" where
  "script_exts c = (case run_value (uint c) 0 (ext_runs unicode_script_ext_table) of Some vs \<Rightarrow> uint ` set vs | None \<Rightarrow> {})"

text \<open>
  The characters of a script; with extensions also those that list it, and without those that list any script
  for the two scripts that stand for no script in particular.
\<close>

definition script_set :: "nat \<Rightarrow> bool \<Rightarrow> u32 set" where
  "script_set idx is_ext =
     (if \<not> is_ext then {c. script_of c = Some (int idx)}
      else if idx = UNICODE_SCRIPT_Common \<or> idx = UNICODE_SCRIPT_Inherited then {c. script_of c = Some (int idx) \<and> script_exts c = {}}
      else {c. script_of c = Some (int idx) \<or> int idx \<in> script_exts c})"

lemma script_loop_denotes:
  assumes "cr_inv cr" "cr_len cr = 0" "idx < 2 ^ 16"
  shows "cr_denotes {c. script_of c = Some (int idx)} (script_loop unicode_script_table 0 (of_nat idx) 0 cr)"
proof -
  have "uint (of_nat idx :: u32) = int idx" using assms(3) by (simp add: unsigned_of_nat take_bit_nat_eq_self)
  then show ?thesis
    using scripts.loop_denotes [OF script_tables(1,2) assms(1,2), of "of_nat idx"] by (simp add: script_of_def)
qed

lemma script_ext_loop_denotes:
  assumes "cr_inv cr" "cr_len cr = 0" "idx < 2 ^ 16"
  shows "cr_denotes {c. if is_common then script_exts c \<noteq> {} else int idx \<in> script_exts c}
    (script_ext_loop unicode_script_ext_table 0 (of_nat idx) is_common 0 cr)"
proof -
  have idx: "uint (of_nat idx :: u32) = int idx" using assms(3) by (simp add: unsigned_of_nat take_bit_nat_eq_self)
  have "of_nat idx \<in> (ucast :: u8 \<Rightarrow> u32) ` set vs \<longleftrightarrow> int idx \<in> uint ` set vs" for vs
    by (auto simp: word_uint_eq_iff idx image_iff)
  then have "{c. \<exists>vs. run_value (uint c) 0 (ext_runs unicode_script_ext_table) = Some vs \<and> ext_selects (of_nat idx) is_common vs} =
      {c. if is_common then script_exts c \<noteq> {} else int idx \<in> script_exts c}"
    by (auto simp: script_exts_def ext_selects_def split: option.splits)
  then show ?thesis
    using extensions.loop_denotes [OF script_tables(3,4) assms(1,2), of "of_nat idx" is_common] by simp
qed

text \<open>The result of a sequence of steps each of which ends in the label \<open>fail\<close> when it does not return 0.\<close>

definition script_yields :: "u32 set \<Rightarrow> (char_range \<times> int) cres \<Rightarrow> bool" where
  "script_yields S m \<longleftrightarrow> m = Inl OutOfFuel \<or> (\<exists>cr. m = Inr (cr, 0) \<and> cr_sorted cr \<and> cr_set (cr_contents cr) = S)"

lemma script_yields_bind:
  assumes "cr_denotes A m" "\<And>x. cr_sorted x \<Longrightarrow> cr_set (cr_contents x) = A \<Longrightarrow> script_yields S (f x)"
  shows "script_yields S (cbind m (\<lambda>(x, r). if r \<noteq> 0 then script_fail else f x))"
proof -
  obtain x r where "m = Inr (x, r)" "r = 0 \<and> cr_sorted x \<and> cr_set (cr_contents x) = A \<or> r = -1"
    using assms(1) unfolding cr_denotes_def by blast
  then show ?thesis using assms(2) by (auto simp: script_yields_def)
qed

lemma script_yields_done: "cr_sorted x \<Longrightarrow> cr_set (cr_contents x) = A \<Longrightarrow> script_yields A (Inr (x, 0))"
  by (simp add: script_yields_def)

lemma unicode_script_yields:
  assumes "cr_inv cr" "cr_len cr = 0" "name_index unicode_script_name_table_entries name 0 = int i"
    "i < length unicode_script_name_table_entries"
  shows "script_yields (script_set (i + 1) is_ext) (unicode_script cr name is_ext)"
proof -
  define idx where "idx = i + 1"
  define common where "common \<longleftrightarrow> idx = UNICODE_SCRIPT_Common \<or> idx = UNICODE_SCRIPT_Inherited"
  define fresh where "fresh = cr_init 0 (Some (cr_realloc_func cr))"
  have "length unicode_script_name_table_entries \<le> 1000" by (simp add: unicode_script_name_table_entries_def)
  then have idx: "idx < 2 ^ 16" using assms(4) by (simp add: idx_def)
  have fresh: "cr_inv fresh" "cr_len fresh = 0"
    using assms(1) cr_init_inv [of "Some (cr_realloc_func cr)" 0] by (auto simp: fresh_def cr_init_def cr_inv_def)
  have find: "unicode_find_name unicode_script_name_table name = Inr (int i)" by (simp add: unicode_find_name_index assms(3))
  note loop = script_loop_denotes [OF _ _ idx] and ext = script_ext_loop_denotes [OF fresh idx, of common]
  let ?S = "{c. script_of c = Some (int idx)}" and ?E = "{c. if common then script_exts c \<noteq> {} else int idx \<in> script_exts c}"
  have eq: "unicode_script cr name is_ext =
     cbind (script_loop unicode_script_table 0 (of_nat idx) 0 (if is_ext then fresh else cr)) (\<lambda>(cr1, r).
       if r \<noteq> 0 then script_fail
       else if is_ext then
         cbind (script_ext_loop unicode_script_ext_table 0 (of_nat idx) common 0 fresh) (\<lambda>(cr2, r).
         if r \<noteq> 0 then script_fail
         else if common then
           cbind (cr_invert cr2) (\<lambda>(cr2, r).
           if r \<noteq> 0 then script_fail
           else
             cbind (cr_op cr (cr_points cr1) (cr_len cr1) (cr_points cr2) (cr_len cr2) CR_OP_INTER) (\<lambda>(cr, r).
             if r \<noteq> 0 then script_fail else Inr (cr, 0)))
         else
           cbind (cr_op cr (cr_points cr1) (cr_len cr1) (cr_points cr2) (cr_len cr2) CR_OP_UNION) (\<lambda>(cr, r).
           if r \<noteq> 0 then script_fail else Inr (cr, 0)))
       else Inr (cr1, 0))"
  proof -
    have "\<not> int i < 0" "nat (int i) + UNICODE_SCRIPT_Unknown + 1 = i + 1" by simp_all
    then show ?thesis unfolding unicode_script_def find cbind.simps(2) Let_def fresh_def common_def idx_def by (simp only: if_False)
  qed
  have final: "script_yields (op_set op A B) (cbind (cr_op cr (cr_points a) (cr_len a) (cr_points b) (cr_len b) op) (\<lambda>(cr, r).
      if r \<noteq> 0 then script_fail else Inr (cr, 0)))"
    if "cr_sorted a" "cr_set (cr_contents a) = A" "cr_sorted b" "cr_set (cr_contents b) = B" for a b A B op
    by (rule script_yields_bind [OF cr_yields_denotes [OF cr_op_denotes [OF assms(1,2) that(1,3)]]])
      (use that in \<open>simp add: script_yields_def\<close>)
  have inverted: "cr_denotes (- A - {0xFFFFFFFF}) (cr_invert b)" if "cr_sorted b" "cr_set (cr_contents b) = A" for b A
    using cr_invert_yields [of b] that by (intro cr_yields_denotes) (auto simp: cr_sorted_def)
  show ?thesis
  proof (cases is_ext)
    case False
    have "script_yields ?S (cbind (script_loop unicode_script_table 0 (of_nat idx) 0 cr) (\<lambda>(cr1, r). if r \<noteq> 0 then script_fail else Inr (cr1, 0)))"
      by (rule script_yields_bind [OF loop [OF assms(1,2)]]) (rule script_yields_done)
    then show ?thesis unfolding eq if_not_P [OF False] using False by (simp add: script_set_def idx_def)
  next
    case True
    have "script_yields (script_set idx True) (cbind (script_loop unicode_script_table 0 (of_nat idx) 0 fresh) (\<lambda>(cr1, r).
       if r \<noteq> 0 then script_fail
       else
         cbind (script_ext_loop unicode_script_ext_table 0 (of_nat idx) common 0 fresh) (\<lambda>(cr2, r).
         if r \<noteq> 0 then script_fail
         else if common then
           cbind (cr_invert cr2) (\<lambda>(cr2, r).
           if r \<noteq> 0 then script_fail
           else
             cbind (cr_op cr (cr_points cr1) (cr_len cr1) (cr_points cr2) (cr_len cr2) CR_OP_INTER) (\<lambda>(cr, r).
             if r \<noteq> 0 then script_fail else Inr (cr, 0)))
         else
           cbind (cr_op cr (cr_points cr1) (cr_len cr1) (cr_points cr2) (cr_len cr2) CR_OP_UNION) (\<lambda>(cr, r).
           if r \<noteq> 0 then script_fail else Inr (cr, 0)))))"
    proof (rule script_yields_bind [OF loop [OF fresh]], rule script_yields_bind [OF ext], goal_cases)
      case (1 a b)
      show ?case
      proof (cases common)
        case True
        have "0xFFFFFFFF \<notin> ?S" using cr_set_not_max [of "cr_contents a"] 1(1,2) by (auto simp: cr_sorted_def)
        then have "script_set idx True = op_set CR_OP_INTER ?S (- ?E - {0xFFFFFFFF})"
          using True by (auto simp: script_set_def common_def op_set_def)
        with True 1 inverted [OF 1(3,4)] show ?thesis by (auto intro!: script_yields_bind [OF inverted] final)
      next
        case False
        then have "script_set idx True = op_set CR_OP_UNION ?S ?E" by (auto simp: script_set_def common_def op_set_def)
        with False final [OF 1] show ?thesis by simp
      qed
    qed
    then show ?thesis unfolding eq if_P [OF True] using True by (simp add: idx_def)
  qed
qed

section \<open>Properties\<close>


lemma latin_index: "name_index unicode_script_name_table_entries ''Latin'' 0 = 70"
  by (simp add: unicode_script_name_table_entries_def names_of.simps Let_def)


lemma cr_add_interval_refused:
  "cr_add_interval (cr_init 0 None) a b = Inr (cr_init 0 None, -1)"
  by (simp add: cr_add_interval_def cr_realloc_def cr_init_def cr_default_realloc_def Let_def)

lemma script_loop_refused: "script_loop unicode_script_table 0 71 0 (cr_init 0 None) = Inr (cr_init 0 None, -1)"
proof -
  have r: "rd unicode_script_table 0 = Inr 0xc0" "rd unicode_script_table 1 = Inr 0x19" "rd unicode_script_table 2 = Inr 0x99"
    "rd unicode_script_table 3 = Inr 0x47" "2 < length unicode_script_table"
    by (simp_all add: unicode_script_table_def unicode_script_table_0_def rd_def)
  have "script_next unicode_script_table 0 = Inr (2, 0x40, 0x19)" "script_next unicode_script_table 2 = Inr (4, 0x19, 0x47)"
    by (simp_all add: script_next_count count_rd_def r r(2) [unfolded One_nat_def] numeral_2_eq_2 [symmetric])
  moreover have "unicode_script_table \<noteq> []" using r(5) by auto
  ultimately show ?thesis
    using r(5) by (simp add: script_loop.simps [of _ 0] script_loop.simps [of _ 2] cr_add_interval_refused)
qed


end
