(* ===== verification/Utf8.thy ===== *)
theory Utf8
  imports Cutils_Bits
begin

text \<open>
  The UTF-8 codec of \<^verbatim>\<open>cutils.c\<close>. \<open>unicode_to_utf8\<close> returns the bytes it stores (their
  number is the C return value, so the empty list is the return value 0);
  \<open>unicode_from_utf8\<close> returns the code point and the number of bytes it consumed, or
  \<open>(-1, 0)\<close>, since the code leaves \<open>*pp\<close> alone on an error. The facts below are stated on
  the numbers the bytes stand for; both directions of the round trip follow.
\<close>

section \<open>Definitions\<close>

definition UTF8_CHAR_LEN_MAX :: int where
  "UTF8_CHAR_LEN_MAX = 6"

definition unicode_to_utf8 :: "u32 \<Rightarrow> u8 list" where
  "unicode_to_utf8 c =
     (if c < 0x80 then [ucast c]
      else if \<not> c < 0x80000000 then []
      else
        (if c < 0x800 then [ucast (drop_bit 6 c OR 0xc0)]
         else
           (if c < 0x10000 then [ucast (drop_bit 12 c OR 0xe0)]
            else
              (if c < 0x00200000 then [ucast (drop_bit 18 c OR 0xf0)]
               else
                 (if c < 0x04000000 then [ucast (drop_bit 24 c OR 0xf8)]
                  else [ucast (drop_bit 30 c OR 0xfc), ucast ((drop_bit 24 c AND 0x3f) OR 0x80)])
                 @ [ucast ((drop_bit 18 c AND 0x3f) OR 0x80)])
              @ [ucast ((drop_bit 12 c AND 0x3f) OR 0x80)])
           @ [ucast ((drop_bit 6 c AND 0x3f) OR 0x80)])
        @ [ucast ((c AND 0x3f) OR 0x80)])"

definition utf8_min_code :: "int list" where
  "utf8_min_code = [0x80, 0x800, 0x10000, 0x00200000, 0x04000000]"

definition utf8_first_code_mask :: "int list" where
  "utf8_first_code_mask = [0x1f, 0xf, 0x7, 0x3, 0x1]"

text \<open>The \<open>switch\<close> on the first byte: the number of continuation bytes.\<close>

definition utf8_switch :: "int \<Rightarrow> nat option" where
  "utf8_switch c =
     (if 0xc0 \<le> c \<and> c \<le> 0xdf then Some 1
      else if 0xe0 \<le> c \<and> c \<le> 0xef then Some 2
      else if 0xf0 \<le> c \<and> c \<le> 0xf7 then Some 3
      else if 0xf8 \<le> c \<and> c \<le> 0xfb then Some 4
      else if 0xfc \<le> c \<and> c \<le> 0xfd then Some 5
      else None)"

text \<open>The loop over the continuation bytes; \<open>None\<close> is the return of -1 inside it.\<close>

fun utf8_cont :: "u8 list \<Rightarrow> nat \<Rightarrow> int \<Rightarrow> int option cres" where
  "utf8_cont p 0 c = Inr (Some c)"
| "utf8_cont [] (Suc l) c = Inl OutOfBounds"
| "utf8_cont (b # p) (Suc l) c =
     (if uint b < 0x80 \<or> uint b \<ge> 0xc0 then Inr None
      else utf8_cont p l (push_bit 6 c OR (uint b AND 0x3f)))"

definition unicode_from_utf8 :: "u8 list \<Rightarrow> int \<Rightarrow> (int \<times> nat) cres" where
  "unicode_from_utf8 p max_len =
     cbind (rd p 0) (\<lambda>b.
       let c = uint b in
       if c < 0x80 then Inr (c, 1)
       else case utf8_switch c of
         None \<Rightarrow> Inr (-1, 0)
       | Some l \<Rightarrow>
           if int l > max_len - 1 then Inr (-1, 0)
           else
             cbind (utf8_cont (drop 1 p) l (c AND (utf8_first_code_mask ! (l - 1)))) (\<lambda>r.
               case r of
                 None \<Rightarrow> Inr (-1, 0)
               | Some c' \<Rightarrow>
                   if c' < utf8_min_code ! (l - 1) then Inr (-1, 0)
                   else Inr (c', Suc l)))"

section \<open>The numbers behind the bytes\<close>

text \<open>The code point as a number split into a leading part and base-64 digits.\<close>

fun utf8_value :: "int \<Rightarrow> u8 list \<Rightarrow> int" where
  "utf8_value c [] = c"
| "utf8_value c (b # bs) = utf8_value (64 * c + (uint b - 128)) bs"

lemma int_or_disjoint:
  fixes a b :: int
  assumes "0 \<le> a" "a < 2 ^ n"
  shows "push_bit n b OR a = 2 ^ n * b + a"
proof -
  have "a = take_bit n a" using assms by (simp add: take_bit_int_eq_self)
  moreover have "push_bit n b AND take_bit n a = 0"
    by (auto simp: bit_eq_iff bit_simps)
  ultimately have "push_bit n b AND a = 0" by simp
  then show ?thesis
    by (simp add: disjunctive_add_eq_or [symmetric] push_bit_eq_mult)
qed

lemma utf8_cont_ok:
  "utf8_cont p l c = Inr (Some v) \<longleftrightarrow>
     l \<le> length p \<and> (\<forall>b \<in> set (take l p). 0x80 \<le> uint b \<and> uint b < 0xc0) \<and>
     v = utf8_value c (take l p)"
proof (induction p l c rule: utf8_cont.induct)
  case (3 b p l c)
  have "0x80 \<le> uint b \<Longrightarrow> uint b < 0xc0 \<Longrightarrow> push_bit 6 c OR (uint b AND 0x3f) = 64 * c + (uint b - 128)"
  proof -
    assume b: "0x80 \<le> uint b" "uint b < 0xc0"
    have "uint b AND 0x3f = uint b mod 64"
      using take_bit_eq_mask [of 6 "uint b"] by (simp add: mask_eq_exp_minus_1 take_bit_eq_mod)
    then have "uint b AND 0x3f = uint b - 128" using b by presburger
    then show ?thesis using b int_or_disjoint [of "uint b - 128" 6 c] by simp
  qed
  then show ?case using 3 by auto
qed auto

text \<open>
  The encoding as numbers: the header of the class of \<open>l\<close> continuation bytes plus the
  leading part, then \<open>l\<close> base-64 digits, each offset by \<open>0x80\<close>.
\<close>

fun digits64 :: "nat \<Rightarrow> int \<Rightarrow> int list" where
  "digits64 0 n = []"
| "digits64 (Suc l) n = digits64 l (n div 64) @ [0x80 + n mod 64]"

definition utf8_class :: "int \<Rightarrow> nat" where
  "utf8_class n =
     (if n < 0x80 then 0 else if n < 0x800 then 1 else if n < 0x10000 then 2
      else if n < 0x200000 then 3 else if n < 0x4000000 then 4 else 5)"

definition utf8_header :: "int list" where
  "utf8_header = [0, 0xc0, 0xe0, 0xf0, 0xf8, 0xfc]"

definition utf8_enc :: "int \<Rightarrow> int list" where
  "utf8_enc n = (let l = utf8_class n in (utf8_header ! l + n div 64 ^ l) # digits64 l n)"

lemma length_digits64 [simp]: "length (digits64 l n) = l"
  by (induction l n rule: digits64.induct) auto

lemma digits64_range: "b \<in> set (digits64 l n) \<Longrightarrow> 0x80 \<le> b \<and> b < 0xc0"
  by (induction l n rule: digits64.induct) auto

lemma utf8_value_snoc [simp]: "utf8_value c (bs @ [b]) = 64 * utf8_value c bs + (uint b - 128)"
  by (induction c bs rule: utf8_value.induct) auto

lemma uint_u8_word_of_int: "0 \<le> n \<Longrightarrow> n < 256 \<Longrightarrow> uint (word_of_int n :: u8) = n"
  by (simp add: uint_word_of_int)

lemma digit64_split:
  fixes x d :: int
  shows "0 \<le> d \<Longrightarrow> d < 64 \<Longrightarrow> (64 * x + d) div 64 = x \<and> (64 * x + d) mod 64 = d"
  using div_mult_self1 [of 64 d x] mod_mult_self1 [of d x 64] by (simp add: ac_simps)

lemma utf8_value_digits:
  "utf8_value (n div 64 ^ l) (map word_of_int (digits64 l n)) = n"
proof (induction l n rule: digits64.induct)
  case (2 l n)
  have "n div 64 ^ Suc l = n div 64 div 64 ^ l" by (simp add: zdiv_zmult2_eq)
  moreover have "uint (word_of_int (0x80 + n mod 64) :: u8) = 0x80 + n mod 64"
    using pos_mod_bound [of 64 n] pos_mod_sign [of 64 n] by (intro uint_u8_word_of_int) linarith+
  ultimately show ?case using "2.IH" by (simp del: of_int_add)
qed simp

lemma digits64_value:
  assumes "\<forall>b \<in> set bs. 0x80 \<le> uint b \<and> uint b < 0xc0"
  shows "digits64 (length bs) (utf8_value c bs) = map uint bs \<and> utf8_value c bs div 64 ^ length bs = c"
  using assms
proof (induction bs rule: rev_induct)
  case (snoc b bs)
  then have b: "0 \<le> uint b - 128" "uint b - 128 < 64" by auto
  have v: "(64 * utf8_value c bs + (uint b - 128)) div 64 = utf8_value c bs"
    "(64 * utf8_value c bs + (uint b - 128)) mod 64 = uint b - 128"
    using digit64_split [OF b] by auto
  have "utf8_value c (bs @ [b]) div 64 ^ length (bs @ [b]) = utf8_value c bs div 64 ^ length bs"
    using v(1) by (simp add: zdiv_zmult2_eq del: power_Suc add: power_Suc)
  with snoc v show ?case by simp
qed simp

section \<open>The encoder computes the numbers\<close>

lemma and_disjoint:
  fixes x y :: "'a::len word"
  assumes "uint x < 2 ^ n" and "take_bit n y = 0"
  shows "x AND y = 0"
proof -
  have "take_bit n x = x" using assms(1) by (simp add: word_uint_eq_iff unsigned_take_bit_eq take_bit_int_eq_self)
  then have "x AND y = take_bit n x AND y" by simp
  also have "\<dots> = x AND take_bit n y" by (simp add: bit_eq_iff bit_simps) blast
  finally show ?thesis using assms(2) by simp
qed

lemma word8_of_int_mod32: "(word_of_int (k mod 2 ^ LENGTH(32)) :: u8) = word_of_int k"
  unfolding word_of_int_eq_iff take_bit_eq_mod by (simp add: mod_mod_cancel)

lemma ucast_or_plus:
  fixes x y :: u32
  assumes "x AND y = 0"
  shows "ucast (x OR y) = (word_of_int (uint x + uint y) :: u8)"
proof -
  have "x OR y = x + y" using assms by (simp add: disjunctive_add_eq_or)
  then show ?thesis unfolding ucast_eq by (simp only: uint_word_ariths word8_of_int_mod32)
qed

lemma utf8_cont_byte: "ucast ((drop_bit k (c :: u32) AND 0x3f) OR 0x80) = (word_of_int (0x80 + uint c div 2 ^ k mod 64) :: u8)"
proof -
  have m: "drop_bit k c AND 0x3f = take_bit 6 (drop_bit k c)" by (simp add: take_bit_eq_mask mask_eq_exp_minus_1)
  have "uint (take_bit 6 (drop_bit k c)) = uint c div 2 ^ k mod 64"
    by (simp add: uint_shr uint_low_bits)
  moreover have "take_bit 6 (drop_bit k c) AND 0x80 = 0"
    by (simp add: take_bit_eq_mask mask_eq_exp_minus_1 and.assoc)
  moreover have "uint (0x80 :: u32) = 0x80" by simp
  ultimately show ?thesis unfolding m by (simp only: ucast_or_plus add.commute)
qed

lemma div_mult_le_pow: "n div 2 ^ k * 2 ^ k \<le> (n :: int)"
proof -
  have "0 \<le> n mod 2 ^ k" by simp
  then show ?thesis using div_mult_mod_eq [of n "2 ^ k"] by linarith
qed

lemma utf8_lead_byte:
  fixes c :: u32
  assumes "uint c < 2 ^ h * 2 ^ k" and "take_bit h H = 0"
  shows "ucast (drop_bit k c OR H) = (word_of_int (uint H + uint c div 2 ^ k) :: u8)"
proof -
  have u: "uint (drop_bit k c) = uint c div 2 ^ k" by (rule uint_shr)
  have "uint (drop_bit k c) < 2 ^ h"
  proof (rule ccontr)
    assume "\<not> uint (drop_bit k c) < 2 ^ h"
    then have "2 ^ h * 2 ^ k \<le> uint c div 2 ^ k * 2 ^ k" unfolding u by (intro mult_right_mono) auto
    then show False using assms(1) div_mult_le_pow [of "uint c" k] by linarith
  qed
  then have "drop_bit k c AND H = 0" using assms(2) by (rule and_disjoint)
  then show ?thesis by (simp only: ucast_or_plus u add.commute)
qed

lemma utf8_enc_cases:
  "n < 0x80 \<Longrightarrow> utf8_enc n = [n]"
  "0x80 \<le> n \<Longrightarrow> n < 0x800 \<Longrightarrow> utf8_enc n = [0xc0 + n div 2 ^ 6, 0x80 + n mod 64]"
  "0x800 \<le> n \<Longrightarrow> n < 0x10000 \<Longrightarrow>
     utf8_enc n = [0xe0 + n div 2 ^ 12, 0x80 + n div 2 ^ 6 mod 64, 0x80 + n mod 64]"
  "0x10000 \<le> n \<Longrightarrow> n < 0x200000 \<Longrightarrow>
     utf8_enc n = [0xf0 + n div 2 ^ 18, 0x80 + n div 2 ^ 12 mod 64, 0x80 + n div 2 ^ 6 mod 64, 0x80 + n mod 64]"
  "0x200000 \<le> n \<Longrightarrow> n < 0x4000000 \<Longrightarrow>
     utf8_enc n = [0xf8 + n div 2 ^ 24, 0x80 + n div 2 ^ 18 mod 64, 0x80 + n div 2 ^ 12 mod 64,
       0x80 + n div 2 ^ 6 mod 64, 0x80 + n mod 64]"
  "0x4000000 \<le> n \<Longrightarrow>
     utf8_enc n = [0xfc + n div 2 ^ 30, 0x80 + n div 2 ^ 24 mod 64, 0x80 + n div 2 ^ 18 mod 64,
       0x80 + n div 2 ^ 12 mod 64, 0x80 + n div 2 ^ 6 mod 64, 0x80 + n mod 64]"
proof -
  have d: "n div 64 div 64 = n div 4096" "n div 4096 div 64 = n div 262144"
    "n div 262144 div 64 = n div 16777216" "n div 16777216 div 64 = n div 1073741824"
    by (simp_all flip: zdiv_zmult2_eq)
  have g: "digits64 (Suc 0) n = [0x80 + n mod 64]" for n by simp
  have s: "(2::nat) = Suc (Suc 0)" "(3::nat) = Suc (Suc (Suc 0))" "(4::nat) = Suc (Suc (Suc (Suc 0)))"
     "(5::nat) = Suc (Suc (Suc (Suc (Suc 0))))" by simp_all
  note defs = utf8_enc_def utf8_class_def utf8_header_def Let_def
  show "n < 0x80 \<Longrightarrow> utf8_enc n = [n]" by (simp add: defs)
  show "0x80 \<le> n \<Longrightarrow> n < 0x800 \<Longrightarrow> utf8_enc n = [0xc0 + n div 2 ^ 6, 0x80 + n mod 64]"
    by (simp add: defs)
  have "digits64 2 n = [0x80 + n div 64 mod 64, 0x80 + n mod 64]" unfolding s by simp
  then show "0x800 \<le> n \<Longrightarrow> n < 0x10000 \<Longrightarrow>
     utf8_enc n = [0xe0 + n div 2 ^ 12, 0x80 + n div 2 ^ 6 mod 64, 0x80 + n mod 64]"
    by (simp add: defs)
  have "digits64 3 n = [0x80 + n div 4096 mod 64, 0x80 + n div 64 mod 64, 0x80 + n mod 64]" unfolding s by (simp add: d)
  then show "0x10000 \<le> n \<Longrightarrow> n < 0x200000 \<Longrightarrow>
     utf8_enc n = [0xf0 + n div 2 ^ 18, 0x80 + n div 2 ^ 12 mod 64, 0x80 + n div 2 ^ 6 mod 64, 0x80 + n mod 64]"
    by (simp add: defs)
  have "digits64 4 n = [0x80 + n div 262144 mod 64, 0x80 + n div 4096 mod 64, 0x80 + n div 64 mod 64, 0x80 + n mod 64]"
    unfolding s by (simp add: d)
  then show "0x200000 \<le> n \<Longrightarrow> n < 0x4000000 \<Longrightarrow>
     utf8_enc n = [0xf8 + n div 2 ^ 24, 0x80 + n div 2 ^ 18 mod 64, 0x80 + n div 2 ^ 12 mod 64,
       0x80 + n div 2 ^ 6 mod 64, 0x80 + n mod 64]"
    by (simp add: defs)
  have "digits64 5 n = [0x80 + n div 16777216 mod 64, 0x80 + n div 262144 mod 64, 0x80 + n div 4096 mod 64,
      0x80 + n div 64 mod 64, 0x80 + n mod 64]"
    unfolding s by (simp add: d)
  then show "0x4000000 \<le> n \<Longrightarrow>
     utf8_enc n = [0xfc + n div 2 ^ 30, 0x80 + n div 2 ^ 24 mod 64, 0x80 + n div 2 ^ 18 mod 64,
       0x80 + n div 2 ^ 12 mod 64, 0x80 + n div 2 ^ 6 mod 64, 0x80 + n mod 64]"
    by (simp add: defs)
qed

lemma unicode_to_utf8_enc:
  assumes "c < 0x80000000"
  shows "unicode_to_utf8 c = map word_of_int (utf8_enc (uint c))"
proof -
  define n where "n = uint c"
  have c: "0 \<le> n" "n < 0x80000000" using assms by (simp_all add: word_less_def n_def)
  have lt: "c < 0x80 \<longleftrightarrow> n < 0x80" "c < 0x800 \<longleftrightarrow> n < 0x800" "c < 0x10000 \<longleftrightarrow> n < 0x10000"
    "c < 0x200000 \<longleftrightarrow> n < 0x200000" "c < 0x4000000 \<longleftrightarrow> n < 0x4000000" "c < 0x80000000 \<longleftrightarrow> n < 0x80000000"
    by (simp_all add: word_less_def n_def)
  note lead = utf8_lead_byte [where c = c, folded n_def]
  note cont = utf8_cont_byte [where c = c, folded n_def]
  have d0: "ucast ((c AND 0x3f) OR 0x80) = (word_of_int (0x80 + n mod 64) :: u8)"
    using cont [of 0] by simp
  note defs = unicode_to_utf8_def lt d0 cont
  consider "n < 0x80" | "0x80 \<le> n" "n < 0x800" | "0x800 \<le> n" "n < 0x10000"
    | "0x10000 \<le> n" "n < 0x200000" | "0x200000 \<le> n" "n < 0x4000000" | "0x4000000 \<le> n"
    by linarith
  then have "unicode_to_utf8 c = map word_of_int (utf8_enc n)"
  proof cases
    case 1
    then show ?thesis by (simp add: defs utf8_enc_cases n_def)
  next
    case 2
    then show ?thesis using c lead [of 5 6 "0xc0"] by (simp add: defs utf8_enc_cases del: of_int_add)
  next
    case 3
    then show ?thesis using c lead [of 4 12 "0xe0"] by (simp add: defs utf8_enc_cases del: of_int_add)
  next
    case 4
    then show ?thesis using c lead [of 3 18 "0xf0"] by (simp add: defs utf8_enc_cases del: of_int_add)
  next
    case 5
    then show ?thesis using c lead [of 2 24 "0xf8"] by (simp add: defs utf8_enc_cases del: of_int_add)
  next
    case 6
    then show ?thesis using c lead [of 1 30 "0xfc"] by (simp add: defs utf8_enc_cases del: of_int_add)
  qed
  then show ?thesis by (simp add: n_def)
qed

lemma int_and_mask: "k AND (2 ^ h - 1) = (k :: int) mod 2 ^ h"
  by (simp add: take_bit_eq_mod flip: take_bit_eq_mask mask_eq_exp_minus_1)

lemma lead_and_mask:
  fixes x :: int
  assumes "0 \<le> x" "x < 2 ^ h" "H = 2 ^ h * q"
  shows "(H + x) AND (2 ^ h - 1) = x"
  using assms by (simp add: int_and_mask)

lemma utf8_class_facts:
  assumes "0x80 \<le> n" "n < 0x80000000" and l: "l = utf8_class n" and x: "x = n div 64 ^ l"
  shows "utf8_switch (utf8_header ! l + x) = Some l \<and>
    (utf8_header ! l + x) AND (utf8_first_code_mask ! (l - 1)) = x \<and>
    utf8_min_code ! (l - 1) \<le> n \<and> 0x80 \<le> utf8_header ! l + x \<and> utf8_header ! l + x < 0x100 \<and> 0 < l"
proof -
  note defs = utf8_class_def utf8_header_def utf8_first_code_mask_def utf8_min_code_def utf8_switch_def
  consider "n < 0x800" | "0x800 \<le> n" "n < 0x10000"
    | "0x10000 \<le> n" "n < 0x200000" | "0x200000 \<le> n" "n < 0x4000000" | "0x4000000 \<le> n"
    by linarith
  then show ?thesis
  proof cases
    case 1
    then have "l = 1" using l assms(1) by (simp add: defs)
    moreover then have "2 \<le> x" "x < 32" using assms(1) 1 x by auto
    ultimately show ?thesis using assms(1,2) 1 lead_and_mask [of x 5 "0xc0" 6] by (simp add: defs)
  next
    case 2
    then have "l = 2" using l assms(1) by (simp add: defs)
    moreover then have "0 \<le> x" "x < 16" using assms(1) 2 x by auto
    ultimately show ?thesis using assms(1,2) 2 lead_and_mask [of x 4 "0xe0" 14] by (simp add: defs)
  next
    case 3
    then have "l = 3" using l assms(1) by (simp add: defs)
    moreover then have "0 \<le> x" "x < 8" using assms(1) 3 x by auto
    ultimately show ?thesis using assms(1,2) 3 lead_and_mask [of x 3 "0xf0" 30] by (simp add: defs)
  next
    case 4
    then have "l = 4" using l assms(1) by (simp add: defs)
    moreover then have "0 \<le> x" "x < 4" using assms(1) 4 x by auto
    ultimately show ?thesis using assms(1,2) 4 lead_and_mask [of x 2 "0xf8" 62] by (simp add: defs)
  next
    case 5
    then have "l = 5" using l assms(1) by (simp add: defs)
    moreover then have "0 \<le> x" "x < 2" using assms(1,2) 5 x by auto
    ultimately show ?thesis using assms(1,2) 5 lead_and_mask [of x 1 "0xfc" 126] by (simp add: defs)
  qed
qed

lemma utf8_switch_lead:
  assumes "utf8_switch c = Some l"
  shows "0 < l \<and> l < 6 \<and> 0 \<le> c AND utf8_first_code_mask ! (l - 1) \<and>
    c = utf8_header ! l + (c AND utf8_first_code_mask ! (l - 1)) \<and>
    (c AND utf8_first_code_mask ! (l - 1)) < 2 ^ (6 - l)"
proof -
  note defs = utf8_switch_def utf8_header_def utf8_first_code_mask_def
  have a: "0 \<le> c - H \<Longrightarrow> c - H < 2 ^ h \<Longrightarrow> H = 2 ^ h * q \<Longrightarrow> c AND (2 ^ h - 1) = c - H" for H h q
    using lead_and_mask [of "c - H" h H q] by simp
  consider "0xc0 \<le> c" "c \<le> 0xdf" "l = 1" | "0xe0 \<le> c" "c \<le> 0xef" "l = 2" | "0xf0 \<le> c" "c \<le> 0xf7" "l = 3"
    | "0xf8 \<le> c" "c \<le> 0xfb" "l = 4" | "0xfc \<le> c" "c \<le> 0xfd" "l = 5"
    using assms by (auto simp: utf8_switch_def split: if_splits)
  then show ?thesis
  proof cases
    case 1
    then have "c AND (2 ^ 5 - 1) = c - 0xc0" by (intro a [of _ _ 6]) simp_all
    moreover have "utf8_first_code_mask ! (l - 1) = 2 ^ 5 - 1" "utf8_header ! l = 0xc0" using 1 by (simp_all add: defs)
    ultimately show ?thesis using 1 by simp
  next
    case 2
    then have "c AND (2 ^ 4 - 1) = c - 0xe0" by (intro a [of _ _ 14]) simp_all
    moreover have "utf8_first_code_mask ! (l - 1) = 2 ^ 4 - 1" "utf8_header ! l = 0xe0" using 2 by (simp_all add: defs)
    ultimately show ?thesis using 2 by simp
  next
    case 3
    then have "c AND (2 ^ 3 - 1) = c - 0xf0" by (intro a [of _ _ 30]) simp_all
    moreover have "utf8_first_code_mask ! (l - 1) = 2 ^ 3 - 1" "utf8_header ! l = 0xf0" using 3 by (simp_all add: defs)
    ultimately show ?thesis using 3 by simp
  next
    case 4
    then have "c AND (2 ^ 2 - 1) = c - 0xf8" by (intro a [of _ _ 62]) simp_all
    moreover have "utf8_first_code_mask ! (l - 1) = 2 ^ 2 - 1" "utf8_header ! l = 0xf8" using 4 by (simp_all add: defs)
    ultimately show ?thesis using 4 by simp
  next
    case 5
    then have "c AND (2 ^ 1 - 1) = c - 0xfc" by (intro a [of _ _ 126]) simp_all
    moreover have "utf8_first_code_mask ! (l - 1) = 2 ^ 1 - 1" "utf8_header ! l = 0xfc" using 5 by (simp_all add: defs)
    ultimately show ?thesis using 5 by simp
  qed
qed

lemma utf8_class_unique:
  assumes "0 < l" "l < 6" "utf8_min_code ! (l - 1) \<le> v" "v < 2 ^ (6 - l) * 64 ^ l"
  shows "utf8_class v = l \<and> v < 0x80000000"
proof -
  from assms(1,2) consider "l = 1" | "l = 2" | "l = 3" | "l = 4" | "l = 5" by linarith
  then show ?thesis by cases (use assms in \<open>simp_all add: utf8_class_def utf8_min_code_def\<close>)
qed

lemma unicode_to_utf8_int:
  assumes "0 \<le> v" "v < 0x80000000"
  shows "unicode_to_utf8 (word_of_int v) = map word_of_int (utf8_enc v)"
proof -
  have u: "uint (word_of_int v :: u32) = v" using assms by (simp add: uint_word_of_int)
  then have "(word_of_int v :: u32) < 0x80000000" using assms by (simp only: word_less_def) simp
  then show ?thesis using unicode_to_utf8_enc [of "word_of_int v"] u by simp
qed

lemma unicode_to_from:
  assumes r: "unicode_from_utf8 p max_len = Inr (v, k)" and v: "v \<noteq> -1"
  shows "0 \<le> v \<and> v < 0x80000000 \<and> 0 < k \<and> k \<le> length p \<and> take k p = unicode_to_utf8 (word_of_int v)"
proof -
  from r obtain b q where p: "p = b # q" by (cases p) (auto simp: unicode_from_utf8_def rd_def)
  show ?thesis
  proof (cases "uint b < 0x80")
    case True
    then have e: "v = uint b" "k = 1" using r by (simp_all add: unicode_from_utf8_def rd_def p)
    then have "unicode_to_utf8 (word_of_int v) = map word_of_int (utf8_enc v)"
      using True by (intro unicode_to_utf8_int) auto
    then show ?thesis using e True by (simp add: utf8_enc_cases p)
  next
    case False
    define l where "l = the (utf8_switch (uint b))"
    define x where "x = uint b AND utf8_first_code_mask ! (l - 1)"
    have sw: "utf8_switch (uint b) = Some l"
      and ct: "utf8_cont q l x = Inr (Some v)" and mn: "utf8_min_code ! (l - 1) \<le> v" and k: "k = Suc l"
      using r v False by (auto simp: unicode_from_utf8_def rd_def p l_def x_def Let_def
          split: option.splits if_splits sum.splits elim!: cbind_eq_InrE)
    note h = utf8_switch_lead [OF sw, folded x_def]
    define ds where "ds = take l q"
    have ds: "length ds = l" "\<forall>d \<in> set ds. 0x80 \<le> uint d \<and> uint d < 0xc0" "v = utf8_value x ds"
      using ct by (auto simp: utf8_cont_ok ds_def)
    have dv: "digits64 l v = map uint ds" "v div 64 ^ l = x"
      using digits64_value [OF ds(2), of x] ds by auto
    have "x + 1 \<le> 2 ^ (6 - l)" using h by simp
    then have "(x + 1) * 64 ^ l \<le> 2 ^ (6 - l) * 64 ^ l" by (rule mult_right_mono) simp
    then have "x * 64 ^ l + 64 ^ l \<le> 2 ^ (6 - l) * 64 ^ l" by (simp add: distrib_right)
    moreover have "v = x * 64 ^ l + v mod 64 ^ l" "v mod 64 ^ l < 64 ^ l" "0 \<le> v mod 64 ^ l"
      using div_mult_mod_eq [of v "64 ^ l"] dv(2) by auto
    moreover have "0 \<le> x * 64 ^ l" using h by simp
    ultimately have lt: "v < 2 ^ (6 - l) * 64 ^ l" and v0: "0 \<le> v" by linarith+
    note c = utf8_class_unique [OF _ _ mn lt]
    have "unicode_to_utf8 (word_of_int v) = map word_of_int (utf8_enc v)"
      using c h v0 by (intro unicode_to_utf8_int) auto
    also have "utf8_enc v = uint b # map uint ds"
      using c h dv by (simp add: utf8_enc_def)
    finally have "unicode_to_utf8 (word_of_int v) = b # ds" by (simp add: comp_def)
    moreover have "l \<le> length q" using ct by (simp add: utf8_cont_ok)
    ultimately show ?thesis using c h k v0 by (simp add: p ds_def)
  qed
qed

lemma utf8_cont_safe: "l \<le> length p \<Longrightarrow> \<exists>r. utf8_cont p l c = Inr r"
  by (induction p l c rule: utf8_cont.induct) auto

lemma utf8_min_code_pos: "i < 5 \<Longrightarrow> 0 \<le> utf8_min_code ! i"
proof -
  have "list_all (\<lambda>c. 0 \<le> c) utf8_min_code \<and> length utf8_min_code = 5" by (simp add: utf8_min_code_def)
  then show "i < 5 \<Longrightarrow> 0 \<le> utf8_min_code ! i" by (simp add: list_all_length)
qed

lemma unicode_from_utf8_safe:
  assumes "0 < max_len" "max_len \<le> int (length p)"
  shows "\<exists>v k. unicode_from_utf8 p max_len = Inr (v, k) \<and> int k \<le> max_len \<and> (v = -1 \<longrightarrow> k = 0)"
proof -
  from assms obtain b q where p: "p = b # q" by (cases p) auto
  have "0 \<le> uint b" by simp
  then have nn: "uint b \<noteq> -1" by linarith
  show ?thesis
  proof (cases "utf8_switch (uint b)")
    case None
    then show ?thesis using assms nn by (auto simp: unicode_from_utf8_def rd_def p Let_def)
  next
    case (Some l)
    show ?thesis
    proof (cases "int l > max_len - 1 \<or> uint b < 0x80")
      case True
      then show ?thesis using Some assms nn by (auto simp: unicode_from_utf8_def rd_def p Let_def)
    next
      case False
      then have "l \<le> length q" using assms p by simp
      then obtain r where "utf8_cont q l (uint b AND utf8_first_code_mask ! (l - 1)) = Inr r"
        using utf8_cont_safe by blast
      moreover have "0 \<le> utf8_min_code ! (l - 1)"
        using utf8_switch_lead [OF Some] by (intro utf8_min_code_pos) linarith
      ultimately show ?thesis using Some False assms
        by (cases r) (auto simp: unicode_from_utf8_def rd_def p Let_def)
    qed
  qed
qed

section \<open>Round trips\<close>

text \<open>
  C6. Decoding undoes encoding: for every code below \<open>0x80000000\<close>, \<open>unicode_from_utf8\<close> run on
  the bytes \<open>unicode_to_utf8\<close> writes, whatever follows them, returns the code and consumes
  exactly those bytes, provided \<open>max_len\<close> allows that many.
\<close>

theorem utf8_decode_encode:
  assumes c: "c < 0x80000000" and len: "int (length (unicode_to_utf8 c)) \<le> max_len"
  shows "unicode_from_utf8 (unicode_to_utf8 c @ r) max_len = Inr (uint c, length (unicode_to_utf8 c))"
proof -
  define n l where "n = uint c" and "l = utf8_class n"
  define x where "x = n div 64 ^ l"
  have n: "0 \<le> n" "n < 0x80000000" using c by (simp_all add: n_def word_less_def)
  have u: "unicode_to_utf8 c = map word_of_int (utf8_enc n)" using unicode_to_utf8_enc [OF c] by (simp add: n_def)
  show ?thesis
  proof (cases "n < 0x80")
    case True
    then have "unicode_to_utf8 c = [word_of_int n]" by (simp add: u utf8_enc_cases)
    moreover have "uint (word_of_int n :: u8) = n" using True n by (intro uint_u8_word_of_int) auto
    ultimately show ?thesis using True by (simp add: unicode_from_utf8_def n_def)
  next
    case False
    note f = utf8_class_facts [OF _ n(2) l_def x_def]
    let ?b = "utf8_header ! l + x" and ?ds = "map word_of_int (digits64 l n) :: u8 list"
    have e: "unicode_to_utf8 c = word_of_int ?b # ?ds" by (simp add: u utf8_enc_def l_def x_def Let_def del: of_int_add)
    have b: "uint (word_of_int ?b :: u8) = ?b" using f False by (intro uint_u8_word_of_int) auto
    have "\<forall>d \<in> set ?ds. 0x80 \<le> uint d \<and> uint d < 0xc0"
    proof
      fix d assume "d \<in> set ?ds"
      then obtain k where "k \<in> set (digits64 l n)" "d = word_of_int k" by auto
      then show "0x80 \<le> uint d \<and> uint d < 0xc0"
        using digits64_range [of k l n] uint_u8_word_of_int [of k] by auto
    qed
    then have "utf8_cont (?ds @ r) l x = Inr (Some (utf8_value x ?ds))"
      by (simp add: utf8_cont_ok)
    moreover have "utf8_value x ?ds = n" using utf8_value_digits [of n l] by (simp add: x_def)
    ultimately show ?thesis
      using f False b len unfolding e by (simp add: unicode_from_utf8_def Let_def n_def)
  qed
qed

theorem utf8_decode_encode_witness:
  "unicode_from_utf8 (unicode_to_utf8 0x20AC @ [0x41]) 6 = Inr (0x20AC, 3) \<and>
   unicode_to_utf8 0x20AC = [0xE2, 0x82, 0xAC]"
proof -
  have e: "unicode_to_utf8 0x20AC = [0xE2, 0x82, 0xAC]" by (simp add: unicode_to_utf8_def)
  show ?thesis using utf8_decode_encode [of "0x20AC" 6 "[0x41]"] by (simp add: e)
qed

text \<open>
  C7. \<open>unicode_from_utf8\<close> on any non-empty buffer of at least \<open>max_len\<close> bytes never reads
  outside it; it either returns -1 and consumes nothing, or returns a code below
  \<open>0x80000000\<close> together with exactly the bytes \<open>unicode_to_utf8\<close> produces for that code.
  In particular overlong encodings and stray continuation bytes are refused.
\<close>

theorem utf8_encode_decode:
  assumes "0 < max_len" "max_len \<le> int (length p)"
  shows "\<exists>v k. unicode_from_utf8 p max_len = Inr (v, k) \<and> int k \<le> max_len \<and>
    (if v = -1 then k = 0
     else 0 \<le> v \<and> v < 0x80000000 \<and> 0 < k \<and> take k p = unicode_to_utf8 (word_of_int v))"
  using unicode_from_utf8_safe [OF assms] unicode_to_from [of p max_len] by fastforce

theorem utf8_encode_decode_witness:
  "\<exists>v k. unicode_from_utf8 [0xC3, 0xA9] 2 = Inr (v, k) \<and> int k \<le> 2 \<and>
    (if v = -1 then k = 0
     else 0 \<le> v \<and> v < 0x80000000 \<and> 0 < k \<and> take k [0xC3, 0xA9] = unicode_to_utf8 (word_of_int v))"
  using utf8_encode_decode [of 2 "[0xC3, 0xA9]"] by simp

end
