(* ===== verification/Spec2Isabelle.thy ===== *)
theory Spec2Isabelle
  imports Dynbuf Exchange List_Head Prop_Sets Script_Sets Utf8
begin

text \<open>
  A verification library for the C sources of the repository.
\<close>

end
